(* ===== verification/Decaf_Prelude.thy ===== *)
theory Decaf_Prelude
  imports "HOL-Library.Word" "HOL-Library.Monad_Syntax"
begin

text \<open>
  Shared vocabulary of the development: the C integer types as words, little-endian
  byte sequences, the relation "equal outside a set of tainted bits" that every taint
  theorem is stated with, and generic facts on lists and loops over the option monad.
\<close>

unbundle bit_operations_syntax

section \<open>Machine integers\<close>

type_synonym u8 = "8 word"
type_synonym u16 = "16 word"
type_synonym u32 = "32 word"
type_synonym u64 = "64 word"

named_theorems agree_intros "rules that establish equality of two words outside a taint mask"
named_theorems gen_simps "results of running the code emitters"
named_theorems frame_simps "what an operation leaves unchanged"

section \<open>Words as little-endian byte sequences\<close>

text \<open>The value read through a wider pointer from consecutive bytes of a little-endian host.\<close>

fun le_word :: "u8 list \<Rightarrow> 'a::len word" where
  "le_word [] = 0"
| "le_word (b # bs) = ucast b OR push_bit 8 (le_word bs)"

text \<open>The bytes a wider store writes.\<close>

definition le_bytes :: "nat \<Rightarrow> 'a::len word \<Rightarrow> u8 list" where
  "le_bytes n w = map (\<lambda>i. ucast (drop_bit (8 * i) w)) [0..<n]"

lemma length_le_bytes [simp]: "length (le_bytes n w) = n"
  by (simp add: le_bytes_def)

lemma nth_le_bytes [simp]: "i < n \<Longrightarrow> le_bytes n w ! i = ucast (drop_bit (8 * i) w)"
  by (simp add: le_bytes_def)

lemma le_bytes_Suc: "le_bytes (Suc n) w = ucast w # le_bytes n (drop_bit 8 w)"
  by (rule nth_equalityI) (auto simp: nth_Cons' algebra_simps split: nat.split)

lemma bit_le_word:
  "bit (le_word bs :: 'a::len word) n \<longleftrightarrow>
     n < LENGTH('a) \<and> n div 8 < length bs \<and> bit (bs ! (n div 8)) (n mod 8)"
proof (induction bs arbitrary: n)
  case Nil
  then show ?case by simp
next
  case (Cons b bs)
  show ?case
  proof (cases "n < 8")
    case True
    then show ?thesis by (auto simp: bit_or_iff bit_push_bit_iff bit_ucast_iff)
  next
    case False
    then obtain m where n: "n = 8 + m" by (metis le_add_diff_inverse not_less)
    have "\<not> bit b (8 + m)" using bit_imp_le_length [of b "8 + m"] by auto
    moreover have "(8 + m) div 8 = Suc (m div 8)" by simp
    ultimately show ?thesis using Cons.IH [of m]
      by (auto simp: n bit_or_iff bit_push_bit_iff bit_ucast_iff)
  qed
qed

lemma le_word_le_bytes:
  fixes w :: "'a::len word"
  shows "le_word (le_bytes n w) = take_bit (8 * n) w"
proof (rule bit_word_eqI)
  fix k assume "k < LENGTH('a)"
  moreover have "k div 8 < n \<longleftrightarrow> k < 8 * n" by (auto simp: div_less_iff_less_mult mult.commute)
  ultimately show "bit (le_word (le_bytes n w) :: 'a word) k = bit (take_bit (8 * n) w) k"
    by (auto simp: bit_le_word bit_take_bit_iff bit_ucast_iff bit_drop_bit_eq)
qed

lemma le_word_eq_0_iff:
  assumes "8 * length bs \<le> LENGTH('a)"
  shows "(le_word bs :: 'a::len word) = 0 \<longleftrightarrow> (\<forall>b \<in> set bs. b = 0)"
proof
  assume zero: "(le_word bs :: 'a word) = 0"
  show "\<forall>b \<in> set bs. b = 0"
  proof
    fix b assume "b \<in> set bs"
    then obtain i where i: "i < length bs" "b = bs ! i" by (auto simp: in_set_conv_nth)
    show "b = 0"
    proof (rule bit_word_eqI)
      fix n assume n: "n < LENGTH(8)"
      then have "\<not> bit (le_word bs :: 'a word) (8 * i + n)" using zero by simp
      moreover have "8 * i + n < LENGTH('a)" using n i assms by simp
      ultimately show "bit b n = bit 0 n" using n i by (simp add: bit_le_word)
    qed
  qed
next
  assume "\<forall>b \<in> set bs. b = 0"
  then have "i < length bs \<Longrightarrow> bs ! i = 0" for i by simp
  then show "(le_word bs :: 'a word) = 0" by (auto intro!: bit_word_eqI simp: bit_le_word)
qed

section \<open>Equality outside tainted bits\<close>

text \<open>
  Two runs agree on a value up to taint when every bit in which they differ is marked
  in the taint mask: the meaning of a bitwise shadow value.
\<close>

definition agree :: "'a::len word \<Rightarrow> 'a word \<Rightarrow> 'a word \<Rightarrow> bool" where
  "agree t u v \<longleftrightarrow> u AND NOT t = v AND NOT t"

lemma agree_iff_bits:
  "agree t u v \<longleftrightarrow> (\<forall>n. n < LENGTH('a) \<longrightarrow> \<not> bit t n \<longrightarrow> bit u n = bit v n)"
  for t u v :: "'a::len word"
  unfolding agree_def by (auto simp: bit_eq_iff bit_and_iff bit_not_iff)

lemma agreeI:
  fixes t u v :: "'a::len word"
  assumes "\<And>n. n < LENGTH('a) \<Longrightarrow> \<not> bit t n \<Longrightarrow> bit u n = bit v n"
  shows "agree t u v"
  using assms by (simp add: agree_iff_bits)

lemma agreeD:
  "agree t u v \<Longrightarrow> \<not> bit t n \<Longrightarrow> bit u n = bit v n"
  for t u v :: "'a::len word"
  by (metis agree_iff_bits bit_imp_le_length)

lemma agree_refl [simp, agree_intros]: "agree t u u"
  by (simp add: agree_def)

lemma agree_0 [simp]: "agree 0 u v \<longleftrightarrow> u = v"
  by (simp add: agree_def)

lemma agree_all [simp, agree_intros]: "agree (- 1) u v"
  by (simp add: agree_def)

lemma agree_sym: "agree t u v \<Longrightarrow> agree t v u"
  by (simp add: agree_def)

lemma agree_trans: "agree t u v \<Longrightarrow> agree t v w \<Longrightarrow> agree t u w"
  by (simp add: agree_def)

lemma agree_mono:
  assumes "agree t u v" and "\<And>n. bit t n \<Longrightarrow> bit s n"
  shows "agree s u v"
  using assms by (auto simp: agree_iff_bits)

lemma agree_orI1: "agree t u v \<Longrightarrow> agree (t OR s) u v"
  by (erule agree_mono) (simp add: bit_or_iff)

lemma agree_orI2: "agree s u v \<Longrightarrow> agree (t OR s) u v"
  by (erule agree_mono) (simp add: bit_or_iff)

lemma agree_ucast [agree_intros]:
  "agree t u v \<Longrightarrow> agree (ucast t :: 'b::len word) (ucast u) (ucast v)"
  for t u v :: "'a::len word"
  by (rule agreeI) (auto simp: bit_ucast_iff dest: agreeD)

section \<open>Loops over the option monad\<close>

text \<open>A C \<^verbatim>\<open>for\<close> loop whose body may hit undefined behaviour.\<close>

fun foldM :: "('a \<Rightarrow> 's \<Rightarrow> 's option) \<Rightarrow> 'a list \<Rightarrow> 's \<Rightarrow> 's option" where
  "foldM f [] s = Some s"
| "foldM f (x # xs) s = (case f x s of None \<Rightarrow> None | Some s' \<Rightarrow> foldM f xs s')"

lemma foldM_append:
  "foldM f (xs @ ys) s = (case foldM f xs s of None \<Rightarrow> None | Some s' \<Rightarrow> foldM f ys s')"
  by (induction xs arbitrary: s) (auto split: option.split)

text \<open>The invariant rule for a loop over an index range.\<close>

lemma foldM_upt_invariant:
  assumes "P 0 s"
    and "\<And>i t. \<lbrakk>i < n; P i t\<rbrakk> \<Longrightarrow> \<exists>t'. f i t = Some t' \<and> P (Suc i) t'"
  shows "\<exists>s'. foldM f [0..<n] s = Some s' \<and> P n s'"
proof -
  have "\<exists>s'. foldM f [0..<k] s = Some s' \<and> P k s'" if "k \<le> n" for k
    using that
  proof (induction k)
    case 0
    then show ?case using assms(1) by simp
  next
    case (Suc k)
    then obtain t where "foldM f [0..<k] s = Some t" "P k t" by auto
    moreover obtain t' where "f k t = Some t'" "P (Suc k) t'"
      using assms(2) [of k t] Suc.prems \<open>P k t\<close> by auto
    ultimately show ?case by (simp add: foldM_append)
  qed
  then show ?thesis by simp
qed

section \<open>Injective finite maps\<close>

text \<open>A table of pointers without sharing: its entries, and how updates change them.\<close>

definition inj_map :: "('k \<rightharpoonup> 'v) \<Rightarrow> bool" where
  "inj_map m \<longleftrightarrow> (\<forall>k k' v. m k = Some v \<longrightarrow> m k' = Some v \<longrightarrow> k = k')"

lemma inj_mapD: "inj_map m \<Longrightarrow> m k = Some v \<Longrightarrow> m k' = Some v \<Longrightarrow> k = k'"
  by (auto simp: inj_map_def)

lemma inj_map_upd: "inj_map m \<Longrightarrow> v \<notin> ran m \<Longrightarrow> inj_map (m(k \<mapsto> v))"
  by (auto simp: inj_map_def ran_def)

lemma inj_map_del: "inj_map m \<Longrightarrow> inj_map (m(k := None))"
  by (auto simp: inj_map_def)

lemma inj_map_empty [simp]: "inj_map (\<lambda>_. None)"
  by (simp add: inj_map_def)

lemma ran_del:
  assumes "inj_map m" "m k = Some v"
  shows "ran (m(k := None)) = ran m - {v}"
proof (intro set_eqI iffI)
  fix x assume "x \<in> ran (m(k := None))"
  then obtain j where "j \<noteq> k" "m j = Some x" by (auto simp: ran_def split: if_splits)
  then show "x \<in> ran m - {v}" using inj_mapD [OF assms(1,2), of j] by (auto simp: ran_def)
next
  fix x assume "x \<in> ran m - {v}"
  then obtain j where "m j = Some x" "x \<noteq> v" by (auto simp: ran_def)
  then have "(m(k := None)) j = Some x" using assms(2) by auto
  then show "x \<in> ran (m(k := None))" by (rule ranI)
qed

lemma card_dom_upd:
  "finite (dom m) \<Longrightarrow> m k = None \<Longrightarrow> card (dom (m(k \<mapsto> v))) = Suc (card (dom m))"
  by (simp add: domIff)

lemma card_dom_del:
  assumes "finite (dom m)" "m k = Some v"
  shows "Suc (card (dom (m(k := None)))) = card (dom m)"
  using card.remove [OF assms(1), of k] assms(2) by (auto simp: domI)

end
