(* ===== verification/Shadow_Memory.thy ===== *)
theory Shadow_Memory
  imports Decaf_Prelude
begin

text \<open>
  The shadow memory of \<^verbatim>\<open>shared/tainting/taint_memory.c\<close>: a two-level page table of taint
  bytes with pre-allocated node pools.

  Nodes live in explicit heaps (pointer to node), so that sharing of a node by two table
  slots, a slot that points to a freed node and a pool node that is still in use are
  expressible; the invariant \<open>smem_inv\<close> excludes them.  \<^verbatim>\<open>None\<close> as the result of an
  operation is undefined behaviour of the C code: a NULL or freed pointer is followed, or an
  array is indexed outside its bounds.  \<open>taint_at\<close> is the abstract view, the taint byte of
  every physical address.  The guest is i386 (\<^verbatim>\<open>TARGET_PAGE_BITS\<close> 12, \<^verbatim>\<open>TARGET_LONG_BITS\<close> 32).
\<close>

section \<open>Constants, nodes and state\<close>

type_synonym ram_addr_t = u64
type_synonym gva_t = u32

definition BITPAGE_LEAF_BITS :: nat where
  "BITPAGE_LEAF_BITS = 12"

definition BITPAGE_MIDDLE_BITS :: nat where
  "BITPAGE_MIDDLE_BITS = (32 - 12) div 2"

definition BITPAGE_LEAF_POOL_SIZE :: nat where
  "BITPAGE_LEAF_POOL_SIZE = 100"

definition BITPAGE_MIDDLE_POOL_SIZE :: nat where
  "BITPAGE_MIDDLE_POOL_SIZE = 50"

definition LEAF_ADDRESS_MASK :: u32 where
  "LEAF_ADDRESS_MASK = push_bit BITPAGE_LEAF_BITS 1 - 1"

definition MIDDLE_ADDRESS_MASK :: u32 where
  "MIDDLE_ADDRESS_MASK = push_bit BITPAGE_MIDDLE_BITS 1 - 1"

text \<open>
  A node is an array; the index is bounded where it is used.  Pointers are numbers handed
  out by the allocator, \<open>None\<close> is NULL.
\<close>

type_synonym leaf_ptr = nat
type_synonym middle_ptr = nat
type_synonym tbitpage_leaf_t = "nat \<Rightarrow> u8"
type_synonym tbitpage_middle_t = "nat \<Rightarrow> leaf_ptr option"

text \<open>What the code does to the rest of the emulator.\<close>

datatype event =
    Tlb_flush_page gva_t
  | Tlb_flush
  | Tb_flush
  | Stop_vm
  | Start_vm
  | Read_taintmem_cb gva_t ram_addr_t nat "u8 list"
  | Write_taintmem_cb gva_t ram_addr_t nat "u8 list"

record tstate =
  taint_memory_page_table :: "middle_ptr option list option"
  taint_memory_page_table_root_size :: nat
  leaf_heap :: "leaf_ptr \<Rightarrow> tbitpage_leaf_t option"
  middle_heap :: "middle_ptr \<Rightarrow> tbitpage_middle_t option"
  heap_next :: nat
  leaf_next_available_node :: nat
  leaf_pool :: "nat \<Rightarrow> leaf_ptr option"
  middle_next_available_node :: nat
  middle_pool :: "nat \<Rightarrow> middle_ptr option"
  middle_nodes_in_use :: u32
  leaf_nodes_in_use :: u32
  gc_counter :: u32
  ram_size :: ram_addr_t
  tempidx :: u32
  tempidx2 :: u32
  taint_tracking_enabled :: bool
  taint_nic_enabled :: bool
  taint_load_pointers_enabled :: bool
  taint_store_pointers_enabled :: bool
  read_taintmem_cb_needed :: bool
  write_taintmem_cb_needed :: bool
  events :: "event list"

definition emit_event :: "event \<Rightarrow> tstate \<Rightarrow> tstate" where
  "emit_event e st = st\<lparr>events := events st @ [e]\<rparr>"

text \<open>\<^verbatim>\<open>unsigned int\<close> indices computed from an address of any width.\<close>

definition middle_node_index :: "'a::len word \<Rightarrow> nat" where
  "middle_node_index address =
     unat (drop_bit (BITPAGE_LEAF_BITS + BITPAGE_MIDDLE_BITS) address) mod 2 ^ 32"

definition leaf_node_index :: "'a::len word \<Rightarrow> nat" where
  "leaf_node_index address =
     unat (drop_bit BITPAGE_LEAF_BITS address AND ucast MIDDLE_ADDRESS_MASK) mod 2 ^ 32"

definition leaf_offset :: "'a::len word \<Rightarrow> nat" where
  "leaf_offset address = unat (address AND ucast LEAF_ADDRESS_MASK)"

text \<open>\<^verbatim>\<open>taint_memory_page_table[i]\<close> and \<^verbatim>\<open>->leaf[j]\<close> of a non-NULL middle node.\<close>

definition read_root :: "tstate \<Rightarrow> nat \<Rightarrow> middle_ptr option option" where
  "read_root st i =
     (case taint_memory_page_table st of
        None \<Rightarrow> None
      | Some root \<Rightarrow> if i < length root then Some (root ! i) else None)"

definition read_middle :: "tstate \<Rightarrow> middle_ptr \<Rightarrow> nat \<Rightarrow> leaf_ptr option option" where
  "read_middle st m j =
     (case middle_heap st m of
        None \<Rightarrow> None
      | Some node \<Rightarrow> if j < 2 ^ BITPAGE_MIDDLE_BITS then Some (node j) else None)"

definition write_root :: "nat \<Rightarrow> middle_ptr option \<Rightarrow> tstate \<Rightarrow> tstate option" where
  "write_root i v st =
     (case taint_memory_page_table st of
        None \<Rightarrow> None
      | Some root \<Rightarrow>
          if i < length root then Some (st\<lparr>taint_memory_page_table := Some (root[i := v])\<rparr>) else None)"

definition write_middle :: "middle_ptr \<Rightarrow> nat \<Rightarrow> leaf_ptr option \<Rightarrow> tstate \<Rightarrow> tstate option" where
  "write_middle m j v st =
     (case middle_heap st m of
        None \<Rightarrow> None
      | Some node \<Rightarrow>
          if j < 2 ^ BITPAGE_MIDDLE_BITS
          then Some (st\<lparr>middle_heap := (middle_heap st)(m \<mapsto> node(j := v))\<rparr>) else None)"

text \<open>Reads and writes of \<open>n\<close> consecutive bytes of a leaf's bitmap.\<close>

definition leaf_read :: "tstate \<Rightarrow> leaf_ptr \<Rightarrow> nat \<Rightarrow> nat \<Rightarrow> u8 list option" where
  "leaf_read st p off n =
     (case leaf_heap st p of
        None \<Rightarrow> None
      | Some b \<Rightarrow> if off + n \<le> 2 ^ BITPAGE_LEAF_BITS then Some (map b [off..<off + n]) else None)"

definition write_bytes :: "tbitpage_leaf_t \<Rightarrow> nat \<Rightarrow> u8 list \<Rightarrow> tbitpage_leaf_t" where
  "write_bytes b off bs = (\<lambda>i. if off \<le> i \<and> i < off + length bs then bs ! (i - off) else b i)"

definition leaf_write :: "leaf_ptr \<Rightarrow> nat \<Rightarrow> u8 list \<Rightarrow> tstate \<Rightarrow> tstate option" where
  "leaf_write p off bs st =
     (case leaf_heap st p of
        None \<Rightarrow> None
      | Some b \<Rightarrow>
          if off + length bs \<le> 2 ^ BITPAGE_LEAF_BITS
          then Some (st\<lparr>leaf_heap := (leaf_heap st)(p \<mapsto> write_bytes b off bs)\<rparr>) else None)"

section \<open>Node pools\<close>

definition g_malloc0_leaf :: "tstate \<Rightarrow> leaf_ptr \<times> tstate" where
  "g_malloc0_leaf st =
     (heap_next st, st\<lparr>leaf_heap := (leaf_heap st)(heap_next st \<mapsto> (\<lambda>_. 0)),
                       heap_next := Suc (heap_next st)\<rparr>)"

definition g_malloc0_middle :: "tstate \<Rightarrow> middle_ptr \<times> tstate" where
  "g_malloc0_middle st =
     (heap_next st, st\<lparr>middle_heap := (middle_heap st)(heap_next st \<mapsto> (\<lambda>_. None)),
                       heap_next := Suc (heap_next st)\<rparr>)"

definition fill_leaf_slot :: "nat \<Rightarrow> tstate \<Rightarrow> tstate" where
  "fill_leaf_slot i st =
     (let (p, st) = g_malloc0_leaf st in st\<lparr>leaf_pool := (leaf_pool st)(i \<mapsto> p)\<rparr>)"

definition allocate_leaf_pool :: "tstate \<Rightarrow> tstate" where
  "allocate_leaf_pool st =
     (fold fill_leaf_slot [0..<BITPAGE_LEAF_POOL_SIZE] st)\<lparr>leaf_next_available_node := 0\<rparr>"

definition fill_middle_slot :: "nat \<Rightarrow> tstate \<Rightarrow> tstate" where
  "fill_middle_slot i st =
     (let (p, st) = g_malloc0_middle st in st\<lparr>middle_pool := (middle_pool st)(i \<mapsto> p)\<rparr>)"

definition allocate_middle_pool :: "tstate \<Rightarrow> tstate" where
  "allocate_middle_pool st =
     (fold fill_middle_slot [0..<BITPAGE_MIDDLE_POOL_SIZE] st)\<lparr>middle_next_available_node := 0\<rparr>"

text \<open>\<^verbatim>\<open>g_free\<close> of a node; freeing a node that is not allocated is undefined.\<close>

definition free_leaf :: "leaf_ptr \<Rightarrow> tstate \<Rightarrow> tstate option" where
  "free_leaf p st =
     (if leaf_heap st p = None then None
      else Some (st\<lparr>leaf_heap := (leaf_heap st)(p := None)\<rparr>))"

definition free_middle :: "middle_ptr \<Rightarrow> tstate \<Rightarrow> tstate option" where
  "free_middle p st =
     (if middle_heap st p = None then None
      else Some (st\<lparr>middle_heap := (middle_heap st)(p := None)\<rparr>))"

definition return_leaf_node_to_pool :: "leaf_ptr \<Rightarrow> tstate \<Rightarrow> tstate option" where
  "return_leaf_node_to_pool node st =
     (if leaf_next_available_node st \<noteq> 0 then
        (if leaf_heap st node = None then None
         else let n = leaf_next_available_node st - 1 in
           Some (st\<lparr>leaf_heap := (leaf_heap st)(node \<mapsto> (\<lambda>_. 0)),
                    leaf_next_available_node := n,
                    leaf_pool := (leaf_pool st)(n \<mapsto> node),
                    leaf_nodes_in_use := leaf_nodes_in_use st - 1\<rparr>))
      else map_option (\<lambda>st. st\<lparr>leaf_nodes_in_use := leaf_nodes_in_use st - 1\<rparr>) (free_leaf node st))"

definition return_middle_node_to_pool :: "middle_ptr \<Rightarrow> tstate \<Rightarrow> tstate option" where
  "return_middle_node_to_pool node st =
     (if middle_next_available_node st > 0 then
        (if middle_heap st node = None then None
         else let n = middle_next_available_node st - 1 in
           Some (st\<lparr>middle_heap := (middle_heap st)(node \<mapsto> (\<lambda>_. None)),
                    middle_next_available_node := n,
                    middle_pool := (middle_pool st)(n \<mapsto> node),
                    middle_nodes_in_use := middle_nodes_in_use st - 1\<rparr>))
      else map_option (\<lambda>st. st\<lparr>middle_nodes_in_use := middle_nodes_in_use st - 1\<rparr>) (free_middle node st))"

text \<open>A pool slot that was never filled holds no node: fetching it is undefined.\<close>

definition fetch_leaf_node_from_pool :: "tstate \<Rightarrow> (leaf_ptr \<times> tstate) option" where
  "fetch_leaf_node_from_pool st =
     (let st = (if leaf_next_available_node st \<ge> BITPAGE_LEAF_POOL_SIZE
                then allocate_leaf_pool st else st);
          st = st\<lparr>leaf_nodes_in_use := leaf_nodes_in_use st + 1\<rparr> in
      map_option (\<lambda>p. (p, st\<lparr>leaf_next_available_node := leaf_next_available_node st + 1\<rparr>))
        (leaf_pool st (leaf_next_available_node st)))"

definition fetch_middle_node_from_pool :: "tstate \<Rightarrow> (middle_ptr \<times> tstate) option" where
  "fetch_middle_node_from_pool st =
     (let st = (if middle_next_available_node st \<ge> BITPAGE_MIDDLE_POOL_SIZE
                then allocate_middle_pool st else st);
          st = st\<lparr>middle_nodes_in_use := middle_nodes_in_use st + 1\<rparr> in
      map_option (\<lambda>p. (p, st\<lparr>middle_next_available_node := middle_next_available_node st + 1\<rparr>))
        (middle_pool st (middle_next_available_node st)))"

definition free_leaf_slot :: "nat \<Rightarrow> tstate \<Rightarrow> tstate option" where
  "free_leaf_slot i st =
     (case leaf_pool st i of
        None \<Rightarrow> Some st
      | Some p \<Rightarrow> map_option (\<lambda>st. st\<lparr>leaf_pool := (leaf_pool st)(i := None)\<rparr>) (free_leaf p st))"

definition free_middle_slot :: "nat \<Rightarrow> tstate \<Rightarrow> tstate option" where
  "free_middle_slot i st =
     (case middle_pool st i of
        None \<Rightarrow> Some st
      | Some p \<Rightarrow> map_option (\<lambda>st. st\<lparr>middle_pool := (middle_pool st)(i := None)\<rparr>) (free_middle p st))"

definition free_pools :: "tstate \<Rightarrow> tstate option" where
  "free_pools st = do {
     st \<leftarrow> foldM free_leaf_slot [leaf_next_available_node st..<BITPAGE_LEAF_POOL_SIZE] st;
     st \<leftarrow> foldM free_middle_slot [middle_next_available_node st..<BITPAGE_MIDDLE_POOL_SIZE] st;
     Some (st\<lparr>leaf_next_available_node := 0, middle_next_available_node := 0\<rparr>)
   }"

section \<open>The page table\<close>

definition read_leaf_node_i32 :: "u32 \<Rightarrow> tstate \<Rightarrow> leaf_ptr option option" where
  "read_leaf_node_i32 address st =
     (if ucast address \<ge> ram_size st then Some None
      else do {
        middle \<leftarrow> read_root st (middle_node_index address);
        case middle of
          None \<Rightarrow> Some None
        | Some m \<Rightarrow> read_middle st m (leaf_node_index address)
      })"

definition flush_tlb_for :: "gva_t \<Rightarrow> tstate \<Rightarrow> tstate" where
  "flush_tlb_for vaddr st = emit_event (if vaddr \<noteq> 0 then Tlb_flush_page vaddr else Tlb_flush) st"

definition taint_st_general_i32 ::
  "ram_addr_t \<Rightarrow> gva_t \<Rightarrow> u32 \<Rightarrow> tstate \<Rightarrow> (leaf_ptr option \<times> tstate) option" where
  "taint_st_general_i32 address vaddr taint st =
     (let mi = middle_node_index address; li = leaf_node_index address in do {
        middle \<leftarrow> read_root st mi;
        case middle of
          Some m \<Rightarrow> do {
            leaf \<leftarrow> read_middle st m li;
            case leaf of
              None \<Rightarrow>
                if taint = 0 then Some (None, st)
                else do {
                  (leaf_node, st) \<leftarrow> fetch_leaf_node_from_pool st;
                  st \<leftarrow> write_middle m li (Some leaf_node) st;
                  Some (Some leaf_node, flush_tlb_for vaddr st)
                }
            | Some leaf_node \<Rightarrow> Some (Some leaf_node, st)
          }
        | None \<Rightarrow>
            if taint = 0 then Some (None, st)
            else do {
              (leaf_node, st) \<leftarrow> fetch_leaf_node_from_pool st;
              (m, st) \<leftarrow> fetch_middle_node_from_pool st;
              st \<leftarrow> write_root mi (Some m) st;
              st \<leftarrow> write_middle m li (Some leaf_node) st;
              Some (Some leaf_node, flush_tlb_for vaddr st)
            }
      })"

definition allocate_taint_memory_page_table :: "tstate \<Rightarrow> tstate" where
  "allocate_taint_memory_page_table st =
     (if taint_memory_page_table st \<noteq> None then st
      else
        let n = unat (drop_bit (BITPAGE_LEAF_BITS + BITPAGE_MIDDLE_BITS) (ram_size st)) mod 2 ^ 32;
            st = st\<lparr>taint_memory_page_table_root_size := n,
                    taint_memory_page_table := Some (replicate n None)\<rparr>;
            st = allocate_middle_pool (allocate_leaf_pool st)
        in st\<lparr>middle_nodes_in_use := 0, leaf_nodes_in_use := 0\<rparr>)"

text \<open>The collector looks at a leaf's bitmap four bytes at a time.\<close>

definition leaf_word32 :: "tbitpage_leaf_t \<Rightarrow> nat \<Rightarrow> u32" where
  "leaf_word32 b i = le_word (map b [4 * i..<4 * i + 4])"

definition leaf_is_clean :: "tbitpage_leaf_t \<Rightarrow> bool" where
  "leaf_is_clean b = (\<forall>i \<in> set [0..<2 ^ (BITPAGE_LEAF_BITS - 2)]. leaf_word32 b i = 0)"

definition gc_leaf :: "middle_ptr \<Rightarrow> nat \<Rightarrow> bool \<times> tstate \<Rightarrow> (bool \<times> tstate) option" where
  "gc_leaf middle_node leaf_index = (\<lambda>(free_middle, st). do {
     leaf \<leftarrow> read_middle st middle_node leaf_index;
     case leaf of
       None \<Rightarrow> Some (free_middle, st)
     | Some leaf_node \<Rightarrow> do {
         b \<leftarrow> leaf_heap st leaf_node;
         if leaf_is_clean b then do {
           st \<leftarrow> return_leaf_node_to_pool leaf_node st;
           st \<leftarrow> write_middle middle_node leaf_index None st;
           Some (free_middle, st)
         } else Some (False, st)
       }
   })"

definition gc_middle :: "nat \<Rightarrow> tstate \<Rightarrow> tstate option" where
  "gc_middle middle_index st = do {
     middle \<leftarrow> read_root st middle_index;
     case middle of
       None \<Rightarrow> Some st
     | Some middle_node \<Rightarrow> do {
         (free_middle, st) \<leftarrow>
           foldM (gc_leaf middle_node) [0..<2 ^ BITPAGE_MIDDLE_BITS] (True, st);
         if free_middle then do {
           st \<leftarrow> return_middle_node_to_pool middle_node st;
           write_root middle_index None st
         } else Some st
       }
   }"

definition garbage_collect_taint :: "bool \<Rightarrow> tstate \<Rightarrow> tstate option" where
  "garbage_collect_taint flag st =
     (if taint_memory_page_table st = None \<or> \<not> taint_tracking_enabled st then Some st
      else if \<not> flag \<and> gc_counter st < 4 * 1024 then Some (st\<lparr>gc_counter := gc_counter st + 1\<rparr>)
      else foldM gc_middle [0..<taint_memory_page_table_root_size st] (st\<lparr>gc_counter := 0\<rparr>))"

definition empty_leaf :: "middle_ptr \<Rightarrow> nat \<Rightarrow> tstate \<Rightarrow> tstate option" where
  "empty_leaf middle_node leaf_index st = do {
     leaf \<leftarrow> read_middle st middle_node leaf_index;
     case leaf of None \<Rightarrow> Some st | Some p \<Rightarrow> free_leaf p st
   }"

definition empty_middle :: "nat \<Rightarrow> tstate \<Rightarrow> tstate option" where
  "empty_middle middle_index st = do {
     middle \<leftarrow> read_root st middle_index;
     case middle of
       None \<Rightarrow> Some st
     | Some m \<Rightarrow> do {
         st \<leftarrow> foldM (empty_leaf m) [0..<2 ^ BITPAGE_MIDDLE_BITS] st;
         free_middle m st
       }
   }"

definition empty_taint_memory_page_table :: "tstate \<Rightarrow> tstate option" where
  "empty_taint_memory_page_table st =
     (if taint_memory_page_table st = None then Some st
      else foldM empty_middle [0..<taint_memory_page_table_root_size st] st)"

definition free_taint_memory_page_table :: "tstate \<Rightarrow> tstate option" where
  "free_taint_memory_page_table st = do {
     st \<leftarrow> empty_taint_memory_page_table st;
     free_pools (st\<lparr>taint_memory_page_table := None\<rparr>)
   }"

section \<open>Abstract view and invariant\<close>

text \<open>The table seen as two finite maps: root slots to middle nodes, and (root, leaf) slots to leaves.\<close>

definition middle_slot :: "tstate \<Rightarrow> nat \<Rightarrow> middle_ptr option" where
  "middle_slot st i =
     (case taint_memory_page_table st of
        None \<Rightarrow> None
      | Some root \<Rightarrow> if i < length root then root ! i else None)"

definition leaf_slot :: "tstate \<Rightarrow> nat \<times> nat \<Rightarrow> leaf_ptr option" where
  "leaf_slot st = (\<lambda>(i, j).
     case middle_slot st i of
       None \<Rightarrow> None
     | Some m \<Rightarrow>
         (case middle_heap st m of
            None \<Rightarrow> None
          | Some node \<Rightarrow> if j < 2 ^ BITPAGE_MIDDLE_BITS then node j else None))"

text \<open>The taint byte of a physical address.\<close>

definition slot_of :: "nat \<Rightarrow> nat \<times> nat" where
  "slot_of a = (a div 2 ^ 22, a div 2 ^ 12 mod 2 ^ 10)"

definition taint_at :: "tstate \<Rightarrow> nat \<Rightarrow> u8" where
  "taint_at st a =
     (case leaf_slot st (slot_of a) of
        None \<Rightarrow> 0
      | Some p \<Rightarrow> (case leaf_heap st p of None \<Rightarrow> 0 | Some b \<Rightarrow> b (a mod 2 ^ 12)))"

text \<open>
  A pool of nodes against the heap they live in: the slots from the next available one on
  hold distinct zeroed nodes that are not in use, and every allocated node is in use or in
  the pool.
\<close>

definition avail :: "nat \<Rightarrow> nat \<Rightarrow> (nat \<Rightarrow> nat option) \<Rightarrow> nat set" where
  "avail sz nxt slots = {p. \<exists>k. nxt \<le> k \<and> k < sz \<and> slots k = Some p}"

definition pool_ok ::
  "nat \<Rightarrow> nat \<Rightarrow> (nat \<Rightarrow> nat option) \<Rightarrow> (nat \<Rightarrow> 'n option) \<Rightarrow> 'n \<Rightarrow> nat set \<Rightarrow> bool" where
  "pool_ok sz nxt slots heap zero used \<longleftrightarrow>
     nxt \<le> sz \<and>
     (\<forall>k. nxt \<le> k \<longrightarrow> k < sz \<longrightarrow> slots k \<noteq> None) \<and>
     (\<forall>k k'. nxt \<le> k \<longrightarrow> k < k' \<longrightarrow> k' < sz \<longrightarrow> slots k \<noteq> slots k') \<and>
     (\<forall>p \<in> avail sz nxt slots. heap p = Some zero) \<and>
     used \<inter> avail sz nxt slots = {} \<and>
     dom heap = used \<union> avail sz nxt slots"

definition smem_inv :: "tstate \<Rightarrow> bool" where
  "smem_inv st \<longleftrightarrow>
     (\<forall>p \<ge> heap_next st. leaf_heap st p = None \<and> middle_heap st p = None) \<and>
     (case taint_memory_page_table st of
        None \<Rightarrow> leaf_heap st = (\<lambda>_. None) \<and> middle_heap st = (\<lambda>_. None)
      | Some root \<Rightarrow>
          length root = taint_memory_page_table_root_size st \<and>
          inj_map (middle_slot st) \<and> inj_map (leaf_slot st) \<and>
          pool_ok BITPAGE_LEAF_POOL_SIZE (leaf_next_available_node st) (leaf_pool st)
            (leaf_heap st) (\<lambda>_. 0) (ran (leaf_slot st)) \<and>
          pool_ok BITPAGE_MIDDLE_POOL_SIZE (middle_next_available_node st) (middle_pool st)
            (middle_heap st) (\<lambda>_. None) (ran (middle_slot st)) \<and>
          leaf_nodes_in_use st = of_nat (card (dom (leaf_slot st))) \<and>
          middle_nodes_in_use st = of_nat (card (dom (middle_slot st))))"

subsection \<open>Pools\<close>

lemma availI: "slots k = Some p \<Longrightarrow> nxt \<le> k \<Longrightarrow> k < sz \<Longrightarrow> p \<in> avail sz nxt slots"
  by (auto simp: avail_def)

lemma availE:
  assumes "p \<in> avail sz nxt slots"
  obtains k where "slots k = Some p" "nxt \<le> k" "k < sz"
  using assms by (auto simp: avail_def)

lemma avail_cong: "(\<And>k. nxt \<le> k \<Longrightarrow> k < sz \<Longrightarrow> slots k = slots' k) \<Longrightarrow> avail sz nxt slots = avail sz nxt slots'"
  by (intro set_eqI iffI; elim availE) (metis availI)+

lemma avail_step:
  assumes "slots nxt = Some p" "nxt < sz"
  shows "avail sz nxt slots = insert p (avail sz (Suc nxt) slots)"
proof (intro set_eqI iffI)
  fix q assume "q \<in> avail sz nxt slots"
  then obtain k where k: "slots k = Some q" "nxt \<le> k" "k < sz" by (rule availE)
  then show "q \<in> insert p (avail sz (Suc nxt) slots)"
    using assms(1) by (cases "k = nxt") (auto intro: availI simp: Suc_le_eq)
next
  fix q assume "q \<in> insert p (avail sz (Suc nxt) slots)"
  then show "q \<in> avail sz nxt slots"
  proof
    assume "q = p" then show ?thesis using assms by (blast intro: availI)
  next
    assume "q \<in> avail sz (Suc nxt) slots"
    then show ?thesis by (rule availE) (auto intro: availI)
  qed
qed

lemma pool_ok_distinct:
  assumes "pool_ok sz nxt slots heap zero used" "nxt < sz" "slots nxt = Some p"
  shows "p \<notin> avail sz (Suc nxt) slots"
proof
  assume "p \<in> avail sz (Suc nxt) slots"
  then obtain k where "slots k = Some p" "Suc nxt \<le> k" "k < sz" by (rule availE)
  moreover have "slots nxt \<noteq> slots k" if "nxt < k" "k < sz" for k
    using assms(1) that unfolding pool_ok_def by blast
  ultimately show False using assms(3) by (metis Suc_le_eq)
qed

lemma pool_ok_fetch:
  assumes ok: "pool_ok sz nxt slots heap zero used" and "nxt < sz"
  obtains p where "slots nxt = Some p" "heap p = Some zero" "p \<notin> used"
    "pool_ok sz (Suc nxt) slots heap zero (insert p used)"
proof -
  obtain p where p: "slots nxt = Some p" using assms by (auto simp: pool_ok_def)
  have av: "avail sz nxt slots = insert p (avail sz (Suc nxt) slots)"
    using p assms(2) by (rule avail_step)
  have "pool_ok sz (Suc nxt) slots heap zero (insert p used)"
    using ok assms(2) pool_ok_distinct [OF ok assms(2) p] by (auto simp: pool_ok_def av)
  moreover have "heap p = Some zero" "p \<notin> used" using ok by (auto simp: pool_ok_def av)
  ultimately show thesis using p that by blast
qed

lemma pool_ok_return:
  assumes ok: "pool_ok sz nxt slots heap zero used" and "p \<in> used" and "nxt \<noteq> 0"
  shows "pool_ok sz (nxt - 1) (slots(nxt - 1 \<mapsto> p)) (heap(p \<mapsto> zero)) zero (used - {p})"
proof -
  let ?slots = "slots(nxt - 1 \<mapsto> p)"
  have le: "nxt \<le> sz" using ok by (simp add: pool_ok_def)
  have "avail sz nxt ?slots = avail sz nxt slots"
    using assms(3) by (intro avail_cong) auto
  then have av: "avail sz (nxt - 1) ?slots = insert p (avail sz nxt slots)"
    using avail_step [of ?slots "nxt - 1" p sz] le assms(3) by simp
  have free: "p \<notin> avail sz nxt slots" using ok assms(2) by (auto simp: pool_ok_def)
  have "?slots k \<noteq> ?slots k'" if "nxt - 1 \<le> k" "k < k'" "k' < sz" for k k'
  proof (cases "k = nxt - 1")
    case True
    then have "slots k' \<noteq> Some p" using free that by (auto intro: availI)
    then show ?thesis using True that by auto
  next
    case False
    then show ?thesis using ok that unfolding pool_ok_def by auto
  qed
  then show ?thesis using ok assms(2) free unfolding pool_ok_def av by auto
qed

lemma pool_ok_free:
  assumes "pool_ok sz nxt slots heap zero used" and "p \<in> used"
  shows "pool_ok sz nxt slots (heap(p := None)) zero (used - {p})"
  using assms by (auto simp: pool_ok_def)

lemma pool_ok_write_used:
  assumes "pool_ok sz nxt slots heap zero used" and "p \<in> used"
  shows "pool_ok sz nxt slots (heap(p \<mapsto> v)) zero used"
  using assms by (auto simp: pool_ok_def)

lemma pool_ok_usedD: "pool_ok sz nxt slots heap zero used \<Longrightarrow> p \<in> used \<Longrightarrow> \<exists>b. heap p = Some b"
  by (auto simp: pool_ok_def dom_def)

text \<open>Filling \<open>n\<close> consecutive slots, as functions.\<close>

definition fresh_nodes :: "nat \<Rightarrow> nat \<Rightarrow> 'n \<Rightarrow> (nat \<Rightarrow> 'n option) \<Rightarrow> nat \<Rightarrow> 'n option" where
  "fresh_nodes h n zero heap = (\<lambda>p. if h \<le> p \<and> p < h + n then Some zero else heap p)"

definition fresh_slots :: "nat \<Rightarrow> nat \<Rightarrow> (nat \<Rightarrow> nat option) \<Rightarrow> nat \<Rightarrow> nat option" where
  "fresh_slots h n slots = (\<lambda>k. if k < n then Some (h + k) else slots k)"

lemma fresh_nodes_0 [simp]: "fresh_nodes h 0 zero heap = heap"
  by (rule ext) (auto simp: fresh_nodes_def)

lemma fresh_nodes_Suc: "fresh_nodes h (Suc n) zero heap = (fresh_nodes h n zero heap)(h + n \<mapsto> zero)"
  by (auto simp: fresh_nodes_def fun_eq_iff)

lemma fresh_slots_0 [simp]: "fresh_slots h 0 slots = slots"
  by (auto simp: fresh_slots_def)

lemma fresh_slots_Suc: "fresh_slots h (Suc n) slots = (fresh_slots h n slots)(n \<mapsto> h + n)"
  by (auto simp: fresh_slots_def fun_eq_iff)

lemma pool_ok_refill:
  assumes ok: "pool_ok sz nxt slots heap zero used" and "sz \<le> nxt" and fresh: "\<forall>p \<ge> h. heap p = None"
  shows "pool_ok sz 0 (fresh_slots h sz slots) (fresh_nodes h sz zero heap) zero used"
proof -
  have "avail sz nxt slots = {}" using assms(2) by (auto simp: avail_def)
  then have used: "dom heap = used" using ok by (simp add: pool_ok_def)
  have av: "avail sz 0 (fresh_slots h sz slots) = {h..<h + sz}" (is "?A = ?B")
  proof (intro set_eqI iffI)
    fix p assume "p \<in> ?A"
    then show "p \<in> ?B" by (rule availE) (auto simp: fresh_slots_def)
  next
    fix p assume "p \<in> ?B"
    then have "fresh_slots h sz slots (p - h) = Some p" "p - h < sz" by (auto simp: fresh_slots_def)
    then show "p \<in> ?A" by (blast intro: availI)
  qed
  have "used \<inter> {h..<h + sz} = {}" using used fresh by (auto simp: dom_def)
  moreover have "dom (fresh_nodes h sz zero heap) = dom heap \<union> {h..<h + sz}"
    by (auto simp: dom_def fresh_nodes_def split: if_splits)
  moreover have "fresh_slots h sz slots k \<noteq> fresh_slots h sz slots k'" if "k < k'" "k' < sz" for k k'
    using that by (simp add: fresh_slots_def)
  moreover have "fresh_nodes h sz zero heap p = Some zero" if "p \<in> {h..<h + sz}" for p
    using that by (simp add: fresh_nodes_def)
  moreover have "fresh_slots h sz slots k \<noteq> None" if "k < sz" for k
    using that by (simp add: fresh_slots_def)
  ultimately show ?thesis using used unfolding pool_ok_def av by blast
qed

lemma fold_fill_leaf:
  "fold fill_leaf_slot [0..<n] st =
     st\<lparr>leaf_heap := fresh_nodes (heap_next st) n (\<lambda>_. 0) (leaf_heap st),
        heap_next := heap_next st + n,
        leaf_pool := fresh_slots (heap_next st) n (leaf_pool st)\<rparr>"
proof (induction n)
  case 0
  then show ?case by simp
next
  case (Suc n)
  show ?case
    by (simp only: upt_Suc_append [OF le0] fold_append fold.simps id_o comp_apply id_apply Suc.IH)
      (simp add: fill_leaf_slot_def g_malloc0_leaf_def, simp only: fresh_nodes_Suc fresh_slots_Suc)
qed

lemma fold_fill_middle:
  "fold fill_middle_slot [0..<n] st =
     st\<lparr>middle_heap := fresh_nodes (heap_next st) n (\<lambda>_. None) (middle_heap st),
        heap_next := heap_next st + n,
        middle_pool := fresh_slots (heap_next st) n (middle_pool st)\<rparr>"
proof (induction n)
  case 0
  then show ?case by simp
next
  case (Suc n)
  show ?case
    by (simp only: upt_Suc_append [OF le0] fold_append fold.simps id_o comp_apply id_apply Suc.IH)
      (simp add: fill_middle_slot_def g_malloc0_middle_def, simp only: fresh_nodes_Suc fresh_slots_Suc)
qed

text \<open>Fetching a node: it is zeroed, not in use, and joins the nodes in use.\<close>

lemma fetch_leaf_node_from_pool_ok:
  assumes ok: "pool_ok BITPAGE_LEAF_POOL_SIZE (leaf_next_available_node st) (leaf_pool st)
                 (leaf_heap st) (\<lambda>_. 0) used"
    and fresh: "\<forall>p \<ge> heap_next st. leaf_heap st p = None"
  obtains p lh hn ln lp where
    "fetch_leaf_node_from_pool st =
       Some (p, st\<lparr>leaf_heap := lh, heap_next := hn, leaf_next_available_node := ln, leaf_pool := lp,
                   leaf_nodes_in_use := leaf_nodes_in_use st + 1\<rparr>)"
    "pool_ok BITPAGE_LEAF_POOL_SIZE ln lp lh (\<lambda>_. 0) (insert p used)"
    "p \<notin> used" "lh p = Some (\<lambda>_. 0)" "\<forall>q \<in> used. lh q = leaf_heap st q"
    "heap_next st \<le> hn" "\<forall>q \<ge> hn. lh q = None"
proof (cases "BITPAGE_LEAF_POOL_SIZE \<le> leaf_next_available_node st")
  case True
  let ?h = "heap_next st" and ?n = BITPAGE_LEAF_POOL_SIZE
  let ?lh = "fresh_nodes ?h ?n (\<lambda>_. 0) (leaf_heap st)"
  let ?lp = "fresh_slots ?h ?n (leaf_pool st)"
  have n0: "0 < ?n" by (simp add: BITPAGE_LEAF_POOL_SIZE_def)
  have "pool_ok ?n 0 ?lp ?lh (\<lambda>_. 0) used" using ok True fresh by (rule pool_ok_refill)
  from pool_ok_fetch [OF this n0] obtain p where p: "?lp 0 = Some p" "?lh p = Some (\<lambda>_. 0)" "p \<notin> used"
    "pool_ok ?n (Suc 0) ?lp ?lh (\<lambda>_. 0) (insert p used)" .
  have "q < ?h" if "q \<in> used" for q
    using pool_ok_usedD [OF ok that] fresh by (metis not_less option.distinct(1))
  then have "\<forall>q \<in> used. ?lh q = leaf_heap st q" by (fastforce simp: fresh_nodes_def)
  moreover have "fetch_leaf_node_from_pool st =
      Some (p, st\<lparr>leaf_heap := ?lh, heap_next := ?h + ?n, leaf_next_available_node := Suc 0,
                  leaf_pool := ?lp, leaf_nodes_in_use := leaf_nodes_in_use st + 1\<rparr>)"
    using True p(1) n0 by (simp add: fetch_leaf_node_from_pool_def allocate_leaf_pool_def fold_fill_leaf Let_def)
  moreover have "\<forall>q \<ge> ?h + ?n. ?lh q = None" using fresh by (auto simp: fresh_nodes_def)
  ultimately show thesis using p by (intro that [where p = p and lh = ?lh and hn = "?h + ?n" and ln = "Suc 0" and lp = ?lp]) simp_all
next
  case False
  then obtain p where p: "leaf_pool st (leaf_next_available_node st) = Some p"
    "leaf_heap st p = Some (\<lambda>_. 0)" "p \<notin> used"
    "pool_ok BITPAGE_LEAF_POOL_SIZE (Suc (leaf_next_available_node st)) (leaf_pool st) (leaf_heap st) (\<lambda>_. 0) (insert p used)"
    using pool_ok_fetch [OF ok] by (metis not_le)
  moreover have "fetch_leaf_node_from_pool st =
      Some (p, st\<lparr>leaf_heap := leaf_heap st, heap_next := heap_next st,
                  leaf_next_available_node := Suc (leaf_next_available_node st),
                  leaf_pool := leaf_pool st, leaf_nodes_in_use := leaf_nodes_in_use st + 1\<rparr>)"
    using False p(1) by (simp add: fetch_leaf_node_from_pool_def Let_def)
  ultimately show thesis using fresh by (intro that) simp_all
qed

lemma fetch_middle_node_from_pool_ok:
  assumes ok: "pool_ok BITPAGE_MIDDLE_POOL_SIZE (middle_next_available_node st) (middle_pool st)
                 (middle_heap st) (\<lambda>_. None) used"
    and fresh: "\<forall>p \<ge> heap_next st. middle_heap st p = None"
  obtains p mh hn mn mp where
    "fetch_middle_node_from_pool st =
       Some (p, st\<lparr>middle_heap := mh, heap_next := hn, middle_next_available_node := mn, middle_pool := mp,
                   middle_nodes_in_use := middle_nodes_in_use st + 1\<rparr>)"
    "pool_ok BITPAGE_MIDDLE_POOL_SIZE mn mp mh (\<lambda>_. None) (insert p used)"
    "p \<notin> used" "mh p = Some (\<lambda>_. None)" "\<forall>q \<in> used. mh q = middle_heap st q"
    "heap_next st \<le> hn" "\<forall>q \<ge> hn. mh q = None"
proof (cases "BITPAGE_MIDDLE_POOL_SIZE \<le> middle_next_available_node st")
  case True
  let ?h = "heap_next st" and ?n = BITPAGE_MIDDLE_POOL_SIZE
  let ?mh = "fresh_nodes ?h ?n (\<lambda>_. None) (middle_heap st)"
  let ?mp = "fresh_slots ?h ?n (middle_pool st)"
  have n0: "0 < ?n" by (simp add: BITPAGE_MIDDLE_POOL_SIZE_def)
  have "pool_ok ?n 0 ?mp ?mh (\<lambda>_. None) used" using ok True fresh by (rule pool_ok_refill)
  from pool_ok_fetch [OF this n0] obtain p where p: "?mp 0 = Some p" "?mh p = Some (\<lambda>_. None)" "p \<notin> used"
    "pool_ok ?n (Suc 0) ?mp ?mh (\<lambda>_. None) (insert p used)" .
  have "q < ?h" if "q \<in> used" for q
    using pool_ok_usedD [OF ok that] fresh by (metis not_less option.distinct(1))
  then have "\<forall>q \<in> used. ?mh q = middle_heap st q" by (fastforce simp: fresh_nodes_def)
  moreover have "fetch_middle_node_from_pool st =
      Some (p, st\<lparr>middle_heap := ?mh, heap_next := ?h + ?n, middle_next_available_node := Suc 0,
                  middle_pool := ?mp, middle_nodes_in_use := middle_nodes_in_use st + 1\<rparr>)"
    using True p(1) n0 by (simp add: fetch_middle_node_from_pool_def allocate_middle_pool_def fold_fill_middle Let_def)
  moreover have "\<forall>q \<ge> ?h + ?n. ?mh q = None" using fresh by (auto simp: fresh_nodes_def)
  ultimately show thesis using p by (intro that [where p = p and mh = ?mh and hn = "?h + ?n" and mn = "Suc 0" and mp = ?mp]) simp_all
next
  case False
  then obtain p where p: "middle_pool st (middle_next_available_node st) = Some p"
    "middle_heap st p = Some (\<lambda>_. None)" "p \<notin> used"
    "pool_ok BITPAGE_MIDDLE_POOL_SIZE (Suc (middle_next_available_node st)) (middle_pool st) (middle_heap st) (\<lambda>_. None) (insert p used)"
    using pool_ok_fetch [OF ok] by (metis not_le)
  moreover have "fetch_middle_node_from_pool st =
      Some (p, st\<lparr>middle_heap := middle_heap st, heap_next := heap_next st,
                  middle_next_available_node := Suc (middle_next_available_node st),
                  middle_pool := middle_pool st, middle_nodes_in_use := middle_nodes_in_use st + 1\<rparr>)"
    using False p(1) by (simp add: fetch_middle_node_from_pool_def Let_def)
  ultimately show thesis using fresh by (intro that) simp_all
qed

subsection \<open>Slots\<close>

lemma middle_slot_cong:
  "taint_memory_page_table st' = taint_memory_page_table st \<Longrightarrow> middle_slot st' = middle_slot st"
  by (simp add: middle_slot_def fun_eq_iff)

lemma leaf_slot_cong:
  assumes "middle_slot st' = middle_slot st"
    and "\<And>m. m \<in> ran (middle_slot st) \<Longrightarrow> middle_heap st' m = middle_heap st m"
  shows "leaf_slot st' = leaf_slot st"
  using assms by (auto simp: leaf_slot_def fun_eq_iff ranI split: option.split)

lemma taint_at_cong:
  assumes "leaf_slot st' = leaf_slot st"
    and "\<And>p. p \<in> ran (leaf_slot st) \<Longrightarrow> leaf_heap st' p = leaf_heap st p"
  shows "taint_at st' = taint_at st"
proof
  fix a
  show "taint_at st' a = taint_at st a"
    using assms(2) by (auto simp: taint_at_def assms(1) ranI split: option.split)
qed

lemma finite_dom_middle_slot [simp]: "finite (dom (middle_slot st))"
proof -
  have "dom (middle_slot st) \<subseteq> {i. i < length (the (taint_memory_page_table st))}"
    by (auto simp: middle_slot_def split: option.splits if_splits)
  then show ?thesis by (rule finite_subset) simp
qed

lemma dom_leaf_slot: "dom (leaf_slot st) \<subseteq> dom (middle_slot st) \<times> {j. j < 2 ^ BITPAGE_MIDDLE_BITS}"
  by (auto simp: leaf_slot_def split: option.splits if_splits)

lemma finite_dom_leaf_slot [simp]: "finite (dom (leaf_slot st))"
  by (rule finite_subset [OF dom_leaf_slot]) simp

lemma leaf_slot_write_middle:
  assumes "inj_map (middle_slot st)" "middle_slot st i = Some m" "middle_heap st m = Some node"
    and "j < 2 ^ BITPAGE_MIDDLE_BITS"
  shows "leaf_slot (st\<lparr>middle_heap := (middle_heap st)(m \<mapsto> node(j := v))\<rparr>) = (leaf_slot st)((i, j) := v)"
proof -
  have "middle_slot (st\<lparr>middle_heap := (middle_heap st)(m \<mapsto> node(j := v))\<rparr>) = middle_slot st"
    by (rule middle_slot_cong) simp
  then show ?thesis using assms
    by (auto simp: leaf_slot_def fun_eq_iff dest: inj_mapD split: option.split)
qed

lemma read_root_eq:
  "taint_memory_page_table st = Some root \<Longrightarrow> i < length root \<Longrightarrow> read_root st i = Some (middle_slot st i)"
  by (simp add: read_root_def middle_slot_def)

lemma read_middle_eq:
  "middle_slot st i = Some m \<Longrightarrow> middle_heap st m \<noteq> None \<Longrightarrow> j < 2 ^ BITPAGE_MIDDLE_BITS \<Longrightarrow>
     read_middle st m j = Some (leaf_slot st (i, j))"
  by (auto simp: read_middle_def leaf_slot_def)

subsection \<open>The invariant, by parts\<close>

lemma smem_invD:
  assumes "smem_inv st" "taint_memory_page_table st = Some root"
  shows "length root = taint_memory_page_table_root_size st"
    and "inj_map (middle_slot st)" and "inj_map (leaf_slot st)"
    and "pool_ok BITPAGE_LEAF_POOL_SIZE (leaf_next_available_node st) (leaf_pool st)
            (leaf_heap st) (\<lambda>_. 0) (ran (leaf_slot st))"
    and "pool_ok BITPAGE_MIDDLE_POOL_SIZE (middle_next_available_node st) (middle_pool st)
            (middle_heap st) (\<lambda>_. None) (ran (middle_slot st))"
    and "leaf_nodes_in_use st = of_nat (card (dom (leaf_slot st)))"
    and "middle_nodes_in_use st = of_nat (card (dom (middle_slot st)))"
    and "\<forall>p \<ge> heap_next st. leaf_heap st p = None" and "\<forall>p \<ge> heap_next st. middle_heap st p = None"
  using assms by (auto simp: smem_inv_def)

lemma smem_invI:
  assumes "middle_slot st = M" and "leaf_slot st = L"
    and "taint_memory_page_table st = Some root"
    and "length root = taint_memory_page_table_root_size st"
    and "inj_map M" and "inj_map L"
    and "pool_ok BITPAGE_LEAF_POOL_SIZE (leaf_next_available_node st) (leaf_pool st)
            (leaf_heap st) (\<lambda>_. 0) (ran L)"
    and "pool_ok BITPAGE_MIDDLE_POOL_SIZE (middle_next_available_node st) (middle_pool st)
            (middle_heap st) (\<lambda>_. None) (ran M)"
    and "leaf_nodes_in_use st = of_nat (card (dom L))"
    and "middle_nodes_in_use st = of_nat (card (dom M))"
    and "\<forall>p \<ge> heap_next st. leaf_heap st p = None" and "\<forall>p \<ge> heap_next st. middle_heap st p = None"
  shows "smem_inv st"
  using assms by (simp add: smem_inv_def)

lemma smem_inv_middle_allocated:
  assumes "smem_inv st" "middle_slot st i = Some m"
  obtains node where "middle_heap st m = Some node"
proof -
  obtain root where "taint_memory_page_table st = Some root"
    using assms(2) by (auto simp: middle_slot_def split: option.splits)
  from pool_ok_usedD [OF smem_invD(5) [OF assms(1) this]] assms(2) show thesis
    using that by (auto intro: ranI)
qed

lemma smem_inv_leaf_allocated:
  assumes "smem_inv st" "leaf_slot st s = Some p"
  obtains b where "leaf_heap st p = Some b"
proof -
  obtain root where "taint_memory_page_table st = Some root"
    using assms(2) by (auto simp: leaf_slot_def middle_slot_def split: prod.splits option.splits)
  from pool_ok_usedD [OF smem_invD(4) [OF assms(1) this]] assms(2) show thesis
    using that by (auto intro: ranI)
qed

text \<open>Fields that no table operation writes.\<close>

definition ctl_frame :: "tstate \<Rightarrow> tstate \<Rightarrow> bool" where
  "ctl_frame st st' \<longleftrightarrow>
     taint_memory_page_table_root_size st' = taint_memory_page_table_root_size st \<and>
     (taint_memory_page_table st' = None \<longleftrightarrow> taint_memory_page_table st = None) \<and>
     ram_size st' = ram_size st \<and> tempidx st' = tempidx st \<and> tempidx2 st' = tempidx2 st \<and>
     taint_tracking_enabled st' = taint_tracking_enabled st \<and>
     taint_nic_enabled st' = taint_nic_enabled st \<and>
     taint_load_pointers_enabled st' = taint_load_pointers_enabled st \<and>
     taint_store_pointers_enabled st' = taint_store_pointers_enabled st \<and>
     read_taintmem_cb_needed st' = read_taintmem_cb_needed st \<and>
     write_taintmem_cb_needed st' = write_taintmem_cb_needed st"

lemma ctl_frame_refl [simp]: "ctl_frame st st"
  by (simp add: ctl_frame_def)

lemma ctl_frame_trans: "ctl_frame st st' \<Longrightarrow> ctl_frame st' st'' \<Longrightarrow> ctl_frame st st''"
  by (simp add: ctl_frame_def)

text \<open>States with the same shadow memory have the same view and the same invariant.\<close>

definition same_smem :: "tstate \<Rightarrow> tstate \<Rightarrow> bool" where
  "same_smem st st' \<longleftrightarrow>
     taint_memory_page_table st' = taint_memory_page_table st \<and>
     taint_memory_page_table_root_size st' = taint_memory_page_table_root_size st \<and>
     leaf_heap st' = leaf_heap st \<and> middle_heap st' = middle_heap st \<and> heap_next st' = heap_next st \<and>
     leaf_next_available_node st' = leaf_next_available_node st \<and> leaf_pool st' = leaf_pool st \<and>
     middle_next_available_node st' = middle_next_available_node st \<and> middle_pool st' = middle_pool st \<and>
     middle_nodes_in_use st' = middle_nodes_in_use st \<and> leaf_nodes_in_use st' = leaf_nodes_in_use st"

lemma same_smem_view:
  assumes "same_smem st st'"
  shows "middle_slot st' = middle_slot st" and "leaf_slot st' = leaf_slot st"
    and "taint_at st' = taint_at st" and "smem_inv st' = smem_inv st"
proof -
  show m: "middle_slot st' = middle_slot st"
    by (rule middle_slot_cong) (use assms in \<open>simp add: same_smem_def\<close>)
  then show l: "leaf_slot st' = leaf_slot st"
    by (rule leaf_slot_cong) (use assms in \<open>simp add: same_smem_def\<close>)
  then show "taint_at st' = taint_at st"
    by (rule taint_at_cong) (use assms in \<open>simp add: same_smem_def\<close>)
  show "smem_inv st' = smem_inv st"
    using assms unfolding smem_inv_def same_smem_def m l by (simp cong: option.case_cong)
qed

lemma same_smem_emit_event: "same_smem st (emit_event e st)"
  by (simp add: same_smem_def emit_event_def)

lemma emit_event_fields [simp]:
  "taint_memory_page_table (emit_event e st) = taint_memory_page_table st"
  "taint_memory_page_table_root_size (emit_event e st) = taint_memory_page_table_root_size st"
  "leaf_heap (emit_event e st) = leaf_heap st" "middle_heap (emit_event e st) = middle_heap st"
  "ram_size (emit_event e st) = ram_size st" "tempidx (emit_event e st) = tempidx st"
  "tempidx2 (emit_event e st) = tempidx2 st" "events (emit_event e st) = events st @ [e]"
  "taint_tracking_enabled (emit_event e st) = taint_tracking_enabled st"
  "taint_nic_enabled (emit_event e st) = taint_nic_enabled st"
  "taint_load_pointers_enabled (emit_event e st) = taint_load_pointers_enabled st"
  "taint_store_pointers_enabled (emit_event e st) = taint_store_pointers_enabled st"
  "leaf_nodes_in_use (emit_event e st) = leaf_nodes_in_use st"
  "middle_nodes_in_use (emit_event e st) = middle_nodes_in_use st"
  by (simp_all add: emit_event_def)

lemmas emit_event_view [simp] = same_smem_view [OF same_smem_emit_event]

lemma ctl_frame_emit_event [simp]: "ctl_frame st (emit_event e st') = ctl_frame st st'"
  by (simp add: ctl_frame_def emit_event_def)

section \<open>Storing through the table\<close>

lemma taint_at_new_leaf:
  assumes "leaf_slot st' = (leaf_slot st)(k \<mapsto> p)" "leaf_slot st k = None" "leaf_heap st' p = Some (\<lambda>_. 0)"
    and "\<forall>q \<in> ran (leaf_slot st). leaf_heap st' q = leaf_heap st q"
  shows "taint_at st' = taint_at st"
proof
  fix a
  show "taint_at st' a = taint_at st a"
    using assms(2-4) by (auto simp: taint_at_def assms(1) ranI split: option.split)
qed

lemma new_leaf_ok:
  assumes inv: "smem_inv st" and m: "middle_slot st i = Some m" and j: "j < 2 ^ BITPAGE_MIDDLE_BITS"
    and none: "leaf_slot st (i, j) = None"
  obtains p st1 st2 where "fetch_leaf_node_from_pool st = Some (p, st1)"
    "write_middle m j (Some p) st1 = Some st2" "smem_inv st2" "ctl_frame st st2"
    "leaf_slot st2 (i, j) = Some p" "taint_at st2 = taint_at st"
proof -
  obtain root where root: "taint_memory_page_table st = Some root"
    using m by (auto simp: middle_slot_def split: option.splits)
  note D = smem_invD [OF inv root]
  obtain node where node: "middle_heap st m = Some node" using inv m by (rule smem_inv_middle_allocated)
  obtain p lh hn ln lp where
    f: "fetch_leaf_node_from_pool st =
         Some (p, st\<lparr>leaf_heap := lh, heap_next := hn, leaf_next_available_node := ln, leaf_pool := lp,
                     leaf_nodes_in_use := leaf_nodes_in_use st + 1\<rparr>)" (is "_ = Some (p, ?st1)")
    and pool: "pool_ok BITPAGE_LEAF_POOL_SIZE ln lp lh (\<lambda>_. 0) (insert p (ran (leaf_slot st)))"
    and p: "p \<notin> ran (leaf_slot st)" "lh p = Some (\<lambda>_. 0)"
    and old: "\<forall>q \<in> ran (leaf_slot st). lh q = leaf_heap st q"
    and hn: "heap_next st \<le> hn" "\<forall>q \<ge> hn. lh q = None"
    by (rule fetch_leaf_node_from_pool_ok [OF D(4,8)])
  let ?st2 = "?st1\<lparr>middle_heap := (middle_heap ?st1)(m \<mapsto> node(j := Some p))\<rparr>"
  have ms1: "middle_slot ?st1 = middle_slot st" by (rule middle_slot_cong) simp
  then have ls1: "leaf_slot ?st1 = leaf_slot st" by (rule leaf_slot_cong) simp
  have ms2: "middle_slot ?st2 = middle_slot st" by (subst ms1 [symmetric], rule middle_slot_cong) simp
  have ls2: "leaf_slot ?st2 = (leaf_slot st)((i, j) \<mapsto> p)"
    using leaf_slot_write_middle [of ?st1 i m node j "Some p"] D(2) m node j by (simp only: ms1 ls1) simp
  have w: "write_middle m j (Some p) ?st1 = Some ?st2" using node j by (simp add: write_middle_def)
  have ran2: "ran ((leaf_slot st)((i, j) \<mapsto> p)) = insert p (ran (leaf_slot st))"
    using none by (rule ran_map_upd)
  have "smem_inv ?st2"
  proof (rule smem_invI [OF ms2 ls2])
    show "inj_map ((leaf_slot st)((i, j) \<mapsto> p))" by (rule inj_map_upd [OF D(3) p(1)])
    show "leaf_nodes_in_use ?st2 = of_nat (card (dom ((leaf_slot st)((i, j) \<mapsto> p))))"
      by (subst card_dom_upd) (use none D(6) in simp_all)
    show "pool_ok BITPAGE_MIDDLE_POOL_SIZE (middle_next_available_node ?st2) (middle_pool ?st2)
            (middle_heap ?st2) (\<lambda>_. None) (ran (middle_slot st))"
      using pool_ok_write_used [OF D(5) ranI [of "middle_slot st", OF m]] by simp
    show "\<forall>q \<ge> heap_next ?st2. middle_heap ?st2 q = None"
      using D(9) hn(1) node by (auto dest: spec [of _ m])
  qed (use root D pool hn in \<open>simp_all add: ran2\<close>)
  moreover have "ctl_frame st ?st2" by (simp add: ctl_frame_def)
  moreover have "leaf_slot ?st2 (i, j) = Some p" by (subst ls2) simp
  moreover have "taint_at ?st2 = taint_at st"
    by (rule taint_at_new_leaf [OF ls2 none]) (use p old in simp_all)
  ultimately show thesis using f w that by blast
qed

lemma middle_slot_write_root:
  assumes "taint_memory_page_table st = Some root" "i < length root"
  shows "middle_slot (st\<lparr>taint_memory_page_table := Some (root[i := v])\<rparr>) = (middle_slot st)(i := v)"
  using assms by (auto simp: middle_slot_def fun_eq_iff nth_list_update)

lemma new_middle_ok:
  assumes inv: "smem_inv st" and root: "taint_memory_page_table st = Some root" and i: "i < length root"
    and j: "j < 2 ^ BITPAGE_MIDDLE_BITS" and none: "middle_slot st i = None"
  obtains p st1 m st2 st3 st4 where "fetch_leaf_node_from_pool st = Some (p, st1)"
    "fetch_middle_node_from_pool st1 = Some (m, st2)" "write_root i (Some m) st2 = Some st3"
    "write_middle m j (Some p) st3 = Some st4" "smem_inv st4" "ctl_frame st st4"
    "leaf_slot st4 (i, j) = Some p" "taint_at st4 = taint_at st"
proof -
  note D = smem_invD [OF inv root]
  have none2: "leaf_slot st (i, j) = None" using none by (simp add: leaf_slot_def)
  obtain p lh hn ln lp where
    f: "fetch_leaf_node_from_pool st =
         Some (p, st\<lparr>leaf_heap := lh, heap_next := hn, leaf_next_available_node := ln, leaf_pool := lp,
                     leaf_nodes_in_use := leaf_nodes_in_use st + 1\<rparr>)" (is "_ = Some (p, ?st1)")
    and pool: "pool_ok BITPAGE_LEAF_POOL_SIZE ln lp lh (\<lambda>_. 0) (insert p (ran (leaf_slot st)))"
    and p: "p \<notin> ran (leaf_slot st)" "lh p = Some (\<lambda>_. 0)"
    and old: "\<forall>q \<in> ran (leaf_slot st). lh q = leaf_heap st q"
    and hn: "heap_next st \<le> hn" "\<forall>q \<ge> hn. lh q = None"
    by (rule fetch_leaf_node_from_pool_ok [OF D(4,8)])
  have "pool_ok BITPAGE_MIDDLE_POOL_SIZE (middle_next_available_node ?st1) (middle_pool ?st1)
          (middle_heap ?st1) (\<lambda>_. None) (ran (middle_slot st))" using D(5) by simp
  moreover have "\<forall>q \<ge> heap_next ?st1. middle_heap ?st1 q = None" using D(9) hn(1) by simp
  ultimately obtain m mh hn2 mn mp where
    g: "fetch_middle_node_from_pool ?st1 =
         Some (m, ?st1\<lparr>middle_heap := mh, heap_next := hn2, middle_next_available_node := mn, middle_pool := mp,
                       middle_nodes_in_use := middle_nodes_in_use ?st1 + 1\<rparr>)" (is "_ = Some (m, ?st2)")
    and mpool: "pool_ok BITPAGE_MIDDLE_POOL_SIZE mn mp mh (\<lambda>_. None) (insert m (ran (middle_slot st)))"
    and m: "m \<notin> ran (middle_slot st)" "mh m = Some (\<lambda>_. None)"
    and mold: "\<forall>q \<in> ran (middle_slot st). mh q = middle_heap ?st1 q"
    and hn2: "heap_next ?st1 \<le> hn2" "\<forall>q \<ge> hn2. mh q = None"
    by (rule fetch_middle_node_from_pool_ok)
  let ?st3 = "?st2\<lparr>taint_memory_page_table := Some (root[i := Some m])\<rparr>"
  let ?M = "(middle_slot st)(i \<mapsto> m)" and ?L = "(leaf_slot st)((i, j) \<mapsto> p)"
  let ?st4 = "?st3\<lparr>middle_heap := (middle_heap ?st3)(m \<mapsto> (\<lambda>_. None)(j := Some p))\<rparr>"
  have w: "write_root i (Some m) ?st2 = Some ?st3" using root i by (simp add: write_root_def)
  have w2: "write_middle m j (Some p) ?st3 = Some ?st4" using m j by (simp add: write_middle_def)
  have ms2: "middle_slot ?st2 = middle_slot st" by (rule middle_slot_cong) simp
  have ms3: "middle_slot ?st3 = ?M"
    using middle_slot_write_root [of ?st2 root i "Some m"] root i by (simp only: ms2) simp
  have ms4: "middle_slot ?st4 = ?M" by (subst ms3 [symmetric], rule middle_slot_cong) simp
  have inj: "inj_map ?M" by (rule inj_map_upd [OF D(2) m(1)])
  have ls3: "leaf_slot ?st3 = leaf_slot st"
  proof
    fix x
    show "leaf_slot ?st3 x = leaf_slot st x"
      using m mold none unfolding leaf_slot_def ms3
      by (auto simp: ranI split: prod.split option.split)
  qed
  have ls4: "leaf_slot ?st4 = ?L"
    using leaf_slot_write_middle [of ?st3 i m "\<lambda>_. None" j "Some p"] inj m j by (simp only: ms3 ls3) simp
  have ran: "ran ?L = insert p (ran (leaf_slot st))" "ran ?M = insert m (ran (middle_slot st))"
    using none2 none by (simp_all add: ran_map_upd)
  have "smem_inv ?st4"
  proof (rule smem_invI [OF ms4 ls4 _ _ inj])
    show "taint_memory_page_table ?st4 = Some (root[i := Some m])" by simp
    show "inj_map ?L" by (rule inj_map_upd [OF D(3) p(1)])
    show "leaf_nodes_in_use ?st4 = of_nat (card (dom ?L))"
      by (subst card_dom_upd) (use none2 D(6) in simp_all)
    show "middle_nodes_in_use ?st4 = of_nat (card (dom ?M))"
      by (subst card_dom_upd) (use none D(7) in simp_all)
    show "pool_ok BITPAGE_MIDDLE_POOL_SIZE (middle_next_available_node ?st4) (middle_pool ?st4)
            (middle_heap ?st4) (\<lambda>_. None) (ran ?M)"
      using pool_ok_write_used [OF mpool, of m] by (simp add: ran)
    show "\<forall>q \<ge> heap_next ?st4. middle_heap ?st4 q = None"
      using hn2 m by (auto dest: spec [of _ m])
  qed (use root D pool hn hn2 in \<open>simp_all add: ran\<close>)
  moreover have "ctl_frame st ?st4" using root by (simp add: ctl_frame_def)
  moreover have "leaf_slot ?st4 (i, j) = Some p" by (subst ls4) simp
  moreover have "taint_at ?st4 = taint_at st"
    by (rule taint_at_new_leaf [OF ls4 none2]) (use p old in simp_all)
  ultimately show thesis using f g w w2 that by blast
qed

subsection \<open>Addresses\<close>

lemma address_masks_eq: "LEAF_ADDRESS_MASK = mask 12" "MIDDLE_ADDRESS_MASK = mask 10"
  by (simp_all add: LEAF_ADDRESS_MASK_def MIDDLE_ADDRESS_MASK_def BITPAGE_LEAF_BITS_def
      BITPAGE_MIDDLE_BITS_def mask_eq_exp_minus_1)

lemma bit_address_masks:
  "bit LEAF_ADDRESS_MASK n \<longleftrightarrow> n < 12" "bit MIDDLE_ADDRESS_MASK n \<longleftrightarrow> n < 10"
  unfolding address_masks_eq bit_mask_iff by auto

lemma leaf_offset_eq: "leaf_offset a = unat a mod 2 ^ 12"
proof -
  have "a AND ucast LEAF_ADDRESS_MASK = take_bit 12 a"
    by (rule bit_word_eqI) (auto simp: bit_and_iff bit_ucast_iff bit_address_masks bit_take_bit_iff)
  then have "leaf_offset a = take_bit 12 (unat a)"
    by (simp only: leaf_offset_def unsigned_take_bit_eq)
  then show ?thesis by (simp only: take_bit_eq_mod)
qed

lemma leaf_node_index_eq: "leaf_node_index a = unat a div 2 ^ 12 mod 2 ^ 10"
proof -
  have "drop_bit 12 a AND ucast MIDDLE_ADDRESS_MASK = take_bit 10 (drop_bit 12 a)"
    by (rule bit_word_eqI) (auto simp: bit_and_iff bit_ucast_iff bit_address_masks bit_take_bit_iff bit_drop_bit_eq)
  then have "leaf_node_index a = take_bit 10 (drop_bit 12 (unat a)) mod 2 ^ 32"
    by (simp only: leaf_node_index_def BITPAGE_LEAF_BITS_def unsigned_take_bit_eq unat_drop_bit_eq)
  then show ?thesis by (simp add: take_bit_eq_mod drop_bit_eq_div)
qed

lemma middle_node_index_eq:
  assumes "unat a < 2 ^ 54"
  shows "middle_node_index a = unat a div 2 ^ 22"
proof -
  have "unat a div 2 ^ 22 < 2 ^ 32" using assms by (simp add: less_mult_imp_div_less)
  moreover have "middle_node_index a = drop_bit 22 (unat a) mod 2 ^ 32"
    by (simp only: middle_node_index_def BITPAGE_LEAF_BITS_def BITPAGE_MIDDLE_BITS_def
        unat_drop_bit_eq) simp
  ultimately show ?thesis by (simp add: drop_bit_eq_div)
qed

lemma leaf_node_index_less: "leaf_node_index a < 2 ^ BITPAGE_MIDDLE_BITS"
  by (simp add: leaf_node_index_eq BITPAGE_MIDDLE_BITS_def)

lemma slot_of_address:
  "unat a < 2 ^ 54 \<Longrightarrow> (middle_node_index a, leaf_node_index a) = slot_of (unat a)"
  by (simp add: slot_of_def middle_node_index_eq leaf_node_index_eq)

lemma slot_of_eq_iff: "slot_of x = slot_of y \<longleftrightarrow> x div 2 ^ 12 = y div 2 ^ 12"
proof
  assume "slot_of x = slot_of y"
  moreover have "z div 2 ^ 12 = z div 2 ^ 22 * 2 ^ 10 + z div 2 ^ 12 mod 2 ^ 10" for z :: nat
    using div_mult_mod_eq [of "z div 2 ^ 12" "2 ^ 10"] by (simp add: div_mult2_eq [symmetric])
  ultimately show "x div 2 ^ 12 = y div 2 ^ 12" unfolding slot_of_def by (metis prod.inject)
next
  have "z div 2 ^ 22 = z div 2 ^ 12 div 2 ^ 10" for z :: nat by (simp add: div_mult2_eq [symmetric])
  then show "x div 2 ^ 12 = y div 2 ^ 12 \<Longrightarrow> slot_of x = slot_of y" by (simp add: slot_of_def)
qed

text \<open>The bytes of one page that an access of \<open>n\<close> bytes touches are consecutive addresses.\<close>

lemma page_range_iff:
  assumes "a mod 2 ^ 12 + n \<le> 2 ^ 12"
  shows "slot_of x = slot_of a \<and> a mod 2 ^ 12 \<le> x mod 2 ^ 12 \<and> x mod 2 ^ 12 < a mod 2 ^ 12 + n \<longleftrightarrow>
         a \<le> x \<and> x < a + n"
proof -
  have dm: "z = z div 2 ^ 12 * 2 ^ 12 + z mod 2 ^ 12" for z :: nat by simp
  have "x div 2 ^ 12 = a div 2 ^ 12" if "a \<le> x" "x < a + n"
  proof (rule antisym)
    show "a div 2 ^ 12 \<le> x div 2 ^ 12" using that(1) by (rule div_le_mono)
    have "x < (a div 2 ^ 12 + 1) * 2 ^ 12"
      using that(2) assms dm [of a] unfolding add_mult_distrib by linarith
    then show "x div 2 ^ 12 \<le> a div 2 ^ 12" using less_mult_imp_div_less by fastforce
  qed
  moreover have "a mod 2 ^ 12 \<le> x mod 2 ^ 12 \<and> x mod 2 ^ 12 < a mod 2 ^ 12 + n \<longleftrightarrow> a \<le> x \<and> x < a + n"
    if "x div 2 ^ 12 = a div 2 ^ 12"
    using dm [of a] dm [of x] unfolding that by linarith
  ultimately show ?thesis unfolding slot_of_eq_iff by blast
qed

section \<open>The leaf of an address\<close>

text \<open>
  Finding or creating the leaf of an address: no undefined behaviour, the invariant is kept,
  no taint byte changes, and a leaf is returned unless there is no taint to store.
\<close>

lemma taint_st_general_i32_ok:
  assumes inv: "smem_inv st" and root: "taint_memory_page_table st = Some root"
    and bound: "middle_node_index a < length root"
  obtains r st' where "taint_st_general_i32 a v t st = Some (r, st')"
    "smem_inv st'" "ctl_frame st st'" "taint_at st' = taint_at st"
    "r = leaf_slot st' (middle_node_index a, leaf_node_index a)" "r = None \<Longrightarrow> t = 0"
proof (cases "middle_slot st (middle_node_index a)")
  case None
  show thesis
  proof (cases "t = 0")
    case True
    then show thesis using None root bound inv
      by (intro that [of None st]) (simp_all add: taint_st_general_i32_def Let_def read_root_eq leaf_slot_def)
  next
    case False
    obtain p st1 m st2 st3 st4 where "fetch_leaf_node_from_pool st = Some (p, st1)"
      "fetch_middle_node_from_pool st1 = Some (m, st2)"
      "write_root (middle_node_index a) (Some m) st2 = Some st3"
      "write_middle m (leaf_node_index a) (Some p) st3 = Some st4" "smem_inv st4" "ctl_frame st st4"
      "leaf_slot st4 (middle_node_index a, leaf_node_index a) = Some p" "taint_at st4 = taint_at st"
      using new_middle_ok [OF inv root bound leaf_node_index_less None, where a1 = a] .
    then show thesis using None root bound False
      by (intro that [of "Some p" "flush_tlb_for v st4"])
        (simp_all add: taint_st_general_i32_def Let_def read_root_eq flush_tlb_for_def)
  qed
next
  case (Some m)
  obtain node where node: "middle_heap st m = Some node" using inv Some by (rule smem_inv_middle_allocated)
  have rd: "read_middle st m (leaf_node_index a) = Some (leaf_slot st (middle_node_index a, leaf_node_index a))"
    using Some node leaf_node_index_less by (intro read_middle_eq) auto
  show thesis
  proof (cases "leaf_slot st (middle_node_index a, leaf_node_index a) = None \<and> t \<noteq> 0")
    case True
    then obtain p st1 st2 where "fetch_leaf_node_from_pool st = Some (p, st1)"
      "write_middle m (leaf_node_index a) (Some p) st1 = Some st2" "smem_inv st2" "ctl_frame st st2"
      "leaf_slot st2 (middle_node_index a, leaf_node_index a) = Some p" "taint_at st2 = taint_at st"
      using new_leaf_ok [OF inv Some leaf_node_index_less, where a1 = a] by blast
    then show thesis using Some root bound True rd
      by (intro that [of "Some p" "flush_tlb_for v st2"])
        (simp_all add: taint_st_general_i32_def Let_def read_root_eq flush_tlb_for_def)
  next
    case False
    then show thesis using Some root bound rd inv
      by (intro that [of "leaf_slot st (middle_node_index a, leaf_node_index a)" st])
        (auto simp: taint_st_general_i32_def Let_def read_root_eq split: option.split)
  qed
qed

section \<open>Writing bytes of a leaf\<close>

text \<open>The bitmap behind a slot.\<close>

definition content :: "tstate \<Rightarrow> nat \<times> nat \<Rightarrow> tbitpage_leaf_t option" where
  "content st s = (case leaf_slot st s of None \<Rightarrow> None | Some p \<Rightarrow> leaf_heap st p)"

lemma taint_at_content:
  "taint_at st a = (case content st (slot_of a) of None \<Rightarrow> 0 | Some b \<Rightarrow> b (a mod 2 ^ 12))"
  by (simp add: taint_at_def content_def split: option.split)

lemma content_None_iff:
  assumes "smem_inv st"
  shows "content st s = None \<longleftrightarrow> leaf_slot st s = None"
  by (cases "leaf_slot st s") (auto simp: content_def elim: smem_inv_leaf_allocated [OF assms])

lemma leaf_write_ok:
  assumes inv: "smem_inv st" and p: "leaf_slot st s = Some p" and len: "off + length bs \<le> 2 ^ BITPAGE_LEAF_BITS"
  obtains b st' where "leaf_heap st p = Some b" "leaf_write p off bs st = Some st'"
    "st' = st\<lparr>leaf_heap := (leaf_heap st)(p \<mapsto> write_bytes b off bs)\<rparr>"
    "smem_inv st'" "leaf_slot st' = leaf_slot st" "content st' = (content st)(s \<mapsto> write_bytes b off bs)"
proof -
  obtain root where root: "taint_memory_page_table st = Some root"
    using p by (auto simp: leaf_slot_def middle_slot_def split: prod.splits option.splits)
  note D = smem_invD [OF inv root]
  obtain b where b: "leaf_heap st p = Some b" using inv p by (rule smem_inv_leaf_allocated)
  let ?st' = "st\<lparr>leaf_heap := (leaf_heap st)(p \<mapsto> write_bytes b off bs)\<rparr>"
  have ms: "middle_slot ?st' = middle_slot st" by (rule middle_slot_cong) simp
  then have ls: "leaf_slot ?st' = leaf_slot st" by (rule leaf_slot_cong) simp
  have "smem_inv ?st'"
  proof (rule smem_invI [OF ms ls])
    show "pool_ok BITPAGE_LEAF_POOL_SIZE (leaf_next_available_node ?st') (leaf_pool ?st')
            (leaf_heap ?st') (\<lambda>_. 0) (ran (leaf_slot st))"
      using pool_ok_write_used [OF D(4) ranI [of "leaf_slot st", OF p]] by simp
    show "\<forall>q \<ge> heap_next ?st'. leaf_heap ?st' q = None"
      using D(8) b by (auto dest: spec [of _ p])
  qed (use root D in simp_all)
  moreover have "content ?st' = (content st)(s \<mapsto> write_bytes b off bs)"
  proof
    fix x
    show "content ?st' x = ((content st)(s \<mapsto> write_bytes b off bs)) x"
    proof (cases "x = s")
      case True
      then show ?thesis unfolding content_def ls by (simp add: p)
    next
      case False
      then have "leaf_slot st x \<noteq> Some p" using inj_mapD [OF D(3) p] by blast
      then show ?thesis unfolding content_def ls using False by (auto split: option.split)
    qed
  qed
  moreover have "leaf_write p off bs st = Some ?st'" using b len by (simp add: leaf_write_def)
  ultimately show thesis using b ls that by blast
qed

text \<open>Seen from the addresses: exactly the bytes of the access change.\<close>

lemma taint_at_write_bytes:
  assumes "content st' = (content st)(slot_of a \<mapsto> write_bytes b (a mod 2 ^ 12) bs)"
    and "content st (slot_of a) = Some b" and "a mod 2 ^ 12 + length bs \<le> 2 ^ 12"
  shows "taint_at st' x = (if a \<le> x \<and> x < a + length bs then bs ! (x - a) else taint_at st x)"
proof (cases "a \<le> x \<and> x < a + length bs")
  case True
  with page_range_iff [OF assms(3), of x] have "slot_of x = slot_of a"
    "a mod 2 ^ 12 \<le> x mod 2 ^ 12" "x mod 2 ^ 12 < a mod 2 ^ 12 + length bs" by auto
  moreover from this(1) have "x div 2 ^ 12 = a div 2 ^ 12" by (simp only: slot_of_eq_iff)
  then obtain q where "x = q + x mod 2 ^ 12" "a = q + a mod 2 ^ 12" by (metis div_mult_mod_eq)
  then have "x mod 2 ^ 12 - a mod 2 ^ 12 = x - a" by (metis diff_cancel)
  ultimately show ?thesis using True by (simp add: taint_at_content assms(1) write_bytes_def)
next
  case False
  show ?thesis
  proof (cases "slot_of x = slot_of a")
    case True
    then have "\<not> (a mod 2 ^ 12 \<le> x mod 2 ^ 12 \<and> x mod 2 ^ 12 < a mod 2 ^ 12 + length bs)"
      using False page_range_iff [OF assms(3), of x] by blast
    then have "write_bytes b (a mod 2 ^ 12) bs (x mod 2 ^ 12) = b (x mod 2 ^ 12)"
      unfolding write_bytes_def by (rule if_not_P)
    then show ?thesis unfolding if_not_P [OF False] by (simp add: taint_at_content assms(1,2) True)
  next
    case neq: False
    then show ?thesis unfolding if_not_P [OF False] by (simp add: taint_at_content assms(1))
  qed
qed

section \<open>Garbage collection\<close>

lemma leaf_is_clean_iff: "leaf_is_clean b \<longleftrightarrow> (\<forall>i < 2 ^ 12. b i = 0)"
proof -
  have word: "leaf_word32 b i = 0 \<longleftrightarrow> (\<forall>k \<in> {4 * i..<4 * i + 4}. b k = 0)" for i
    unfolding leaf_word32_def by (subst le_word_eq_0_iff) auto
  have "leaf_is_clean b \<longleftrightarrow> (\<forall>i < 2 ^ 10. \<forall>k \<in> {4 * i..<4 * i + 4}. b k = 0)"
    by (simp only: leaf_is_clean_def word set_upt atLeast0LessThan BITPAGE_LEAF_BITS_def) (simp add: Ball_def)
  also have "\<dots> \<longleftrightarrow> (\<forall>i < 2 ^ 12. b i = 0)"
  proof (intro iffI allI impI ballI)
    fix k :: nat assume all: "\<forall>i < 2 ^ 10. \<forall>k \<in> {4 * i..<4 * i + 4}. b k = 0" and "k < 2 ^ 12"
    then have "k div 4 < 2 ^ 10" "k \<in> {4 * (k div 4)..<4 * (k div 4) + 4}" by auto
    then show "b k = 0" using all by blast
  qed auto
  finally show ?thesis .
qed

end
