(* ===== verification/Shadow_Collect.thy ===== *)
theory Shadow_Collect
  imports Shadow_Memory
begin

text \<open>
  Life cycle of the shadow memory: creation, garbage collection and release of the page table
  of \<^verbatim>\<open>taint_memory.c\<close>.  Collection removes exactly the leaves without taint and the middle
  nodes without leaves, changes no taint byte and keeps the invariant; release frees every node
  once and leaks none.
\<close>

section \<open>Collecting one leaf\<close>

definition drop_clean :: "tbitpage_leaf_t option \<Rightarrow> tbitpage_leaf_t option" where
  "drop_clean c = (case c of None \<Rightarrow> None | Some b \<Rightarrow> if leaf_is_clean b then None else Some b)"

lemma taint_at_drop_clean:
  assumes "\<And>s. content st' s = content st s \<or> content st' s = drop_clean (content st s)"
  shows "taint_at st' = taint_at st"
proof
  fix a :: nat
  have "a mod 2 ^ 12 < 2 ^ 12" by simp
  then show "taint_at st' a = taint_at st a"
    using assms [of "slot_of a"] unfolding taint_at_content
    by (auto simp: drop_clean_def leaf_is_clean_iff split: option.split if_splits)
qed

lemma return_leaf_ok:
  assumes inv: "smem_inv st" and m: "middle_slot st i = Some m" and j: "j < 2 ^ BITPAGE_MIDDLE_BITS"
    and p: "leaf_slot st (i, j) = Some p"
  obtains st1 st2 where "return_leaf_node_to_pool p st = Some st1" "write_middle m j None st1 = Some st2"
    "smem_inv st2" "ctl_frame st st2" "middle_slot st2 = middle_slot st"
    "leaf_slot st2 = (leaf_slot st)((i, j) := None)" "content st2 = (content st)((i, j) := None)"
proof -
  obtain root where root: "taint_memory_page_table st = Some root"
    using m by (auto simp: middle_slot_def split: option.splits)
  note D = smem_invD [OF inv root]
  obtain node where node: "middle_heap st m = Some node" using inv m by (rule smem_inv_middle_allocated)
  obtain b where b: "leaf_heap st p = Some b" using inv p by (rule smem_inv_leaf_allocated)
  let ?L = "(leaf_slot st)((i, j) := None)"
  have ran: "ran ?L = ran (leaf_slot st) - {p}" using D(3) p by (rule ran_del)
  have pin: "p \<in> ran (leaf_slot st)" using p by (rule ranI)
  have card: "leaf_nodes_in_use st - 1 = of_nat (card (dom ?L))"
    using card_dom_del [of "leaf_slot st", OF _ p] D(6) by (metis finite_dom_leaf_slot add_diff_cancel_right' of_nat_Suc add.commute)
  obtain lh ln lp where ret: "return_leaf_node_to_pool p st =
      Some (st\<lparr>leaf_heap := lh, leaf_next_available_node := ln, leaf_pool := lp,
               leaf_nodes_in_use := leaf_nodes_in_use st - 1\<rparr>)" (is "_ = Some ?st1")
    and pool: "pool_ok BITPAGE_LEAF_POOL_SIZE ln lp lh (\<lambda>_. 0) (ran (leaf_slot st) - {p})"
    and other: "\<And>q. q \<noteq> p \<Longrightarrow> lh q = leaf_heap st q"
  proof (cases "leaf_next_available_node st = 0")
    case True
    then have "return_leaf_node_to_pool p st =
        Some (st\<lparr>leaf_heap := (leaf_heap st)(p := None), leaf_next_available_node := leaf_next_available_node st,
                 leaf_pool := leaf_pool st, leaf_nodes_in_use := leaf_nodes_in_use st - 1\<rparr>)"
      using b by (simp add: return_leaf_node_to_pool_def free_leaf_def)
    then show thesis using pool_ok_free [OF D(4) pin] that by fastforce
  next
    case False
    let ?n = "leaf_next_available_node st - 1"
    have "return_leaf_node_to_pool p st =
        Some (st\<lparr>leaf_heap := (leaf_heap st)(p \<mapsto> (\<lambda>_. 0)), leaf_next_available_node := ?n,
                 leaf_pool := (leaf_pool st)(?n \<mapsto> p), leaf_nodes_in_use := leaf_nodes_in_use st - 1\<rparr>)"
      using b False by (simp add: return_leaf_node_to_pool_def Let_def)
    then show thesis using pool_ok_return [OF D(4) pin False] that by fastforce
  qed
  let ?st2 = "?st1\<lparr>middle_heap := (middle_heap ?st1)(m \<mapsto> node(j := None))\<rparr>"
  have ms1: "middle_slot ?st1 = middle_slot st" by (rule middle_slot_cong) simp
  then have ls1: "leaf_slot ?st1 = leaf_slot st" by (rule leaf_slot_cong) simp
  have ms2: "middle_slot ?st2 = middle_slot st" by (subst ms1 [symmetric], rule middle_slot_cong) simp
  have ls2: "leaf_slot ?st2 = ?L"
    using leaf_slot_write_middle [of ?st1 i m node j None] D(2) m node j by (simp only: ms1 ls1) simp
  have w: "write_middle m j None ?st1 = Some ?st2" using node j by (simp add: write_middle_def)
  have "smem_inv ?st2"
  proof (rule smem_invI [OF ms2 ls2])
    show "inj_map ?L" using D(3) by (rule inj_map_del)
    show "pool_ok BITPAGE_MIDDLE_POOL_SIZE (middle_next_available_node ?st2) (middle_pool ?st2)
            (middle_heap ?st2) (\<lambda>_. None) (ran (middle_slot st))"
      using pool_ok_write_used [OF D(5) ranI [of "middle_slot st", OF m]] by simp
    show "\<forall>q \<ge> heap_next ?st2. middle_heap ?st2 q = None"
      using D(9) node by (auto dest: spec [of _ m])
    show "\<forall>q \<ge> heap_next ?st2. leaf_heap ?st2 q = None"
    proof (intro allI impI)
      fix q assume "heap_next ?st2 \<le> q"
      then have "leaf_heap st q = None" using D(8) by simp
      moreover from this have "q \<noteq> p" using b by auto
      ultimately show "leaf_heap ?st2 q = None" using other by simp
    qed
  qed (use root D pool card in \<open>simp_all add: ran\<close>)
  moreover have "content ?st2 = (content st)((i, j) := None)"
  proof
    fix x
    show "content ?st2 x = ((content st)((i, j) := None)) x"
    proof (cases "x = (i, j)")
      case True
      then show ?thesis unfolding content_def ls2 by simp
    next
      case False
      then have "leaf_slot st x \<noteq> Some p" using inj_mapD [OF D(3) p] by blast
      then show ?thesis unfolding content_def ls2 using False by (auto simp: other split: option.split)
    qed
  qed
  moreover have "ctl_frame st ?st2" by (simp add: ctl_frame_def)
  ultimately show thesis using ret w ms2 ls2 that by blast
qed

lemma gc_leaf_ok:
  assumes inv: "smem_inv st" and m: "middle_slot st i = Some m" and j: "j < 2 ^ BITPAGE_MIDDLE_BITS"
  obtains fm' st' where "gc_leaf m j (fm, st) = Some (fm', st')" "smem_inv st'" "ctl_frame st st'"
    "middle_slot st' = middle_slot st" "content st' = (content st)((i, j) := drop_clean (content st (i, j)))"
    "fm' \<longleftrightarrow> fm \<and> content st' (i, j) = None"
proof -
  obtain node where node: "middle_heap st m = Some node" using inv m by (rule smem_inv_middle_allocated)
  have rd: "read_middle st m j = Some (leaf_slot st (i, j))"
    using m node j by (intro read_middle_eq) auto
  show thesis
  proof (cases "leaf_slot st (i, j)")
    case None
    then have "content st (i, j) = None" by (simp add: content_def)
    then show thesis using None rd inv
      by (intro that [of fm st]) (auto simp: gc_leaf_def drop_clean_def)
  next
    case (Some p)
    obtain b where b: "leaf_heap st p = Some b" using inv Some by (rule smem_inv_leaf_allocated)
    have c: "content st (i, j) = Some b" by (simp add: content_def Some b)
    show thesis
    proof (cases "leaf_is_clean b")
      case True
      obtain st1 st2 where "return_leaf_node_to_pool p st = Some st1" "write_middle m j None st1 = Some st2"
        "smem_inv st2" "ctl_frame st st2" "middle_slot st2 = middle_slot st"
        "content st2 = (content st)((i, j) := None)"
        using return_leaf_ok [OF inv m j Some] .
      then show thesis using Some b c True rd
        by (intro that [of fm st2]) (simp_all add: gc_leaf_def drop_clean_def)
    next
      case False
      then show thesis using Some b c rd inv
        by (intro that [of False st]) (auto simp: gc_leaf_def drop_clean_def)
    qed
  qed
qed

section \<open>Collecting the whole table\<close>

text \<open>The leaf loop over one middle node.\<close>

lemma gc_leaf_loop_ok:
  assumes inv: "smem_inv st" and m: "middle_slot st i = Some m"
  obtains fm st' where "foldM (gc_leaf m) [0..<2 ^ BITPAGE_MIDDLE_BITS] (True, st) = Some (fm, st')"
    "smem_inv st'" "ctl_frame st st'" "middle_slot st' = middle_slot st"
    "\<forall>s. content st' s = (if fst s = i \<and> snd s < 2 ^ BITPAGE_MIDDLE_BITS then drop_clean (content st s) else content st s)"
    "fm \<longleftrightarrow> (\<forall>j < 2 ^ BITPAGE_MIDDLE_BITS. content st' (i, j) = None)"
proof -
  define P where "P k x \<longleftrightarrow>
      smem_inv (snd x) \<and> ctl_frame st (snd x) \<and> middle_slot (snd x) = middle_slot st \<and>
      (\<forall>s. content (snd x) s = (if fst s = i \<and> snd s < k then drop_clean (content st s) else content st s)) \<and>
      (fst x \<longleftrightarrow> (\<forall>j < k. content (snd x) (i, j) = None))" for k :: nat and x :: "bool \<times> tstate"
  have "\<exists>x. foldM (gc_leaf m) [0..<2 ^ BITPAGE_MIDDLE_BITS] (True, st) = Some x \<and> P (2 ^ BITPAGE_MIDDLE_BITS) x"
  proof (rule foldM_upt_invariant)
    show "P 0 (True, st)" using inv by (simp add: P_def)
  next
    fix k x assume k: "k < 2 ^ BITPAGE_MIDDLE_BITS" and Pk: "P k x"
    obtain fm st' where x: "x = (fm, st')" by fastforce
    have "smem_inv st'" "middle_slot st' i = Some m" using Pk m by (simp_all add: P_def x)
    then obtain fm' st'' where g: "gc_leaf m k (fm, st') = Some (fm', st'')" "smem_inv st''"
      "ctl_frame st' st''" "middle_slot st'' = middle_slot st'"
      "content st'' = (content st')((i, k) := drop_clean (content st' (i, k)))"
      "fm' \<longleftrightarrow> fm \<and> content st'' (i, k) = None"
      using gc_leaf_ok [OF _ _ k] by metis
    have "P (Suc k) (fm', st'')"
      using Pk g ctl_frame_trans by (auto simp: P_def x less_Suc_eq)
    then show "\<exists>t'. gc_leaf m k x = Some t' \<and> P (Suc k) t'" using g(1) by (auto simp: x)
  qed
  then show thesis using that by (auto simp: P_def)
qed

lemma return_middle_ok:
  assumes inv: "smem_inv st" and m: "middle_slot st i = Some m"
    and empty: "\<And>j. leaf_slot st (i, j) = None"
  obtains st1 st2 where "return_middle_node_to_pool m st = Some st1" "write_root i None st1 = Some st2"
    "smem_inv st2" "ctl_frame st st2" "middle_slot st2 = (middle_slot st)(i := None)"
    "content st2 = content st"
proof -
  obtain root where root: "taint_memory_page_table st = Some root" and i: "i < length root"
    using m by (auto simp: middle_slot_def split: option.splits if_splits)
  note D = smem_invD [OF inv root]
  obtain node where node: "middle_heap st m = Some node" using inv m by (rule smem_inv_middle_allocated)
  let ?M = "(middle_slot st)(i := None)"
  have ran: "ran ?M = ran (middle_slot st) - {m}" using D(2) m by (rule ran_del)
  have min: "m \<in> ran (middle_slot st)" using m by (rule ranI)
  have card: "middle_nodes_in_use st - 1 = of_nat (card (dom ?M))"
    using card_dom_del [of "middle_slot st", OF _ m] D(7)
    by (metis finite_dom_middle_slot add_diff_cancel_right' of_nat_Suc add.commute)
  obtain mh mn mp where ret: "return_middle_node_to_pool m st =
      Some (st\<lparr>middle_heap := mh, middle_next_available_node := mn, middle_pool := mp,
               middle_nodes_in_use := middle_nodes_in_use st - 1\<rparr>)" (is "_ = Some ?st1")
    and pool: "pool_ok BITPAGE_MIDDLE_POOL_SIZE mn mp mh (\<lambda>_. None) (ran (middle_slot st) - {m})"
    and other: "\<And>q. q \<noteq> m \<Longrightarrow> mh q = middle_heap st q"
  proof (cases "middle_next_available_node st = 0")
    case True
    then have "return_middle_node_to_pool m st =
        Some (st\<lparr>middle_heap := (middle_heap st)(m := None), middle_next_available_node := middle_next_available_node st,
                 middle_pool := middle_pool st, middle_nodes_in_use := middle_nodes_in_use st - 1\<rparr>)"
      using node by (simp add: return_middle_node_to_pool_def free_middle_def)
    then show thesis using pool_ok_free [OF D(5) min] that by fastforce
  next
    case False
    let ?n = "middle_next_available_node st - 1"
    have "return_middle_node_to_pool m st =
        Some (st\<lparr>middle_heap := (middle_heap st)(m \<mapsto> (\<lambda>_. None)), middle_next_available_node := ?n,
                 middle_pool := (middle_pool st)(?n \<mapsto> m), middle_nodes_in_use := middle_nodes_in_use st - 1\<rparr>)"
      using node False by (simp add: return_middle_node_to_pool_def Let_def)
    then show thesis using pool_ok_return [OF D(5) min False] that by fastforce
  qed
  let ?st2 = "?st1\<lparr>taint_memory_page_table := Some (root[i := None])\<rparr>"
  have w: "write_root i None ?st1 = Some ?st2" using root i by (simp add: write_root_def)
  have ms1: "middle_slot ?st1 = middle_slot st" by (rule middle_slot_cong) simp
  have ms2: "middle_slot ?st2 = ?M"
    using middle_slot_write_root [of ?st1 root i None] root i by (simp only: ms1) simp
  have ls2: "leaf_slot ?st2 = leaf_slot st"
  proof
    fix x :: "nat \<times> nat" obtain i' j where x: "x = (i', j)" by fastforce
    show "leaf_slot ?st2 x = leaf_slot st x"
    proof (cases "i' = i")
      case True
      then show ?thesis using empty [of j] by (simp only: x) (simp add: leaf_slot_def ms2 del: fun_upd_apply, simp)
    next
      case False
      then have "middle_slot st i' \<noteq> Some m" using inj_mapD [OF D(2) m] by blast
      then show ?thesis using False unfolding leaf_slot_def ms2 x by (auto simp: other split: option.split)
    qed
  qed
  have "smem_inv ?st2"
  proof (rule smem_invI [OF ms2 ls2])
    show "taint_memory_page_table ?st2 = Some (root[i := None])" by simp
    show "inj_map ?M" using D(2) by (rule inj_map_del)
    show "\<forall>q \<ge> heap_next ?st2. middle_heap ?st2 q = None"
    proof (intro allI impI)
      fix q assume "heap_next ?st2 \<le> q"
      then have "middle_heap st q = None" using D(9) by simp
      moreover from this have "q \<noteq> m" using node by auto
      ultimately show "middle_heap ?st2 q = None" using other by simp
    qed
  qed (use D pool card in \<open>simp_all add: ran\<close>)
  moreover have "content ?st2 = content st" unfolding content_def ls2 by (simp cong: option.case_cong)
  moreover have "ctl_frame st ?st2" using root by (simp add: ctl_frame_def)
  ultimately show thesis using ret w ms2 that by blast
qed

lemma gc_middle_ok:
  assumes inv: "smem_inv st" and i: "i < taint_memory_page_table_root_size st"
    and alloc: "taint_memory_page_table st \<noteq> None"
  obtains st' where "gc_middle i st = Some st'" "smem_inv st'" "ctl_frame st st'"
    "\<forall>s. content st' s = (if fst s = i then drop_clean (content st s) else content st s)"
    "\<forall>i'. i' \<noteq> i \<longrightarrow> middle_slot st' i' = middle_slot st i'"
    "middle_slot st' i \<noteq> None \<longrightarrow> (\<exists>j. content st' (i, j) \<noteq> None)"
proof -
  obtain root where root: "taint_memory_page_table st = Some root" using alloc by auto
  have rd: "read_root st i = Some (middle_slot st i)"
    using read_root_eq [OF root] smem_invD(1) [OF inv root] i by simp
  show thesis
  proof (cases "middle_slot st i")
    case None
    then have "content st (i, j) = None" for j by (simp add: content_def leaf_slot_def)
    then show thesis using None rd inv
      by (intro that [of st]) (auto simp: gc_middle_def drop_clean_def)
  next
    case (Some m)
    obtain fm st1 where g: "foldM (gc_leaf m) [0..<2 ^ BITPAGE_MIDDLE_BITS] (True, st) = Some (fm, st1)"
      "smem_inv st1" "ctl_frame st st1" "middle_slot st1 = middle_slot st"
      "\<forall>s. content st1 s = (if fst s = i \<and> snd s < 2 ^ BITPAGE_MIDDLE_BITS then drop_clean (content st s) else content st s)"
      "fm \<longleftrightarrow> (\<forall>j < 2 ^ BITPAGE_MIDDLE_BITS. content st1 (i, j) = None)"
      by (rule gc_leaf_loop_ok [OF inv Some])
    have big: "content st' s = None" if "\<not> snd s < 2 ^ BITPAGE_MIDDLE_BITS" for st' s
      using that by (auto simp: content_def leaf_slot_def split: prod.split option.split)
    have c: "content st1 s = (if fst s = i then drop_clean (content st s) else content st s)" for s
      using spec [OF g(5), of s] big [of s] by (auto simp: drop_clean_def)
    show thesis
    proof (cases fm)
      case True
      then have "content st1 (i, j) = None" for j using g(6) big [of "(i, j)"] by auto
      then have "\<And>j. leaf_slot st1 (i, j) = None" using content_None_iff [OF g(2)] by simp
      moreover have "middle_slot st1 i = Some m" using Some g(4) by simp
      ultimately obtain st2 st3 where r: "return_middle_node_to_pool m st1 = Some st2"
        "write_root i None st2 = Some st3" "smem_inv st3" "ctl_frame st1 st3"
        "middle_slot st3 = (middle_slot st1)(i := None)" "content st3 = content st1"
        using return_middle_ok [OF g(2)] by blast
      have "gc_middle i st = Some st3" using True Some rd g(1) r(1,2) by (simp add: gc_middle_def)
      moreover have "ctl_frame st st3" using g(3) r(4) by (rule ctl_frame_trans)
      moreover have "\<forall>s. content st3 s = (if fst s = i then drop_clean (content st s) else content st s)"
        unfolding r(6) using c by blast
      moreover have "\<forall>i'. i' \<noteq> i \<longrightarrow> middle_slot st3 i' = middle_slot st i'" by (simp add: r(5) g(4))
      moreover have "middle_slot st3 i = None" by (simp add: r(5))
      ultimately show thesis using that r(3) by blast
    next
      case False
      then have "gc_middle i st = Some st1" using Some rd g(1) by (simp add: gc_middle_def)
      moreover have "\<exists>j. content st1 (i, j) \<noteq> None" using False g(6) by blast
      moreover have "\<forall>i'. i' \<noteq> i \<longrightarrow> middle_slot st1 i' = middle_slot st i'" by (simp add: g(4))
      ultimately show thesis using that g(2,3) c by blast
    qed
  qed
qed

text \<open>What a full collection establishes.\<close>

lemma garbage_collect_loop_ok:
  assumes inv: "smem_inv st" and alloc: "taint_memory_page_table st \<noteq> None"
  obtains st' where "foldM gc_middle [0..<taint_memory_page_table_root_size st] st = Some st'"
    "smem_inv st'" "ctl_frame st st'" "\<forall>s. content st' s = drop_clean (content st s)"
    "\<forall>i. middle_slot st' i \<noteq> None \<longrightarrow> (\<exists>j. content st' (i, j) \<noteq> None)"
proof -
  let ?n = "taint_memory_page_table_root_size st"
  define P where "P k st' \<longleftrightarrow>
      smem_inv st' \<and> ctl_frame st st' \<and>
      (\<forall>s. content st' s = (if fst s < k then drop_clean (content st s) else content st s)) \<and>
      (\<forall>i < k. middle_slot st' i \<noteq> None \<longrightarrow> (\<exists>j. content st' (i, j) \<noteq> None))" for k :: nat and st'
  have "\<exists>st'. foldM gc_middle [0..<?n] st = Some st' \<and> P ?n st'"
  proof (rule foldM_upt_invariant)
    show "P 0 st" using inv by (simp add: P_def)
  next
    fix k t assume k: "k < ?n" and Pk: "P k t"
    then have t: "smem_inv t" "ctl_frame st t" by (simp_all add: P_def)
    with k alloc have "k < taint_memory_page_table_root_size t" "taint_memory_page_table t \<noteq> None"
      by (simp_all add: ctl_frame_def)
    with t(1) obtain t' where g: "gc_middle k t = Some t'" "smem_inv t'" "ctl_frame t t'"
      "\<forall>s. content t' s = (if fst s = k then drop_clean (content t s) else content t s)"
      "\<forall>i'. i' \<noteq> k \<longrightarrow> middle_slot t' i' = middle_slot t i'"
      "middle_slot t' k \<noteq> None \<longrightarrow> (\<exists>j. content t' (k, j) \<noteq> None)"
      by (rule gc_middle_ok)
    have "P (Suc k) t'"
      unfolding P_def
    proof (intro conjI allI impI)
      show "ctl_frame st t'" using t(2) g(3) by (rule ctl_frame_trans)
      show "content t' s = (if fst s < Suc k then drop_clean (content st s) else content st s)" for s
        using Pk spec [OF g(4), of s] by (cases s) (auto simp: P_def less_Suc_eq)
      show "\<exists>j. content t' (i, j) \<noteq> None" if "i < Suc k" "middle_slot t' i \<noteq> None" for i
      proof (cases "i = k")
        case True
        then show ?thesis using g(6) that(2) by blast
      next
        case False
        then have "middle_slot t i \<noteq> None" "i < k" using that g(5) by auto
        then have "\<exists>j. content t (i, j) \<noteq> None" using Pk unfolding P_def by blast
        then show ?thesis using g(4) False by simp
      qed
    qed (rule g(2))
    then show "\<exists>t'. gc_middle k t = Some t' \<and> P (Suc k) t'" using g(1) by blast
  qed
  then obtain st' where st': "foldM gc_middle [0..<?n] st = Some st'" "P ?n st'" by blast
  have bound: "i < ?n" if "middle_slot st'' i \<noteq> None" "smem_inv st''" "ctl_frame st st''" for i st''
    using that smem_invD(1) by (fastforce simp: middle_slot_def ctl_frame_def split: option.splits if_splits)
  have "content st' s = drop_clean (content st s)" for s
  proof (cases "fst s < ?n")
    case True
    then show ?thesis using st'(2) by (cases s) (simp add: P_def)
  next
    case False
    then have "middle_slot st (fst s) = None" using bound [of st] inv by fastforce
    then have "content st s = None" by (cases s) (simp add: content_def leaf_slot_def)
    then show ?thesis using st'(2) False by (cases s) (simp add: P_def drop_clean_def)
  qed
  moreover have "\<exists>j. content st' (i, j) \<noteq> None" if "middle_slot st' i \<noteq> None" for i
    using bound [OF that] st'(2) that unfolding P_def by blast
  ultimately show thesis using st' that by (simp add: P_def)
qed

lemma garbage_collect_taint_ok:
  assumes inv: "smem_inv st" and alloc: "taint_memory_page_table st \<noteq> None"
    and on: "taint_tracking_enabled st" and due: "flag \<or> 4 * 1024 \<le> gc_counter st"
  obtains st' where "garbage_collect_taint flag st = Some st'" "smem_inv st'" "ctl_frame st st'"
    "\<forall>s. content st' s = drop_clean (content st s)"
    "\<forall>i. middle_slot st' i \<noteq> None \<longrightarrow> (\<exists>j. content st' (i, j) \<noteq> None)" "taint_at st' = taint_at st"
proof -
  let ?st0 = "st\<lparr>gc_counter := 0\<rparr>"
  have same: "same_smem st ?st0" by (simp add: same_smem_def)
  have "content ?st0 = content st"
    unfolding content_def same_smem_view(2) [OF same] by (simp cong: option.case_cong)
  moreover have "smem_inv ?st0" using inv same_smem_view(4) [OF same] by simp
  moreover have "taint_memory_page_table ?st0 \<noteq> None" using alloc by simp
  ultimately obtain st' where "foldM gc_middle [0..<taint_memory_page_table_root_size ?st0] ?st0 = Some st'"
    "smem_inv st'" "ctl_frame ?st0 st'" "\<forall>s. content st' s = drop_clean (content st s)"
    "\<forall>i. middle_slot st' i \<noteq> None \<longrightarrow> (\<exists>j. content st' (i, j) \<noteq> None)"
    using garbage_collect_loop_ok [of ?st0 thesis] by auto
  moreover have "garbage_collect_taint flag st = foldM gc_middle [0..<taint_memory_page_table_root_size ?st0] ?st0"
    using alloc on due by (auto simp: garbage_collect_taint_def)
  moreover have "ctl_frame st st'"
    using ctl_frame_trans [OF _ \<open>ctl_frame ?st0 st'\<close>] by (simp add: ctl_frame_def)
  moreover from calculation have "taint_at st' = taint_at st" by (intro taint_at_drop_clean) blast
  ultimately show thesis by (intro that [of st']) simp_all
qed

section \<open>Creation\<close>

lemma allocate_taint_memory_page_table_ok:
  assumes inv: "smem_inv st" and none: "taint_memory_page_table st = None"
  shows "smem_inv (allocate_taint_memory_page_table st)"
    and "taint_memory_page_table (allocate_taint_memory_page_table st) \<noteq> None"
    and "taint_memory_page_table_root_size (allocate_taint_memory_page_table st) =
           unat (ram_size st) div 2 ^ 22 mod 2 ^ 32"
    and "leaf_slot (allocate_taint_memory_page_table st) = (\<lambda>_. None)"
    and "ram_size (allocate_taint_memory_page_table st) = ram_size st"
proof -
  let ?st' = "allocate_taint_memory_page_table st"
  let ?n = "unat (drop_bit (BITPAGE_LEAF_BITS + BITPAGE_MIDDLE_BITS) (ram_size st)) mod 2 ^ 32"
  let ?h = "heap_next st"
  have empty: "leaf_heap st = (\<lambda>_. None)" "middle_heap st = (\<lambda>_. None)"
    using inv none by (simp_all add: smem_inv_def)
  have st': "?st' = st\<lparr>taint_memory_page_table_root_size := ?n,
      taint_memory_page_table := Some (replicate ?n None),
      leaf_heap := fresh_nodes ?h BITPAGE_LEAF_POOL_SIZE (\<lambda>_. 0) (leaf_heap st),
      leaf_pool := fresh_slots ?h BITPAGE_LEAF_POOL_SIZE (leaf_pool st),
      leaf_next_available_node := 0,
      middle_heap := fresh_nodes (?h + BITPAGE_LEAF_POOL_SIZE) BITPAGE_MIDDLE_POOL_SIZE (\<lambda>_. None) (middle_heap st),
      middle_pool := fresh_slots (?h + BITPAGE_LEAF_POOL_SIZE) BITPAGE_MIDDLE_POOL_SIZE (middle_pool st),
      heap_next := ?h + BITPAGE_LEAF_POOL_SIZE + BITPAGE_MIDDLE_POOL_SIZE,
      middle_next_available_node := 0, middle_nodes_in_use := 0, leaf_nodes_in_use := 0\<rparr>"
    using none by (simp add: allocate_taint_memory_page_table_def allocate_leaf_pool_def
        allocate_middle_pool_def fold_fill_leaf fold_fill_middle Let_def)
  have ms: "middle_slot ?st' = (\<lambda>_. None)"
    unfolding st' by (rule ext) (simp add: middle_slot_def)
  then show ls: "leaf_slot ?st' = (\<lambda>_. None)" by (simp add: leaf_slot_def fun_eq_iff)
  have init: "pool_ok sz sz slots (\<lambda>_. None) zero {}" for sz slots and zero :: 'n
    by (auto simp: pool_ok_def avail_def)
  show "smem_inv ?st'"
  proof (rule smem_invI [OF ms ls])
    show "taint_memory_page_table ?st' = Some (replicate ?n None)" by (simp add: st')
    show "pool_ok BITPAGE_LEAF_POOL_SIZE (leaf_next_available_node ?st') (leaf_pool ?st')
            (leaf_heap ?st') (\<lambda>_. 0) (ran (\<lambda>_. None))"
      using pool_ok_refill [OF init order_refl, of ?h] by (simp add: st' empty)
    show "pool_ok BITPAGE_MIDDLE_POOL_SIZE (middle_next_available_node ?st') (middle_pool ?st')
            (middle_heap ?st') (\<lambda>_. None) (ran (\<lambda>_. None))"
      using pool_ok_refill [OF init order_refl, of "?h + BITPAGE_LEAF_POOL_SIZE"] by (simp add: st' empty)
    show "\<forall>p \<ge> heap_next ?st'. leaf_heap ?st' p = None" "\<forall>p \<ge> heap_next ?st'. middle_heap ?st' p = None"
      by (simp_all add: st' empty fresh_nodes_def)
  qed (simp_all add: st')
  show "taint_memory_page_table ?st' \<noteq> None" "ram_size ?st' = ram_size st" by (simp_all add: st')
  have "?n = drop_bit 22 (unat (ram_size st)) mod 2 ^ 32"
    by (simp only: unat_drop_bit_eq BITPAGE_LEAF_BITS_def BITPAGE_MIDDLE_BITS_def) simp
  then show "taint_memory_page_table_root_size ?st' = unat (ram_size st) div 2 ^ 22 mod 2 ^ 32"
    by (simp only: st' drop_bit_eq_div) simp
qed

section \<open>Release\<close>

text \<open>
  While the table is emptied the heaps shrink: the state is the original one with the nodes of
  the visited slots removed from the heaps.
\<close>

definition drop_keys :: "'k set \<Rightarrow> ('k \<rightharpoonup> 'v) \<Rightarrow> 'k \<rightharpoonup> 'v" where
  "drop_keys F m = (\<lambda>p. if p \<in> F then None else m p)"

definition without :: "tstate \<Rightarrow> leaf_ptr set \<Rightarrow> middle_ptr set \<Rightarrow> tstate" where
  "without st F G = st\<lparr>leaf_heap := drop_keys F (leaf_heap st), middle_heap := drop_keys G (middle_heap st)\<rparr>"

lemma drop_keys_empty [simp]: "drop_keys {} m = m"
  by (simp add: drop_keys_def)

lemma drop_keys_upd: "(drop_keys F m)(p := None) = drop_keys (insert p F) m"
  by (auto simp: drop_keys_def fun_eq_iff)

lemma drop_keys_del: "drop_keys F (m(p := None)) = drop_keys (insert p F) m"
  by (auto simp: drop_keys_def fun_eq_iff)

lemma drop_keys_notin: "p \<notin> F \<Longrightarrow> drop_keys F m p = m p"
  by (simp add: drop_keys_def)

lemma without_empty: "without st {} {} = st"
  by (simp add: without_def)

definition row_leaves :: "tstate \<Rightarrow> nat \<Rightarrow> nat \<Rightarrow> leaf_ptr set" where
  "row_leaves st i k = {p. \<exists>j < k. leaf_slot st (i, j) = Some p}"

lemma row_leaves_Suc:
  "row_leaves st i (Suc k) = (case leaf_slot st (i, k) of None \<Rightarrow> row_leaves st i k
     | Some p \<Rightarrow> insert p (row_leaves st i k))"
  by (auto simp: row_leaves_def less_Suc_eq split: option.split)

lemma empty_leaf_loop_ok:
  assumes inv: "smem_inv st" and m: "middle_slot st i = Some m" "m \<notin> G"
    and F: "\<And>j p. leaf_slot st (i, j) = Some p \<Longrightarrow> p \<notin> F"
  shows "foldM (empty_leaf m) [0..<2 ^ BITPAGE_MIDDLE_BITS] (without st F G) =
           Some (without st (F \<union> row_leaves st i (2 ^ BITPAGE_MIDDLE_BITS)) G)"
proof -
  obtain root where root: "taint_memory_page_table st = Some root"
    using m by (auto simp: middle_slot_def split: option.splits)
  note inj = smem_invD(3) [OF inv root]
  obtain node where node: "middle_heap st m = Some node" using inv m(1) by (rule smem_inv_middle_allocated)
  let ?P = "\<lambda>k t. t = without st (F \<union> row_leaves st i k) G"
  have "\<exists>t. foldM (empty_leaf m) [0..<2 ^ BITPAGE_MIDDLE_BITS] (without st F G) = Some t \<and>
      ?P (2 ^ BITPAGE_MIDDLE_BITS) t"
  proof (rule foldM_upt_invariant)
    show "?P 0 (without st F G)" by (simp add: row_leaves_def)
  next
    fix k t assume k: "k < 2 ^ BITPAGE_MIDDLE_BITS" and t: "?P k t"
    have rd: "read_middle t m k = Some (leaf_slot st (i, k))"
      using m node k by (simp add: t read_middle_def without_def leaf_slot_def drop_keys_notin)
    show "\<exists>t'. empty_leaf m k t = Some t' \<and> ?P (Suc k) t'"
    proof (cases "leaf_slot st (i, k)")
      case None
      then show ?thesis using rd by (simp add: empty_leaf_def row_leaves_Suc t)
    next
      case (Some p)
      then have "p \<notin> F" "p \<notin> row_leaves st i k"
        using F inj_mapD [OF inj Some] by (auto simp: row_leaves_def)
      moreover obtain b where "leaf_heap st p = Some b" using inv Some by (rule smem_inv_leaf_allocated)
      ultimately have "leaf_heap t p = Some b" by (simp add: t without_def drop_keys_notin)
      then show ?thesis using rd Some
        by (simp add: empty_leaf_def free_leaf_def row_leaves_Suc) (simp add: t without_def drop_keys_upd)
    qed
  qed
  then show ?thesis by blast
qed

definition rows_leaves :: "tstate \<Rightarrow> nat \<Rightarrow> leaf_ptr set" where
  "rows_leaves st k = (\<Union>i \<in> {..<k}. row_leaves st i (2 ^ BITPAGE_MIDDLE_BITS))"

definition rows_middles :: "tstate \<Rightarrow> nat \<Rightarrow> middle_ptr set" where
  "rows_middles st k = {m. \<exists>i < k. middle_slot st i = Some m}"

lemma rows_leaves_Suc: "rows_leaves st (Suc k) = rows_leaves st k \<union> row_leaves st k (2 ^ BITPAGE_MIDDLE_BITS)"
  by (simp add: rows_leaves_def lessThan_Suc Un_commute)

lemma rows_middles_Suc:
  "rows_middles st (Suc k) = (case middle_slot st k of None \<Rightarrow> rows_middles st k
     | Some m \<Rightarrow> insert m (rows_middles st k))"
  by (auto simp: rows_middles_def less_Suc_eq split: option.split)

lemma empty_taint_memory_page_table_ok:
  assumes inv: "smem_inv st" and root: "taint_memory_page_table st = Some root"
  shows "empty_taint_memory_page_table st = Some (without st (ran (leaf_slot st)) (ran (middle_slot st)))"
proof -
  note D = smem_invD [OF inv root]
  let ?n = "taint_memory_page_table_root_size st"
  let ?P = "\<lambda>k t. t = without st (rows_leaves st k) (rows_middles st k)"
  have "\<exists>t. foldM empty_middle [0..<?n] st = Some t \<and> ?P ?n t"
  proof (rule foldM_upt_invariant)
    show "?P 0 st" by (simp add: rows_leaves_def rows_middles_def without_empty)
  next
    fix k t assume k: "k < ?n" and t: "?P k t"
    have rd: "read_root t k = Some (middle_slot st k)"
      using root D(1) k by (simp add: t read_root_def without_def middle_slot_def)
    show "\<exists>t'. empty_middle k t = Some t' \<and> ?P (Suc k) t'"
    proof (cases "middle_slot st k")
      case None
      then have "row_leaves st k (2 ^ BITPAGE_MIDDLE_BITS) = {}" by (simp add: row_leaves_def leaf_slot_def)
      then show ?thesis using rd None by (simp add: empty_middle_def rows_leaves_Suc rows_middles_Suc t)
    next
      case (Some m)
      have "m \<notin> rows_middles st k" using inj_mapD [OF D(2) Some] by (auto simp: rows_middles_def)
      moreover have "p \<notin> rows_leaves st k" if "leaf_slot st (k, j) = Some p" for j p
        using inj_mapD [OF D(3) that] by (auto simp: rows_leaves_def row_leaves_def)
      ultimately have "foldM (empty_leaf m) [0..<2 ^ BITPAGE_MIDDLE_BITS] t =
          Some (without st (rows_leaves st (Suc k)) (rows_middles st k))"
        using empty_leaf_loop_ok [OF inv Some, of "rows_middles st k" "rows_leaves st k"]
        by (simp add: t rows_leaves_Suc)
      moreover obtain node where "middle_heap st m = Some node" using inv Some by (rule smem_inv_middle_allocated)
      ultimately show ?thesis using rd Some \<open>m \<notin> rows_middles st k\<close>
        by (simp add: empty_middle_def free_middle_def rows_middles_Suc without_def drop_keys_notin drop_keys_upd)
    qed
  qed
  moreover have "rows_leaves st ?n = ran (leaf_slot st)"
  proof (intro set_eqI iffI)
    fix p assume "p \<in> ran (leaf_slot st)"
    then obtain i j where p: "leaf_slot st (i, j) = Some p" by (auto simp: ran_def)
    then have "i < ?n" "j < 2 ^ BITPAGE_MIDDLE_BITS"
      using root D(1) by (auto simp: leaf_slot_def middle_slot_def split: option.splits if_splits)
    then show "p \<in> rows_leaves st ?n" using p by (auto simp: rows_leaves_def row_leaves_def)
  qed (auto simp: rows_leaves_def row_leaves_def ran_def)
  moreover have "rows_middles st ?n = ran (middle_slot st)"
    using root D(1) by (auto simp: rows_middles_def ran_def middle_slot_def split: if_splits)
  ultimately show ?thesis using root by (simp add: empty_taint_memory_page_table_def)
qed

text \<open>Freeing the rest of a pool.\<close>

lemma free_leaf_slots_ok:
  assumes "\<And>k. lo \<le> k \<Longrightarrow> k < hi \<Longrightarrow> \<exists>p. leaf_pool st k = Some p \<and> leaf_heap st p \<noteq> None"
    and "\<And>k k'. lo \<le> k \<Longrightarrow> k < k' \<Longrightarrow> k' < hi \<Longrightarrow> leaf_pool st k \<noteq> leaf_pool st k'"
  shows "\<exists>lp. foldM free_leaf_slot [lo..<hi] st =
           Some (st\<lparr>leaf_heap := drop_keys (avail hi lo (leaf_pool st)) (leaf_heap st), leaf_pool := lp\<rparr>)"
  using assms
proof (induction "hi - lo" arbitrary: lo st)
  case 0
  then have "avail hi lo (leaf_pool st) = {}" by (auto simp: avail_def)
  then show ?case using 0 by (intro exI [of _ "leaf_pool st"]) simp
next
  case (Suc n)
  then have lt: "lo < hi" by simp
  then obtain p where p: "leaf_pool st lo = Some p" "leaf_heap st p \<noteq> None" using Suc.prems(1) by blast
  let ?st1 = "st\<lparr>leaf_heap := (leaf_heap st)(p := None), leaf_pool := (leaf_pool st)(lo := None)\<rparr>"
  have "\<exists>lp. foldM free_leaf_slot [Suc lo..<hi] ?st1 =
      Some (?st1\<lparr>leaf_heap := drop_keys (avail hi (Suc lo) (leaf_pool ?st1)) (leaf_heap ?st1), leaf_pool := lp\<rparr>)"
  proof (rule Suc.hyps(1))
    show "n = hi - Suc lo" using Suc.hyps(2) by simp
    show "\<exists>q. leaf_pool ?st1 k = Some q \<and> leaf_heap ?st1 q \<noteq> None" if "Suc lo \<le> k" "k < hi" for k
      using Suc.prems(1) [of k] Suc.prems(2) [of lo k] that p by auto
    show "leaf_pool ?st1 k \<noteq> leaf_pool ?st1 k'" if "Suc lo \<le> k" "k < k'" "k' < hi" for k k'
      using Suc.prems(2) [of k k'] that by simp
  qed
  moreover have "avail hi (Suc lo) (leaf_pool ?st1) = avail hi (Suc lo) (leaf_pool st)"
    by (rule avail_cong) simp
  moreover have "avail hi lo (leaf_pool st) = insert p (avail hi (Suc lo) (leaf_pool st))"
    using p(1) lt by (rule avail_step)
  ultimately show ?case using lt p
    by (simp add: upt_conv_Cons free_leaf_slot_def free_leaf_def drop_keys_del)
qed

lemma free_middle_slots_ok:
  assumes "\<And>k. lo \<le> k \<Longrightarrow> k < hi \<Longrightarrow> \<exists>p. middle_pool st k = Some p \<and> middle_heap st p \<noteq> None"
    and "\<And>k k'. lo \<le> k \<Longrightarrow> k < k' \<Longrightarrow> k' < hi \<Longrightarrow> middle_pool st k \<noteq> middle_pool st k'"
  shows "\<exists>mp. foldM free_middle_slot [lo..<hi] st =
           Some (st\<lparr>middle_heap := drop_keys (avail hi lo (middle_pool st)) (middle_heap st), middle_pool := mp\<rparr>)"
  using assms
proof (induction "hi - lo" arbitrary: lo st)
  case 0
  then have "avail hi lo (middle_pool st) = {}" by (auto simp: avail_def)
  then show ?case using 0 by (intro exI [of _ "middle_pool st"]) simp
next
  case (Suc n)
  then have lt: "lo < hi" by simp
  then obtain p where p: "middle_pool st lo = Some p" "middle_heap st p \<noteq> None" using Suc.prems(1) by blast
  let ?st1 = "st\<lparr>middle_heap := (middle_heap st)(p := None), middle_pool := (middle_pool st)(lo := None)\<rparr>"
  have "\<exists>mp. foldM free_middle_slot [Suc lo..<hi] ?st1 =
      Some (?st1\<lparr>middle_heap := drop_keys (avail hi (Suc lo) (middle_pool ?st1)) (middle_heap ?st1), middle_pool := mp\<rparr>)"
  proof (rule Suc.hyps(1))
    show "n = hi - Suc lo" using Suc.hyps(2) by simp
    show "\<exists>q. middle_pool ?st1 k = Some q \<and> middle_heap ?st1 q \<noteq> None" if "Suc lo \<le> k" "k < hi" for k
      using Suc.prems(1) [of k] Suc.prems(2) [of lo k] that p by auto
    show "middle_pool ?st1 k \<noteq> middle_pool ?st1 k'" if "Suc lo \<le> k" "k < k'" "k' < hi" for k k'
      using Suc.prems(2) [of k k'] that by simp
  qed
  moreover have "avail hi (Suc lo) (middle_pool ?st1) = avail hi (Suc lo) (middle_pool st)"
    by (rule avail_cong) simp
  moreover have "avail hi lo (middle_pool st) = insert p (avail hi (Suc lo) (middle_pool st))"
    using p(1) lt by (rule avail_step)
  ultimately show ?case using lt p
    by (simp add: upt_conv_Cons free_middle_slot_def free_middle_def drop_keys_del)
qed

text \<open>Release: no node is freed twice, none is left allocated.\<close>

lemma pool_ok_after_release:
  assumes "pool_ok sz nxt slots heap zero used"
  shows "\<And>k. nxt \<le> k \<Longrightarrow> k < sz \<Longrightarrow> \<exists>p. slots k = Some p \<and> drop_keys used heap p \<noteq> None"
    and "drop_keys (avail sz nxt slots) (drop_keys used heap) = (\<lambda>_. None)"
proof -
  fix k assume k: "nxt \<le> k" "k < sz"
  then obtain p where p: "slots k = Some p" using assms by (auto simp: pool_ok_def)
  then have "p \<in> avail sz nxt slots" using k by (rule availI)
  then have "heap p = Some zero" "p \<notin> used" using assms unfolding pool_ok_def by blast+
  then show "\<exists>p. slots k = Some p \<and> drop_keys used heap p \<noteq> None" using p by (simp add: drop_keys_notin)
next
  have "dom heap = used \<union> avail sz nxt slots" using assms by (simp add: pool_ok_def)
  then show "drop_keys (avail sz nxt slots) (drop_keys used heap) = (\<lambda>_. None)"
    by (auto simp: drop_keys_def fun_eq_iff dom_def)
qed

lemma free_taint_memory_page_table_ok:
  assumes inv: "smem_inv st" and root: "taint_memory_page_table st = Some root"
  obtains st' where "free_taint_memory_page_table st = Some st'" "smem_inv st'"
    "leaf_heap st' = (\<lambda>_. None)" "middle_heap st' = (\<lambda>_. None)" "taint_memory_page_table st' = None"
    "ram_size st' = ram_size st" "events st' = events st"
proof -
  note D = smem_invD [OF inv root]
  let ?st1 = "(without st (ran (leaf_slot st)) (ran (middle_slot st)))\<lparr>taint_memory_page_table := None\<rparr>"
  obtain lp where "foldM free_leaf_slot [leaf_next_available_node ?st1..<BITPAGE_LEAF_POOL_SIZE] ?st1 =
      Some (?st1\<lparr>leaf_heap := drop_keys (avail BITPAGE_LEAF_POOL_SIZE (leaf_next_available_node ?st1) (leaf_pool ?st1)) (leaf_heap ?st1),
                 leaf_pool := lp\<rparr>)"
    using free_leaf_slots_ok [of "leaf_next_available_node ?st1" BITPAGE_LEAF_POOL_SIZE ?st1]
      pool_ok_after_release(1) [OF D(4)] D(4) by (auto simp: without_def pool_ok_def)
  then have f: "foldM free_leaf_slot [leaf_next_available_node ?st1..<BITPAGE_LEAF_POOL_SIZE] ?st1 =
      Some (?st1\<lparr>leaf_heap := (\<lambda>_. None), leaf_pool := lp\<rparr>)" (is "_ = Some ?st2")
    using pool_ok_after_release(2) [OF D(4)] by (simp add: without_def)
  obtain mp where "foldM free_middle_slot [middle_next_available_node ?st2..<BITPAGE_MIDDLE_POOL_SIZE] ?st2 =
      Some (?st2\<lparr>middle_heap := drop_keys (avail BITPAGE_MIDDLE_POOL_SIZE (middle_next_available_node ?st2) (middle_pool ?st2)) (middle_heap ?st2),
                 middle_pool := mp\<rparr>)"
    using free_middle_slots_ok [of "middle_next_available_node ?st2" BITPAGE_MIDDLE_POOL_SIZE ?st2]
      pool_ok_after_release(1) [OF D(5)] D(5) by (auto simp: without_def pool_ok_def)
  then have g: "foldM free_middle_slot [middle_next_available_node ?st2..<BITPAGE_MIDDLE_POOL_SIZE] ?st2 =
      Some (?st2\<lparr>middle_heap := (\<lambda>_. None), middle_pool := mp\<rparr>)" (is "_ = Some ?st3")
    using pool_ok_after_release(2) [OF D(5)] by (simp add: without_def)
  let ?st4 = "?st3\<lparr>leaf_next_available_node := 0, middle_next_available_node := 0\<rparr>"
  have "free_taint_memory_page_table st = Some ?st4"
    using f g by (simp add: free_taint_memory_page_table_def empty_taint_memory_page_table_ok [OF inv root]
        free_pools_def)
  moreover have "smem_inv ?st4" by (simp add: smem_inv_def without_def)
  ultimately show thesis by (rule that) (simp_all add: without_def)
qed

end
