(* ===== verification/Byte_Store.thy ===== *)
theory Byte_Store
  imports Decaf_Prelude
begin

text \<open>
  What the users of the shadow memory rely on: a byte-addressed store that may fail outside its
  range.  The locale states the two laws of a bulk write and a bulk read; the lemmas derived
  from them (read after write, frame, sequences of writes) are instantiated for the shadow
  memory by the interpretation at \<^verbatim>\<open>Shadow_Access\<close>.
\<close>

text \<open>The byte map after storing \<open>bs\<close> at \<open>a\<close>.\<close>

definition put_bytes :: "(nat \<Rightarrow> u8) \<Rightarrow> nat \<Rightarrow> u8 list \<Rightarrow> nat \<Rightarrow> u8" where
  "put_bytes f a bs = (\<lambda>x. if a \<le> x \<and> x < a + length bs then bs ! (x - a) else f x)"

lemma put_bytes_Nil [simp]: "put_bytes f a [] = f"
  by (auto simp: put_bytes_def fun_eq_iff)

lemma put_bytes_append: "put_bytes (put_bytes f a xs) (a + length xs) ys = put_bytes f a (xs @ ys)"
  by (auto simp: put_bytes_def fun_eq_iff nth_append)

lemma put_bytes_same: "(\<And>k. k < length bs \<Longrightarrow> f (a + k) = bs ! k) \<Longrightarrow> put_bytes f a bs = f"
  by (auto simp: put_bytes_def fun_eq_iff) (metis le_add_diff_inverse less_diff_conv2 add.commute)

lemma put_bytes_get: "map (put_bytes f a bs) [a..<a + length bs] = bs"
  by (intro nth_equalityI) (simp_all add: put_bytes_def)

lemma put_bytes_outside: "x < a \<or> a + length bs \<le> x \<Longrightarrow> put_bytes f a bs x = f x"
  by (auto simp: put_bytes_def)

lemma put_bytes_disjoint:
  assumes "b + n \<le> a \<or> a + length bs \<le> b"
  shows "map (put_bytes f a bs) [b..<b + n] = map f [b..<b + n]"
  using assms by (intro map_cong refl put_bytes_outside) auto

locale byte_store =
  fixes ok :: "'s \<Rightarrow> bool"
    and get :: "'s \<Rightarrow> nat \<Rightarrow> u8"
    and inside :: "'s \<Rightarrow> nat \<Rightarrow> nat \<Rightarrow> bool"
    and put :: "nat \<Rightarrow> u8 list \<Rightarrow> 's \<Rightarrow> 's option"
    and fetch :: "nat \<Rightarrow> nat \<Rightarrow> 's \<Rightarrow> u8 list option"
  assumes put_law: "ok s \<Longrightarrow> inside s a (length bs) \<Longrightarrow>
      \<exists>s'. put a bs s = Some s' \<and> ok s' \<and> inside s' = inside s \<and> get s' = put_bytes (get s) a bs"
    and fetch_law: "ok s \<Longrightarrow> inside s a n \<Longrightarrow> fetch a n s = Some (map (get s) [a..<a + n])"
begin

lemma fetch_after_put:
  assumes "ok s" "inside s a (length bs)"
  shows "\<exists>s'. put a bs s = Some s' \<and> ok s' \<and> fetch a (length bs) s' = Some bs"
proof -
  obtain s' where s': "put a bs s = Some s'" "ok s'" "inside s' = inside s" "get s' = put_bytes (get s) a bs"
    using put_law [OF assms] by blast
  then have "fetch a (length bs) s' = Some bs"
    using fetch_law [OF s'(2), of a "length bs"] assms(2) put_bytes_get [of "get s" a bs] by simp
  then show ?thesis using s'(1,2) by blast
qed

lemma fetch_frame:
  assumes "ok s" "inside s a (length bs)" "inside s b n" "b + n \<le> a \<or> a + length bs \<le> b"
    and "put a bs s = Some s'"
  shows "fetch b n s' = fetch b n s"
proof -
  have "ok s'" "inside s' = inside s" "get s' = put_bytes (get s) a bs"
    using put_law [OF assms(1,2)] assms(5) by auto
  then show ?thesis using fetch_law [of s' b n] fetch_law [OF assms(1,3)] assms(3,4)
    by (simp add: put_bytes_disjoint)
qed

text \<open>A sequence of writes, later ones over earlier ones.\<close>

lemma put_sequence:
  assumes "ok s" "\<forall>(a, bs) \<in> set ws. inside s a (length bs)"
  shows "\<exists>s'. foldM (\<lambda>(a, bs). put a bs) ws s = Some s' \<and> ok s' \<and> inside s' = inside s \<and>
           get s' = fold (\<lambda>(a, bs) f. put_bytes f a bs) ws (get s)"
  using assms
proof (induction ws arbitrary: s)
  case Nil
  then show ?case by simp
next
  case (Cons w ws)
  obtain a bs where w: "w = (a, bs)" by fastforce
  obtain s1 where s1: "put a bs s = Some s1" "ok s1" "inside s1 = inside s" "get s1 = put_bytes (get s) a bs"
    using put_law [of s a bs] Cons.prems by (auto simp: w)
  then show ?case using Cons.IH [of s1] Cons.prems by (auto simp: w)
qed

end

end
