(* ===== verification/Shadow_Access.thy ===== *)
theory Shadow_Access
  imports Shadow_Collect Byte_Store
begin

text \<open>
  Accesses to the shadow memory and the console commands of \<^verbatim>\<open>taint_memory.c\<close>: the load and
  store helpers that move taint between memory and \<^verbatim>\<open>env->tempidx\<close>, the bulk operations
  \<^verbatim>\<open>taint_mem\<close> and \<^verbatim>\<open>taint_mem_check\<close>, and the commands that switch tainting on and off.  The
  variant without a second code cache (\<^verbatim>\<open>CONFIG_2nd_CCACHE\<close> undefined) is modelled.  Each
  access is related to the abstract byte map \<open>taint_at\<close>.
\<close>

section \<open>Loads\<close>

definition lookup_leaf :: "ram_addr_t \<Rightarrow> tstate \<Rightarrow> leaf_ptr option option" where
  "lookup_leaf addr st = do {
     middle \<leftarrow> read_root st (middle_node_index addr);
     case middle of
       None \<Rightarrow> Some None
     | Some m \<Rightarrow> read_middle st m (leaf_node_index addr)
   }"

definition is_physial_page_tainted :: "ram_addr_t \<Rightarrow> tstate \<Rightarrow> bool option" where
  "is_physial_page_tainted addr st =
     (if taint_memory_page_table st = None \<or> addr \<ge> ram_size st then Some False
      else map_option (\<lambda>leaf. leaf \<noteq> None) (lookup_leaf addr st))"

definition taint_ldb_raw_paddr :: "ram_addr_t \<Rightarrow> gva_t \<Rightarrow> tstate \<Rightarrow> tstate option" where
  "taint_ldb_raw_paddr addr vaddr st =
     (let st = st\<lparr>tempidx := 0, tempidx2 := 0\<rparr> in
      if taint_memory_page_table st = None \<or> addr \<ge> ram_size st then Some st
      else do {
        leaf \<leftarrow> lookup_leaf addr st;
        case leaf of
          None \<Rightarrow> Some st
        | Some leaf_node \<Rightarrow> do {
            bs \<leftarrow> leaf_read st leaf_node (leaf_offset addr) 1;
            let st = st\<lparr>tempidx := le_word bs\<rparr>;
            Some (if tempidx st \<noteq> 0 \<and> read_taintmem_cb_needed st
                  then emit_event (Read_taintmem_cb vaddr addr 1 bs) st else st)
          }
      })"

definition taint_ldw_raw_paddr :: "ram_addr_t \<Rightarrow> gva_t \<Rightarrow> tstate \<Rightarrow> tstate option" where
  "taint_ldw_raw_paddr addr vaddr st =
     (let st = st\<lparr>tempidx := 0, tempidx2 := 0\<rparr> in
      if taint_memory_page_table st = None \<or> addr \<ge> ram_size st then Some st
      else do {
        leaf \<leftarrow> lookup_leaf addr st;
        case leaf of
          None \<Rightarrow> Some st
        | Some leaf_node \<Rightarrow> do {
            bs \<leftarrow> leaf_read st leaf_node (leaf_offset addr) 2;
            let st = st\<lparr>tempidx := le_word bs\<rparr>;
            Some (if tempidx st \<noteq> 0 \<and> read_taintmem_cb_needed st
                  then emit_event (Read_taintmem_cb vaddr addr 2 bs) st else st)
          }
      })"

definition taint_ldl_raw_paddr :: "ram_addr_t \<Rightarrow> gva_t \<Rightarrow> tstate \<Rightarrow> tstate option" where
  "taint_ldl_raw_paddr addr vaddr st =
     (let st = st\<lparr>tempidx := 0, tempidx2 := 0\<rparr> in
      if taint_memory_page_table st = None \<or> addr \<ge> ram_size st then Some st
      else do {
        leaf \<leftarrow> lookup_leaf addr st;
        case leaf of
          None \<Rightarrow> Some st
        | Some leaf_node \<Rightarrow> do {
            bs \<leftarrow> leaf_read st leaf_node (leaf_offset addr) 4;
            let st = st\<lparr>tempidx := le_word bs\<rparr>;
            Some (if tempidx st \<noteq> 0 \<and> read_taintmem_cb_needed st
                  then emit_event (Read_taintmem_cb vaddr addr 4 bs) st else st)
          }
      })"

text \<open>The second half is read from \<^verbatim>\<open>(addr+4) & LEAF_ADDRESS_MASK\<close> of the same leaf.\<close>

definition taint_ldq_raw_paddr :: "ram_addr_t \<Rightarrow> gva_t \<Rightarrow> tstate \<Rightarrow> tstate option" where
  "taint_ldq_raw_paddr addr vaddr st =
     (let st = st\<lparr>tempidx := 0, tempidx2 := 0\<rparr> in
      if taint_memory_page_table st = None \<or> addr \<ge> ram_size st then Some st
      else do {
        leaf \<leftarrow> lookup_leaf addr st;
        case leaf of
          None \<Rightarrow> Some st
        | Some leaf_node \<Rightarrow> do {
            lo \<leftarrow> leaf_read st leaf_node (leaf_offset addr) 4;
            hi \<leftarrow> leaf_read st leaf_node (leaf_offset (addr + 4)) 4;
            let st = st\<lparr>tempidx := le_word lo, tempidx2 := le_word hi\<rparr>;
            Some (if (tempidx st \<noteq> 0 \<or> tempidx2 st \<noteq> 0) \<and> read_taintmem_cb_needed st
                  then emit_event (Read_taintmem_cb vaddr addr 8 (le_bytes 4 (tempidx st) @ le_bytes 4 (tempidx2 st))) st
                  else st)
          }
      })"

text \<open>
  The \<^verbatim>\<open>_raw\<close> variants take a host pointer; its translation to a RAM address is QEMU's
  \<^verbatim>\<open>qemu_ram_addr_from_host_nofail\<close>, a parameter here.
\<close>

definition taint_ldb_raw :: "('h \<Rightarrow> ram_addr_t) \<Rightarrow> 'h \<Rightarrow> gva_t \<Rightarrow> tstate \<Rightarrow> tstate option" where
  "taint_ldb_raw ram_addr_from_host p vaddr = taint_ldb_raw_paddr (ram_addr_from_host p) vaddr"

definition taint_ldw_raw :: "('h \<Rightarrow> ram_addr_t) \<Rightarrow> 'h \<Rightarrow> gva_t \<Rightarrow> tstate \<Rightarrow> tstate option" where
  "taint_ldw_raw ram_addr_from_host p vaddr = taint_ldw_raw_paddr (ram_addr_from_host p) vaddr"

definition taint_ldl_raw :: "('h \<Rightarrow> ram_addr_t) \<Rightarrow> 'h \<Rightarrow> gva_t \<Rightarrow> tstate \<Rightarrow> tstate option" where
  "taint_ldl_raw ram_addr_from_host p vaddr = taint_ldl_raw_paddr (ram_addr_from_host p) vaddr"

definition taint_ldq_raw :: "('h \<Rightarrow> ram_addr_t) \<Rightarrow> 'h \<Rightarrow> gva_t \<Rightarrow> tstate \<Rightarrow> tstate option" where
  "taint_ldq_raw ram_addr_from_host p vaddr = taint_ldq_raw_paddr (ram_addr_from_host p) vaddr"

section \<open>Stores\<close>

definition taint_stb_raw_paddr :: "ram_addr_t \<Rightarrow> gva_t \<Rightarrow> tstate \<Rightarrow> tstate option" where
  "taint_stb_raw_paddr addr vaddr st =
     (if taint_memory_page_table st = None \<or> addr \<ge> ram_size st then Some st
      else do {
        (leaf, st) \<leftarrow> taint_st_general_i32 addr vaddr (tempidx st AND 0xFF) st;
        case leaf of
          None \<Rightarrow> Some st
        | Some leaf_node \<Rightarrow> do {
            old \<leftarrow> leaf_read st leaf_node (leaf_offset addr) 1;
            st \<leftarrow> leaf_write leaf_node (leaf_offset addr) (le_bytes 1 (tempidx st AND 0xFF)) st;
            new \<leftarrow> leaf_read st leaf_node (leaf_offset addr) 1;
            let before = (le_word old :: u16);
            let after = (le_word new :: u16);
            let changed = (before \<noteq> after \<or> tempidx st AND 0xFF \<noteq> 0);
            Some (if changed \<and> write_taintmem_cb_needed st
                  then emit_event (Write_taintmem_cb vaddr addr 1 new) st else st)
          }
      })"

definition taint_stw_raw_paddr :: "ram_addr_t \<Rightarrow> gva_t \<Rightarrow> tstate \<Rightarrow> tstate option" where
  "taint_stw_raw_paddr addr vaddr st =
     (if taint_memory_page_table st = None \<or> addr \<ge> ram_size st then Some st
      else do {
        (leaf, st) \<leftarrow> taint_st_general_i32 addr vaddr (tempidx st AND 0xFFFF) st;
        case leaf of
          None \<Rightarrow> Some st
        | Some leaf_node \<Rightarrow> do {
            old \<leftarrow> leaf_read st leaf_node (leaf_offset addr) 2;
            st \<leftarrow> leaf_write leaf_node (leaf_offset addr) (le_bytes 2 (tempidx st AND 0xFFFF)) st;
            new \<leftarrow> leaf_read st leaf_node (leaf_offset addr) 2;
            let before = (le_word old :: u16);
            let after = (le_word new :: u16);
            let changed = (before \<noteq> after \<or> tempidx st AND 0xFFFF \<noteq> 0);
            Some (if changed \<and> write_taintmem_cb_needed st
                  then emit_event (Write_taintmem_cb vaddr addr 2 new) st else st)
          }
      })"

text \<open>\<^verbatim>\<open>before\<close> and \<^verbatim>\<open>after\<close> are declared \<^verbatim>\<open>uint16_t\<close> here too: the comparison sees the low half only.\<close>

definition taint_stl_raw_paddr :: "ram_addr_t \<Rightarrow> gva_t \<Rightarrow> tstate \<Rightarrow> tstate option" where
  "taint_stl_raw_paddr addr vaddr st =
     (if taint_memory_page_table st = None \<or> addr \<ge> ram_size st then Some st
      else do {
        (leaf, st) \<leftarrow> taint_st_general_i32 addr vaddr (tempidx st AND 0xFFFFFFFF) st;
        case leaf of
          None \<Rightarrow> Some st
        | Some leaf_node \<Rightarrow> do {
            old \<leftarrow> leaf_read st leaf_node (leaf_offset addr) 4;
            st \<leftarrow> leaf_write leaf_node (leaf_offset addr) (le_bytes 4 (tempidx st AND 0xFFFFFFFF)) st;
            new \<leftarrow> leaf_read st leaf_node (leaf_offset addr) 4;
            let before = (ucast (le_word old :: u32) :: u16);
            let after = (ucast (le_word new :: u32) :: u16);
            let changed = (before \<noteq> after \<or> tempidx st AND 0xFFFFFFFF \<noteq> 0);
            Some (if changed \<and> write_taintmem_cb_needed st
                  then emit_event (Write_taintmem_cb vaddr addr 4 new) st else st)
          }
      })"

text \<open>
  The 64-bit store clears both temporaries first and, where the page has a leaf, writes through
  \<^verbatim>\<open>leaf_node2\<close>, which is still NULL.
\<close>

definition taint_stq_raw_paddr :: "ram_addr_t \<Rightarrow> gva_t \<Rightarrow> tstate \<Rightarrow> tstate option" where
  "taint_stq_raw_paddr addr vaddr st =
     (if taint_memory_page_table st = None \<or> addr \<ge> ram_size st then Some st
      else
        let st = st\<lparr>tempidx := 0, tempidx2 := 0\<rparr>; leaf_node2 = (None :: leaf_ptr option) in do {
        (leaf, st) \<leftarrow> taint_st_general_i32 addr vaddr (if tempidx st \<noteq> 0 \<or> tempidx2 st \<noteq> 0 then 1 else 0) st;
        st \<leftarrow> (case leaf of
                 None \<Rightarrow> Some st
               | Some leaf_node \<Rightarrow> do {
                   st \<leftarrow> leaf_write leaf_node (leaf_offset addr) (le_bytes 4 (tempidx st)) st;
                   p2 \<leftarrow> leaf_node2;
                   leaf_write p2 (leaf_offset (addr + 4)) (le_bytes 4 (tempidx2 st)) st
                 });
        Some (if (tempidx st \<noteq> 0 \<or> tempidx2 st \<noteq> 0) \<and> write_taintmem_cb_needed st
              then emit_event (Write_taintmem_cb vaddr addr 8 (le_bytes 4 (tempidx st) @ le_bytes 4 (tempidx2 st))) st
              else st)
      })"

definition taint_stb_raw :: "('h \<Rightarrow> ram_addr_t) \<Rightarrow> 'h \<Rightarrow> gva_t \<Rightarrow> tstate \<Rightarrow> tstate option" where
  "taint_stb_raw ram_addr_from_host p vaddr = taint_stb_raw_paddr (ram_addr_from_host p) vaddr"

definition taint_stw_raw :: "('h \<Rightarrow> ram_addr_t) \<Rightarrow> 'h \<Rightarrow> gva_t \<Rightarrow> tstate \<Rightarrow> tstate option" where
  "taint_stw_raw ram_addr_from_host p vaddr = taint_stw_raw_paddr (ram_addr_from_host p) vaddr"

definition taint_stl_raw :: "('h \<Rightarrow> ram_addr_t) \<Rightarrow> 'h \<Rightarrow> gva_t \<Rightarrow> tstate \<Rightarrow> tstate option" where
  "taint_stl_raw ram_addr_from_host p vaddr = taint_stl_raw_paddr (ram_addr_from_host p) vaddr"

definition taint_stq_raw :: "('h \<Rightarrow> ram_addr_t) \<Rightarrow> 'h \<Rightarrow> gva_t \<Rightarrow> tstate \<Rightarrow> tstate option" where
  "taint_stq_raw ram_addr_from_host p vaddr = taint_stq_raw_paddr (ram_addr_from_host p) vaddr"

section \<open>Bulk operations\<close>

lemma leaf_offset_less [simp]: "leaf_offset a < 4096"
  by (simp add: leaf_offset_eq)

text \<open>
  \<open>i\<close> and \<open>size\<close> are \<^verbatim>\<open>uint32_t\<close> in the loops; since \<open>i\<close> never passes \<open>size\<close>, natural numbers
  below \<open>2 ^ 32\<close> represent them.  A source or target range outside the caller's buffer is
  undefined.
\<close>

function taint_mem_loop :: "ram_addr_t \<Rightarrow> nat \<Rightarrow> u8 list \<Rightarrow> nat \<Rightarrow> tstate \<Rightarrow> tstate option" where
  "taint_mem_loop addr sz taint i st =
     (if i < sz then
        let offset = leaf_offset (addr + of_nat i);
            len = min (2 ^ BITPAGE_LEAF_BITS - offset) (sz - i);
            chunk = take len (drop i taint);
            is_tainted = (if list_all (\<lambda>b. b = 0) chunk then 0 else 1)
        in if length chunk < len then None
           else do {
             (leaf, st) \<leftarrow> taint_st_general_i32 (addr + of_nat i) 0 is_tainted st;
             st \<leftarrow> (case leaf of None \<Rightarrow> Some st | Some leaf_node \<Rightarrow> leaf_write leaf_node offset chunk st);
             taint_mem_loop addr sz taint (i + len) st
           }
      else Some st)"
  by auto
termination
  by (relation "measure (\<lambda>(addr, sz, taint, i, st). sz - i)")
    (auto simp: BITPAGE_LEAF_BITS_def intro!: diff_less_mono2)

definition taint_mem :: "ram_addr_t \<Rightarrow> nat \<Rightarrow> u8 list \<Rightarrow> tstate \<Rightarrow> tstate option" where
  "taint_mem addr sz taint st = taint_mem_loop addr sz taint 0 st"

function taint_mem_check_loop :: "ram_addr_t \<Rightarrow> nat \<Rightarrow> u8 list \<Rightarrow> nat \<Rightarrow> tstate \<Rightarrow> u8 list option" where
  "taint_mem_check_loop addr sz taint i st =
     (if i < sz then
        let offset = leaf_offset (addr + of_nat i);
            len = min (2 ^ BITPAGE_LEAF_BITS - offset) (sz - i)
        in do {
             leaf \<leftarrow> read_leaf_node_i32 (ucast (addr + of_nat i)) st;
             taint \<leftarrow> (case leaf of
                         None \<Rightarrow> Some taint
                       | Some leaf_node \<Rightarrow>
                           map_option (\<lambda>bs. take i taint @ bs @ drop (i + len) taint) (leaf_read st leaf_node offset len));
             taint_mem_check_loop addr sz taint (i + len) st
           }
      else Some taint)"
  by auto
termination
  by (relation "measure (\<lambda>(addr, sz, taint, i, st). sz - i)")
    (auto simp: BITPAGE_LEAF_BITS_def intro!: diff_less_mono2)

definition taint_mem_check :: "ram_addr_t \<Rightarrow> nat \<Rightarrow> tstate \<Rightarrow> u8 list option" where
  "taint_mem_check addr sz st = taint_mem_check_loop addr sz (replicate sz 0) 0 st"

definition leaf_tainted_bytes :: "tbitpage_leaf_t \<Rightarrow> u32" where
  "leaf_tainted_bytes b = of_nat (length (filter (\<lambda>i. b i \<noteq> 0) [0..<2 ^ BITPAGE_LEAF_BITS]))"

definition count_leaf :: "tstate \<Rightarrow> middle_ptr \<Rightarrow> nat \<Rightarrow> u32 \<Rightarrow> u32 option" where
  "count_leaf st m j n = do {
     leaf \<leftarrow> read_middle st m j;
     case leaf of
       None \<Rightarrow> Some n
     | Some p \<Rightarrow> map_option (\<lambda>b. n + leaf_tainted_bytes b) (leaf_heap st p)
   }"

definition count_middle :: "tstate \<Rightarrow> nat \<Rightarrow> u32 \<Rightarrow> u32 option" where
  "count_middle st i n = do {
     middle \<leftarrow> read_root st i;
     case middle of None \<Rightarrow> Some n | Some m \<Rightarrow> foldM (count_leaf st m) [0..<2 ^ BITPAGE_MIDDLE_BITS] n
   }"

definition calc_tainted_bytes :: "tstate \<Rightarrow> u32 option" where
  "calc_tainted_bytes st =
     (if taint_memory_page_table st = None then Some 0
      else foldM (count_middle st) [0..<taint_memory_page_table_root_size st] 0)"

section \<open>Console commands\<close>

definition do_enable_tainting_internal :: "tstate \<Rightarrow> tstate" where
  "do_enable_tainting_internal st =
     (if \<not> taint_tracking_enabled st then
        let st = emit_event Tb_flush (emit_event Stop_vm st);
            st = allocate_taint_memory_page_table st
        in emit_event Start_vm (st\<lparr>taint_tracking_enabled := True\<rparr>)
      else st)"

definition do_disable_tainting_internal :: "tstate \<Rightarrow> tstate option" where
  "do_disable_tainting_internal st =
     (if taint_tracking_enabled st then do {
        st \<leftarrow> free_taint_memory_page_table (emit_event Tb_flush (emit_event Stop_vm st));
        Some (emit_event Start_vm (st\<lparr>taint_tracking_enabled := False\<rparr>))
      } else Some st)"

definition do_enable_taint_nic_internal :: "tstate \<Rightarrow> tstate" where
  "do_enable_taint_nic_internal st =
     (if \<not> taint_nic_enabled st
      then emit_event Start_vm ((emit_event Stop_vm st)\<lparr>taint_nic_enabled := True\<rparr>) else st)"

definition do_disable_taint_nic_internal :: "tstate \<Rightarrow> tstate" where
  "do_disable_taint_nic_internal st =
     (if taint_nic_enabled st
      then emit_event Start_vm ((emit_event Stop_vm st)\<lparr>taint_nic_enabled := False\<rparr>) else st)"

text \<open>The monitor messages of the commands.\<close>

datatype message =
    Tainting_enabled | Tainting_already_enabled | Tainting_disabled | Tainting_already_disabled
  | Nic_disabled | Nic_already_disabled | Nic_enabled | Nic_already_enabled
  | Ignored_tainting_disabled | No_statistics | Tainted_memory u32
  | Mem_usage u32 u32 u32 nat nat | Collected u32 u32 | Pointers_changed bool bool

definition do_enable_tainting :: "tstate \<Rightarrow> message \<times> tstate" where
  "do_enable_tainting st =
     (if \<not> taint_tracking_enabled st then (Tainting_enabled, do_enable_tainting_internal st)
      else (Tainting_already_enabled, st))"

definition do_disable_tainting :: "tstate \<Rightarrow> (message \<times> tstate) option" where
  "do_disable_tainting st =
     (if taint_tracking_enabled st
      then map_option (\<lambda>st. (Tainting_disabled, st)) (do_disable_tainting_internal st)
      else Some (Tainting_already_disabled, st))"

definition do_taint_nic_off :: "tstate \<Rightarrow> message \<times> tstate" where
  "do_taint_nic_off st =
     (if taint_tracking_enabled st \<and> taint_nic_enabled st then (Nic_disabled, do_disable_taint_nic_internal st)
      else if taint_tracking_enabled st then (Nic_already_disabled, st)
      else (Ignored_tainting_disabled, st))"

definition do_taint_nic_on :: "tstate \<Rightarrow> message \<times> tstate" where
  "do_taint_nic_on st =
     (if taint_tracking_enabled st \<and> \<not> taint_nic_enabled st then (Nic_enabled, do_enable_taint_nic_internal st)
      else if taint_tracking_enabled st then (Nic_already_enabled, st)
      else (Ignored_tainting_disabled, st))"

definition do_tainted_bytes :: "tstate \<Rightarrow> message option" where
  "do_tainted_bytes st =
     (if \<not> taint_tracking_enabled st then Some No_statistics
      else map_option Tainted_memory (calc_tainted_bytes st))"

definition do_taint_mem_usage :: "tstate \<Rightarrow> message" where
  "do_taint_mem_usage st =
     (if \<not> taint_tracking_enabled st then No_statistics
      else Mem_usage (drop_bit 20 (ucast (ram_size st))) (middle_nodes_in_use st) (leaf_nodes_in_use st)
             (BITPAGE_MIDDLE_POOL_SIZE - middle_next_available_node st)
             (BITPAGE_LEAF_POOL_SIZE - leaf_next_available_node st))"

definition do_garbage_collect_taint :: "tstate \<Rightarrow> (message \<times> tstate) option" where
  "do_garbage_collect_taint st =
     (if \<not> taint_tracking_enabled st then Some (Ignored_tainting_disabled, st)
      else do {
        let prior_middle = middle_nodes_in_use st;
        let prior_leaf = leaf_nodes_in_use st;
        st \<leftarrow> garbage_collect_taint True st;
        Some (Collected (prior_middle - middle_nodes_in_use st) (prior_leaf - leaf_nodes_in_use st), st)
      })"

definition do_taint_pointers :: "bool \<Rightarrow> bool \<Rightarrow> tstate \<Rightarrow> message \<times> tstate" where
  "do_taint_pointers load store st =
     (if \<not> taint_tracking_enabled st then (Ignored_tainting_disabled, st)
      else
        let st = (emit_event Stop_vm st)\<lparr>taint_load_pointers_enabled := load, taint_store_pointers_enabled := store\<rparr>
        in (Pointers_changed load store, emit_event Start_vm (emit_event Tb_flush st)))"

section \<open>Addresses of guest memory\<close>

text \<open>
  The table covers the guest's memory when the memory size is a multiple of the 4 MiB a middle
  node spans; \<open>ram_ok\<close> also bounds it by the 4 GiB of a 32-bit guest.
\<close>

definition ram_ok :: "tstate \<Rightarrow> bool" where
  "ram_ok st \<longleftrightarrow>
     unat (ram_size st) = 2 ^ 22 * taint_memory_page_table_root_size st \<and>
     taint_memory_page_table_root_size st \<le> 2 ^ 10"

definition bytes_at :: "tstate \<Rightarrow> nat \<Rightarrow> nat \<Rightarrow> u8 list" where
  "bytes_at st a n = map (taint_at st) [a..<a + n]"

lemma length_bytes_at [simp]: "length (bytes_at st a n) = n"
  by (simp add: bytes_at_def)

lemma nth_bytes_at [simp]: "k < n \<Longrightarrow> bytes_at st a n ! k = taint_at st (a + k)"
  by (simp add: bytes_at_def)

lemma ram_ok_index:
  assumes "ram_ok st" "addr < ram_size st"
  shows "unat addr < 2 ^ 54" and "middle_node_index addr < taint_memory_page_table_root_size st"
proof -
  have "unat addr < 2 ^ 22 * taint_memory_page_table_root_size st"
    using assms by (simp add: ram_ok_def word_less_nat_alt)
  moreover have "2 ^ 22 * taint_memory_page_table_root_size st \<le> 2 ^ 32"
    using assms(1) by (simp add: ram_ok_def)
  ultimately show "unat addr < 2 ^ 54" by simp
  then show "middle_node_index addr < taint_memory_page_table_root_size st"
    using \<open>unat addr < 2 ^ 22 * taint_memory_page_table_root_size st\<close>
    by (simp add: middle_node_index_eq less_mult_imp_div_less mult.commute)
qed

lemma slot_above_ram:
  assumes "smem_inv st" "ram_ok st" "ram_size st \<le> addr" "unat addr \<le> a"
  shows "leaf_slot st (slot_of a) = None"
proof -
  have "2 ^ 22 * taint_memory_page_table_root_size st \<le> a"
    using assms(2-4) by (simp add: ram_ok_def word_le_nat_alt)
  then have "taint_memory_page_table_root_size st \<le> a div 2 ^ 22"
    using div_le_mono [of "2 ^ 22 * taint_memory_page_table_root_size st" a "2 ^ 22"] by simp
  then have "middle_slot st (a div 2 ^ 22) = None"
    using smem_invD(1) [OF assms(1)] by (auto simp: middle_slot_def split: option.split)
  then show ?thesis by (simp add: leaf_slot_def slot_of_def)
qed

lemma taint_at_above_ram:
  "smem_inv st \<Longrightarrow> ram_ok st \<Longrightarrow> ram_size st \<le> addr \<Longrightarrow> unat addr \<le> a \<Longrightarrow> taint_at st a = 0"
  by (simp add: taint_at_def slot_above_ram)

lemma lookup_leaf_ok:
  assumes inv: "smem_inv st" and root: "taint_memory_page_table st = Some root"
    and bound: "middle_node_index addr < taint_memory_page_table_root_size st"
  shows "lookup_leaf addr st = Some (leaf_slot st (middle_node_index addr, leaf_node_index addr))"
proof (cases "middle_slot st (middle_node_index addr)")
  case None
  then show ?thesis using read_root_eq [OF root] smem_invD(1) [OF inv root] bound
    by (simp add: lookup_leaf_def leaf_slot_def)
next
  case (Some m)
  obtain node where "middle_heap st m = Some node" using inv Some by (rule smem_inv_middle_allocated)
  then show ?thesis using read_root_eq [OF root] smem_invD(1) [OF inv root] bound Some
      read_middle_eq [OF Some _ leaf_node_index_less]
    by (simp add: lookup_leaf_def)
qed

lemma leaf_read_bytes:
  assumes p: "leaf_slot st (slot_of a) = Some p" and b: "leaf_heap st p = Some b" and "a mod 2 ^ 12 + n \<le> 2 ^ 12"
  shows "leaf_read st p (a mod 2 ^ 12) n = Some (bytes_at st a n)"
proof -
  have "b (a mod 2 ^ 12 + k) = taint_at st (a + k)" if "k < n" for k
  proof -
    have "a mod 2 ^ 12 + k < 2 ^ 12" using that assms(3) by simp
    then have "(a + k) mod 2 ^ 12 = a mod 2 ^ 12 + k"
      using mod_add_left_eq [of a "2 ^ 12" k] by (simp only: mod_less)
    moreover have "slot_of (a + k) = slot_of a"
      using page_range_iff [OF assms(3), of "a + k"] that by simp
    ultimately show ?thesis using p b by (simp add: taint_at_def)
  qed
  then have "map b [a mod 2 ^ 12..<a mod 2 ^ 12 + n] = bytes_at st a n"
    by (intro nth_equalityI) (simp_all add: bytes_at_def)
  then show ?thesis using b assms(3) by (simp add: leaf_read_def BITPAGE_LEAF_BITS_def)
qed

lemma bytes_at_no_leaf:
  assumes "leaf_slot st (slot_of a) = None" and "a mod 2 ^ 12 + n \<le> 2 ^ 12"
  shows "bytes_at st a n = replicate n 0"
proof (rule nth_equalityI)
  fix k assume "k < length (bytes_at st a n)"
  then have k: "k < n" by simp
  then have "slot_of (a + k) = slot_of a" using page_range_iff [OF assms(2), of "a + k"] by simp
  then show "bytes_at st a n ! k = replicate n 0 ! k"
    using k assms(1) by (simp add: bytes_at_def taint_at_def)
qed simp

lemma le_word_replicate_0 [simp]: "le_word (replicate n 0) = 0"
  by (induction n) simp_all

section \<open>Correctness of loads\<close>

text \<open>The part that the loads share: the bytes the table holds for an access within a page.\<close>

lemma load_bytes_ok:
  assumes inv: "smem_inv st" and ram: "ram_ok st" and alloc: "taint_memory_page_table st \<noteq> None"
    and addr: "addr < ram_size st" and page: "unat addr mod 2 ^ 12 + n \<le> 2 ^ 12"
  shows "lookup_leaf addr st = Some (leaf_slot st (slot_of (unat addr)))"
    and "leaf_slot st (slot_of (unat addr)) = None \<Longrightarrow> bytes_at st (unat addr) n = replicate n 0"
    and "leaf_slot st (slot_of (unat addr)) = Some p \<Longrightarrow>
           leaf_read st p (leaf_offset addr) n = Some (bytes_at st (unat addr) n)"
proof -
  obtain root where root: "taint_memory_page_table st = Some root" using alloc by auto
  note idx = ram_ok_index [OF ram addr]
  show "lookup_leaf addr st = Some (leaf_slot st (slot_of (unat addr)))"
    using lookup_leaf_ok [OF inv root idx(2)] slot_of_address [OF idx(1)] by simp
  show "bytes_at st (unat addr) n = replicate n 0" if "leaf_slot st (slot_of (unat addr)) = None"
    using that page by (rule bytes_at_no_leaf)
  show "leaf_read st p (leaf_offset addr) n = Some (bytes_at st (unat addr) n)"
    if p: "leaf_slot st (slot_of (unat addr)) = Some p"
  proof -
    obtain b where "leaf_heap st p = Some b" using inv p by (rule smem_inv_leaf_allocated)
    then show ?thesis using leaf_read_bytes [OF p _ page] by (simp add: leaf_offset_eq)
  qed
qed

lemma bytes_at_above_ram:
  assumes "smem_inv st" "ram_ok st" "ram_size st \<le> addr"
  shows "bytes_at st (unat addr) n = replicate n 0"
  by (rule nth_equalityI) (simp_all add: bytes_at_def taint_at_above_ram [OF assms])

text \<open>What a load of \<open>n\<close> bytes must do: taint to \<^verbatim>\<open>tempidx\<close>, a callback if there is taint.\<close>

definition load_spec :: "nat \<Rightarrow> ram_addr_t \<Rightarrow> gva_t \<Rightarrow> tstate \<Rightarrow> tstate" where
  "load_spec n addr vaddr st =
     (let bs = bytes_at st (unat addr) n;
          st = st\<lparr>tempidx := le_word bs, tempidx2 := 0\<rparr>
      in if tempidx st \<noteq> 0 \<and> read_taintmem_cb_needed st
         then emit_event (Read_taintmem_cb vaddr addr n bs) st else st)"

lemma temp_update_view:
  "smem_inv (st\<lparr>tempidx := t, tempidx2 := t2\<rparr>) = smem_inv st"
  "leaf_slot (st\<lparr>tempidx := t, tempidx2 := t2\<rparr>) = leaf_slot st"
  "taint_at (st\<lparr>tempidx := t, tempidx2 := t2\<rparr>) = taint_at st"
  "bytes_at (st\<lparr>tempidx := t, tempidx2 := t2\<rparr>) = bytes_at st"
  "ram_ok (st\<lparr>tempidx := t, tempidx2 := t2\<rparr>) = ram_ok st"
proof -
  have same: "same_smem st (st\<lparr>tempidx := t, tempidx2 := t2\<rparr>)" by (simp add: same_smem_def)
  show "smem_inv (st\<lparr>tempidx := t, tempidx2 := t2\<rparr>) = smem_inv st"
    "leaf_slot (st\<lparr>tempidx := t, tempidx2 := t2\<rparr>) = leaf_slot st"
    "taint_at (st\<lparr>tempidx := t, tempidx2 := t2\<rparr>) = taint_at st"
    using same_smem_view [OF same] by simp_all
  then show "bytes_at (st\<lparr>tempidx := t, tempidx2 := t2\<rparr>) = bytes_at st" by (simp add: bytes_at_def fun_eq_iff)
  show "ram_ok (st\<lparr>tempidx := t, tempidx2 := t2\<rparr>) = ram_ok st" by (simp add: ram_ok_def)
qed

text \<open>The three narrow loads are one load at different widths.\<close>

definition taint_ld :: "nat \<Rightarrow> ram_addr_t \<Rightarrow> gva_t \<Rightarrow> tstate \<Rightarrow> tstate option" where
  "taint_ld n addr vaddr st =
     (let st = st\<lparr>tempidx := 0, tempidx2 := 0\<rparr> in
      if taint_memory_page_table st = None \<or> addr \<ge> ram_size st then Some st
      else do {
        leaf \<leftarrow> lookup_leaf addr st;
        case leaf of
          None \<Rightarrow> Some st
        | Some leaf_node \<Rightarrow> do {
            bs \<leftarrow> leaf_read st leaf_node (leaf_offset addr) n;
            let st = st\<lparr>tempidx := le_word bs\<rparr>;
            Some (if tempidx st \<noteq> 0 \<and> read_taintmem_cb_needed st
                  then emit_event (Read_taintmem_cb vaddr addr n bs) st else st)
          }
      })"

lemma taint_ld_instances:
  "taint_ldb_raw_paddr = taint_ld 1" "taint_ldw_raw_paddr = taint_ld 2" "taint_ldl_raw_paddr = taint_ld 4"
  by (simp_all only: taint_ld_def taint_ldb_raw_paddr_def taint_ldw_raw_paddr_def taint_ldl_raw_paddr_def fun_eq_iff simp_thms)

lemma taint_ld_ok:
  assumes inv: "smem_inv st" and ram: "ram_ok st" and alloc: "taint_memory_page_table st \<noteq> None"
    and page: "unat addr mod 2 ^ 12 + n \<le> 2 ^ 12"
  shows "taint_ld n addr vaddr st = Some (load_spec n addr vaddr st)"
proof (cases "ram_size st \<le> addr")
  case True
  then show ?thesis using bytes_at_above_ram [OF inv ram True]
    by (simp add: taint_ld_def load_spec_def Let_def)
next
  case False
  let ?st0 = "st\<lparr>tempidx := 0, tempidx2 := 0\<rparr>"
  have st0: "smem_inv ?st0" "ram_ok ?st0" "taint_memory_page_table ?st0 \<noteq> None" "addr < ram_size ?st0"
    using inv ram alloc False by (simp_all add: temp_update_view)
  note L = load_bytes_ok [OF st0 page, unfolded temp_update_view]
  have notin: "\<not> (taint_memory_page_table ?st0 = None \<or> ram_size ?st0 \<le> addr)" using st0 by simp
  show ?thesis
  proof (cases "leaf_slot st (slot_of (unat addr))")
    case None
    then show ?thesis using L(2) [OF None]
      by (simp only: taint_ld_def Let_def if_not_P [OF notin] L(1)) (simp add: load_spec_def Let_def)
  next
    case (Some p)
    show ?thesis
      by (simp only: taint_ld_def Let_def if_not_P [OF notin] L(1) Some bind.bind_lunit option.case L(3) [OF Some])
        (simp add: load_spec_def Let_def emit_event_def)
  qed
qed

section \<open>Correctness of stores\<close>

lemma ram_ok_frame: "ctl_frame st st' \<Longrightarrow> ram_ok st' = ram_ok st"
  by (simp add: ctl_frame_def ram_ok_def)

text \<open>Store of bytes within a page, when \<open>t\<close> tells whether there is taint among them.\<close>

lemma store_leaf_ok:
  assumes inv: "smem_inv st" and root: "taint_memory_page_table st = Some root"
    and bound: "middle_node_index addr < length root" "unat addr < 2 ^ 54"
    and page: "unat addr mod 2 ^ 12 + length bs \<le> 2 ^ 12"
    and zero: "t = 0 \<longrightarrow> list_all (\<lambda>b. b = 0) bs"
  obtains
    (nil) st1 where "taint_st_general_i32 addr vaddr t st = Some (None, st1)" "t = 0"
      "smem_inv st1" "ctl_frame st st1" "taint_at st1 = put_bytes (taint_at st) (unat addr) bs"
  | (leaf) p st1 st2 where "taint_st_general_i32 addr vaddr t st = Some (Some p, st1)"
      "leaf_slot st1 (slot_of (unat addr)) = Some p" "smem_inv st1" "ctl_frame st st1" "taint_at st1 = taint_at st"
      "leaf_write p (leaf_offset addr) bs st1 = Some st2" "leaf_slot st2 (slot_of (unat addr)) = Some p"
      "smem_inv st2" "ctl_frame st st2" "taint_at st2 = put_bytes (taint_at st) (unat addr) bs"
proof -
  let ?a = "unat addr"
  note slot = slot_of_address [OF bound(2)]
  obtain r st1 where g: "taint_st_general_i32 addr vaddr t st = Some (r, st1)"
    "smem_inv st1" "ctl_frame st st1" "taint_at st1 = taint_at st"
    "r = leaf_slot st1 (slot_of ?a)" "r = None \<Longrightarrow> t = 0"
    using taint_st_general_i32_ok [OF inv root bound(1)] unfolding slot by blast
  show thesis
  proof (cases r)
    case None
    have "bytes_at st1 ?a (length bs) = replicate (length bs) 0"
      using bytes_at_no_leaf [OF _ page, of st1] None g(5) by simp
    then have "bytes_at st1 ?a (length bs) ! k = 0" if "k < length bs" for k
      using that by simp
    then have "taint_at st (?a + k) = 0" if "k < length bs" for k
      using that g(4) by simp
    moreover have "bs ! k = 0" if "k < length bs" for k
      using zero g(6) [OF None] that by (simp add: list_all_length)
    ultimately have "put_bytes (taint_at st) ?a bs = taint_at st" by (intro put_bytes_same) simp
    then show thesis using nil g None by simp
  next
    case (Some p)
    then have p: "leaf_slot st1 (slot_of ?a) = Some p" using g(5) by simp
    have "leaf_offset addr + length bs \<le> 2 ^ BITPAGE_LEAF_BITS"
      using page by (simp add: leaf_offset_eq BITPAGE_LEAF_BITS_def)
    then obtain b st2 where w: "leaf_heap st1 p = Some b" "leaf_write p (leaf_offset addr) bs st1 = Some st2"
      "st2 = st1\<lparr>leaf_heap := (leaf_heap st1)(p \<mapsto> write_bytes b (leaf_offset addr) bs)\<rparr>"
      "smem_inv st2" "leaf_slot st2 = leaf_slot st1"
      "content st2 = (content st1)(slot_of ?a \<mapsto> write_bytes b (leaf_offset addr) bs)"
      using leaf_write_ok [OF g(2) p] by blast
    have "taint_at st2 = put_bytes (taint_at st) ?a bs"
      using taint_at_write_bytes [OF w(6) [unfolded leaf_offset_eq] _ page] p w(1) g(4)
      by (simp add: put_bytes_def fun_eq_iff content_def)
    moreover have "ctl_frame st st2"
      using ctl_frame_trans [OF g(3), of st2] by (simp add: w(3) ctl_frame_def)
    ultimately show thesis using leaf g w Some p by simp
  qed
qed

text \<open>The narrow stores at once: \<open>c\<close> is the value whose low \<open>n\<close> bytes are stored, \<open>conv\<close> the type of \<^verbatim>\<open>before\<close>.\<close>

definition taint_st :: "nat \<Rightarrow> u32 \<Rightarrow> (u8 list \<Rightarrow> u16) \<Rightarrow> ram_addr_t \<Rightarrow> gva_t \<Rightarrow> tstate \<Rightarrow> tstate option" where
  "taint_st n msk conv addr vaddr st =
     (if taint_memory_page_table st = None \<or> addr \<ge> ram_size st then Some st
      else do {
        (leaf, st) \<leftarrow> taint_st_general_i32 addr vaddr (tempidx st AND msk) st;
        case leaf of
          None \<Rightarrow> Some st
        | Some leaf_node \<Rightarrow> do {
            old \<leftarrow> leaf_read st leaf_node (leaf_offset addr) n;
            st \<leftarrow> leaf_write leaf_node (leaf_offset addr) (le_bytes n (tempidx st AND msk)) st;
            new \<leftarrow> leaf_read st leaf_node (leaf_offset addr) n;
            let before = conv old;
            let after = conv new;
            let changed = (before \<noteq> after \<or> tempidx st AND msk \<noteq> 0);
            Some (if changed \<and> write_taintmem_cb_needed st
                  then emit_event (Write_taintmem_cb vaddr addr n new) st else st)
          }
      })"

lemma taint_st_instances:
  "taint_stb_raw_paddr = taint_st 1 0xFF le_word"
  "taint_stw_raw_paddr = taint_st 2 0xFFFF le_word"
  "taint_stl_raw_paddr = taint_st 4 0xFFFFFFFF (\<lambda>bs. ucast (le_word bs :: u32))"
  by (simp_all only: taint_st_def taint_stb_raw_paddr_def taint_stw_raw_paddr_def taint_stl_raw_paddr_def
      fun_eq_iff simp_thms)

lemma le_bytes_0 [simp]: "le_bytes n 0 = replicate n 0"
  by (simp add: le_bytes_def map_replicate_trivial)

lemma le_bytes_cong:
  assumes "\<And>i. i < 8 * n \<Longrightarrow> bit v i = bit w i"
  shows "le_bytes n v = le_bytes n w"
  by (rule nth_equalityI) (auto intro!: bit_word_eqI simp: bit_ucast_iff bit_drop_bit_eq assms)

lemma taint_st_ok:
  assumes inv: "smem_inv st" and ram: "ram_ok st" and alloc: "taint_memory_page_table st \<noteq> None"
    and addr: "addr < ram_size st" and page: "unat addr mod 2 ^ 12 + n \<le> 2 ^ 12"
    and msk: "\<And>i. i < 8 * n \<Longrightarrow> bit msk i"
  obtains st' where "taint_st n msk conv addr vaddr st = Some st'" "smem_inv st'" "ctl_frame st st'"
    "taint_at st' = put_bytes (taint_at st) (unat addr) (le_bytes n (tempidx st))"
proof -
  obtain root where root: "taint_memory_page_table st = Some root" using alloc by auto
  let ?a = "unat addr" and ?t = "tempidx st AND msk" and ?bs = "le_bytes n (tempidx st)"
  have bs: "le_bytes n ?t = ?bs" by (rule le_bytes_cong) (simp add: bit_and_iff msk)
  have idx: "unat addr < 2 ^ 54" "middle_node_index addr < length root"
    using ram_ok_index [OF ram addr] smem_invD(1) [OF inv root] by simp_all
  have page': "?a mod 2 ^ 12 + length ?bs \<le> 2 ^ 12" using page by simp
  have zero: "?t = 0 \<longrightarrow> list_all (\<lambda>b. b = 0) ?bs"
    unfolding bs [symmetric] by (simp add: list_all_iff)
  have notin: "\<not> (taint_memory_page_table st = None \<or> ram_size st \<le> addr)" using alloc addr by simp
  show thesis
  proof (cases rule: store_leaf_ok [OF inv root idx(2,1) page' zero, where vaddr = vaddr, case_names nil leaf])
    case (nil st1)
    then show thesis
      by (intro that [of st1]) (simp_all only: taint_st_def if_not_P [OF notin], simp)
  next
    case (leaf p st1 st2)
    have frame: "tempidx st1 = tempidx st" "tempidx st2 = tempidx st"
      using leaf by (simp_all add: ctl_frame_def)
    have read: "leaf_read st' p (leaf_offset addr) n = Some (bytes_at st' ?a n)"
      if "smem_inv st'" "leaf_slot st' (slot_of ?a) = Some p" for st'
      using smem_inv_leaf_allocated [OF that] leaf_read_bytes [OF that(2) _ page]
      by (metis leaf_offset_eq)
    let ?new = "bytes_at st2 ?a n"
    let ?st' = "if (conv (bytes_at st1 ?a n) \<noteq> conv ?new \<or> ?t \<noteq> 0) \<and> write_taintmem_cb_needed st2
                then emit_event (Write_taintmem_cb vaddr addr n ?new) st2 else st2"
    have "taint_st n msk conv addr vaddr st = Some ?st'"
      using leaf frame read [of st1] read [of st2] bs
      by (simp only: taint_st_def if_not_P [OF notin] Let_def bind.bind_lunit prod.case option.case)
    then show thesis using leaf by (intro that [of ?st']) simp_all
  qed
qed

section \<open>Correctness of the bulk operations\<close>

lemma unat_add_of_nat:
  fixes addr :: u64
  assumes "unat addr + n < 2 ^ 64"
  shows "unat (addr + of_nat n) = unat addr + n"
proof -
  have "unat (of_nat n :: u64) = n" using assms by (simp add: unsigned_of_nat take_bit_nat_eq_self)
  then show ?thesis using assms by (simp add: unat_word_ariths)
qed

declare taint_mem_loop.simps [simp del] taint_mem_check_loop.simps [simp del]

lemma taint_mem_loop_ok:
  assumes "smem_inv st" and "taint_memory_page_table st = Some root"
    and "unat addr + sz \<le> 2 ^ 22 * length root" "length root \<le> 2 ^ 10"
    and "sz \<le> length taint" "i \<le> sz"
  shows "\<exists>st'. taint_mem_loop addr sz taint i st = Some st' \<and> smem_inv st' \<and> ctl_frame st st' \<and>
           taint_at st' = put_bytes (taint_at st) (unat addr + i) (drop i (take sz taint))"
  using assms
proof (induction addr sz taint i st arbitrary: root rule: taint_mem_loop.induct)
  case (1 addr sz taint i st)
  show ?case
  proof (cases "i < sz")
    case False
    then show ?thesis using 1(2,7) by (subst taint_mem_loop.simps) simp
  next
    case True
    let ?a = "addr + of_nat i :: u64"
    define len where "len = min (2 ^ BITPAGE_LEAF_BITS - leaf_offset ?a) (sz - i)"
    define chunk where "chunk = take len (drop i taint)"
    define t where "t = (if list_all (\<lambda>b. b = 0) chunk then 0 else 1 :: u32)"
    have unfolded: "taint_mem_loop addr sz taint i st = (if length chunk < len then None
         else do {
           (leaf, st) \<leftarrow> taint_st_general_i32 ?a 0 t st;
           st \<leftarrow> (case leaf of None \<Rightarrow> Some st | Some leaf_node \<Rightarrow> leaf_write leaf_node (leaf_offset ?a) chunk st);
           taint_mem_loop addr sz taint (i + len) st
         })"
      by (subst taint_mem_loop.simps) (simp only: True if_True Let_def len_def chunk_def t_def)
    have bound: "2 ^ 22 * length root \<le> 2 ^ 32" using 1(5) by simp
    have a: "unat ?a = unat addr + i" using 1(4) bound True by (intro unat_add_of_nat) simp
    have idx: "unat ?a < 2 ^ 54" "middle_node_index ?a < length root"
    proof -
      show "unat ?a < 2 ^ 54" using 1(4) bound True a by simp
      then show "middle_node_index ?a < length root"
        using 1(4) True a by (simp add: middle_node_index_eq less_mult_imp_div_less mult.commute)
    qed
    have chunk: "length chunk = len" using 1(6) by (simp add: chunk_def len_def)
    have page: "unat ?a mod 2 ^ 12 + length chunk \<le> 2 ^ 12"
      unfolding chunk by (simp add: len_def leaf_offset_eq BITPAGE_LEAF_BITS_def)
    have zero: "t = 0 \<longrightarrow> list_all (\<lambda>b. b = 0) chunk" by (simp add: t_def)
    obtain st2 where st2: "smem_inv st2" "ctl_frame st st2" "taint_at st2 = put_bytes (taint_at st) (unat ?a) chunk"
      and step: "taint_mem_loop addr sz taint i st = taint_mem_loop addr sz taint (i + len) st2"
      and IH: "\<And>root. \<lbrakk>smem_inv st2; taint_memory_page_table st2 = Some root; unat addr + sz \<le> 2 ^ 22 * length root;
            length root \<le> 2 ^ 10; sz \<le> length taint; i + len \<le> sz\<rbrakk> \<Longrightarrow>
          \<exists>st'. taint_mem_loop addr sz taint (i + len) st2 = Some st' \<and> smem_inv st' \<and> ctl_frame st2 st' \<and>
            taint_at st' = put_bytes (taint_at st2) (unat addr + (i + len)) (drop (i + len) (take sz taint))"
    proof (cases rule: store_leaf_ok [OF 1(2,3) idx(2,1) page zero, where vaddr = 0, case_names nil leaf])
      case (nil st1)
      have "taint_mem_loop addr sz taint i st = taint_mem_loop addr sz taint (i + len) st1"
        using nil by (simp add: unfolded chunk)
      moreover note IH = 1(1) [OF True refl refl refl refl, folded len_def, folded chunk_def, folded t_def]
      ultimately show thesis using nil chunk that by fastforce
    next
      case (leaf p st1 st2)
      have "taint_mem_loop addr sz taint i st = taint_mem_loop addr sz taint (i + len) st2"
        using leaf by (simp add: unfolded chunk)
      moreover note IH = 1(1) [OF True refl refl refl refl, folded len_def, folded chunk_def, folded t_def]
      ultimately show thesis using leaf chunk that by fastforce
    qed
    obtain root2 where root2: "taint_memory_page_table st2 = Some root2" "length root2 = length root"
      using st2(1,2) 1(2,3) smem_invD(1) by (fastforce simp: ctl_frame_def)
    have "i + len \<le> sz" using True by (simp add: len_def)
    then obtain st' where "taint_mem_loop addr sz taint (i + len) st2 = Some st'" "smem_inv st'" "ctl_frame st2 st'"
      "taint_at st' = put_bytes (taint_at st2) (unat addr + (i + len)) (drop (i + len) (take sz taint))"
      using IH [OF st2(1) root2(1)] root2(2) 1(4-6) by auto
    moreover have "put_bytes (taint_at st2) (unat addr + (i + len)) (drop (i + len) (take sz taint)) =
        put_bytes (taint_at st) (unat addr + i) (drop i (take sz taint))"
    proof -
      have "chunk @ drop (i + len) (take sz taint) = drop i (take sz taint)"
      proof -
        have "take len (drop i (take sz taint)) = chunk"
          using \<open>i + len \<le> sz\<close> by (simp add: chunk_def drop_take min_absorb1)
        then show ?thesis
          using append_take_drop_id [of len "drop i (take sz taint)"] by (simp add: add.commute)
      qed
      then show ?thesis
        using put_bytes_append [of "taint_at st" "unat addr + i" chunk "drop (i + len) (take sz taint)"]
        by (simp add: st2(3) a chunk add.assoc)
    qed
    ultimately show ?thesis using step ctl_frame_trans [OF st2(2)] by auto
  qed
qed

lemma read_leaf_node_i32_ok:
  assumes inv: "smem_inv st" and ram: "ram_ok st" and alloc: "taint_memory_page_table st \<noteq> None"
    and a: "unat (a :: u64) < 2 ^ 32"
  shows "read_leaf_node_i32 (ucast a) st = Some (leaf_slot st (slot_of (unat a)))"
proof -
  have u: "unat (ucast a :: u32) = unat a"
    using a by (simp add: unsigned_ucast_eq take_bit_nat_eq_self)
  then have uu: "ucast (ucast a :: u32) = a" 
    using a by (simp add: word_unat_eq_iff unsigned_ucast_eq unsigned_take_bit_eq take_bit_nat_eq_self)
  have idx: "middle_node_index (ucast a :: u32) = middle_node_index a" "leaf_node_index (ucast a :: u32) = leaf_node_index a"
    using a by (simp_all add: middle_node_index_eq leaf_node_index_eq u)
  show ?thesis
  proof (cases "ram_size st \<le> a")
    case True
    then show ?thesis using slot_above_ram [OF inv ram True] by (simp add: read_leaf_node_i32_def uu)
  next
    case False
    then have "lookup_leaf a st = Some (leaf_slot st (slot_of (unat a)))"
      using load_bytes_ok(1) [OF inv ram alloc, of a 0] by simp
    then show ?thesis using False by (simp add: read_leaf_node_i32_def uu idx lookup_leaf_def)
  qed
qed

lemma bytes_at_add: "bytes_at st a (m + n) = bytes_at st a m @ bytes_at st (a + m) n"
  using upt_add_eq_append [of a "a + m" n] by (simp add: bytes_at_def add.assoc)

lemma taint_mem_check_loop_ok:
  assumes "smem_inv st" "ram_ok st" "taint_memory_page_table st \<noteq> None"
    and "unat addr + sz \<le> 2 ^ 32" "length taint = sz" "i \<le> sz" "drop i taint = replicate (sz - i) 0"
  shows "taint_mem_check_loop addr sz taint i st = Some (take i taint @ bytes_at st (unat addr + i) (sz - i))"
  using assms
proof (induction addr sz taint i st rule: taint_mem_check_loop.induct)
  case (1 addr sz taint i st)
  show ?case
  proof (cases "i < sz")
    case False
    then show ?thesis using 1(6,7) by (subst taint_mem_check_loop.simps) (simp add: bytes_at_def)
  next
    case True
    let ?a = "addr + of_nat i :: u64"
    define len where "len = min (2 ^ BITPAGE_LEAF_BITS - leaf_offset ?a) (sz - i)"
    have unfolded: "taint_mem_check_loop addr sz taint i st = do {
         leaf \<leftarrow> read_leaf_node_i32 (ucast ?a) st;
         taint \<leftarrow> (case leaf of
                     None \<Rightarrow> Some taint
                   | Some leaf_node \<Rightarrow>
                       map_option (\<lambda>bs. take i taint @ bs @ drop (i + len) taint) (leaf_read st leaf_node (leaf_offset ?a) len));
         taint_mem_check_loop addr sz taint (i + len) st
       }"
      by (subst taint_mem_check_loop.simps) (simp only: True if_True Let_def len_def)
    have a: "unat ?a = unat addr + i" "unat ?a < 2 ^ 32"
      using 1(5) True unat_add_of_nat [of addr i] by simp_all
    have page: "unat ?a mod 2 ^ 12 + len \<le> 2 ^ 12"
      by (simp add: len_def leaf_offset_eq BITPAGE_LEAF_BITS_def)
    have len: "i + len \<le> sz" using True by (simp add: len_def)
    have rd: "read_leaf_node_i32 (ucast ?a) st = Some (leaf_slot st (slot_of (unat ?a)))"
      using read_leaf_node_i32_ok [OF 1(2-4) a(2)] .
    define buf where "buf = take i taint @ bytes_at st (unat ?a) len @ drop (i + len) taint"
    have zeros: "drop (i + len) taint = replicate (sz - (i + len)) 0"
      using arg_cong [OF 1(8), of "drop len"] by (simp add: add.commute)
    have upd: "(case leaf_slot st (slot_of (unat ?a)) of
          None \<Rightarrow> Some taint
        | Some leaf_node \<Rightarrow>
            map_option (\<lambda>bs. take i taint @ bs @ drop (i + len) taint) (leaf_read st leaf_node (leaf_offset ?a) len)) = Some buf"
    proof (cases "leaf_slot st (slot_of (unat ?a))")
      case None
      have "take len (drop i taint) = bytes_at st (unat ?a) len"
        using bytes_at_no_leaf [OF None page] len by (simp add: 1(8))
      then have "buf = taint" unfolding buf_def
        by (metis append_take_drop_id add.commute drop_drop)
      then show ?thesis using None by simp
    next
      case (Some p)
      obtain b where "leaf_heap st p = Some b" using 1(2) Some by (rule smem_inv_leaf_allocated)
      then have "leaf_read st p (leaf_offset ?a) len = Some (bytes_at st (unat ?a) len)"
        using leaf_read_bytes [OF Some _ page] by (simp add: leaf_offset_eq)
      then show ?thesis using Some by (simp add: buf_def)
    qed
    have step: "taint_mem_check_loop addr sz taint i st = taint_mem_check_loop addr sz buf (i + len) st"
      by (simp only: unfolded rd upd bind.bind_lunit)
    have "length buf = sz" "drop (i + len) buf = replicate (sz - (i + len)) 0"
      using len True zeros 1(6) by (simp_all add: buf_def)
    then have "taint_mem_check_loop addr sz buf (i + len) st =
        Some (take (i + len) buf @ bytes_at st (unat addr + (i + len)) (sz - (i + len)))"
      using 1(1) [OF True refl refl rd, folded len_def, OF upd] 1(2-5) len by blast
    moreover have "take (i + len) buf = take i taint @ bytes_at st (unat ?a) len"
      using 1(6) True by (simp add: buf_def)
    ultimately show ?thesis using step bytes_at_add [of st "unat addr + i" len "sz - (i + len)"] len
      by (simp add: a add.assoc)
  qed
qed

section \<open>Counting tainted bytes\<close>

definition slot_weight :: "tstate \<Rightarrow> nat \<times> nat \<Rightarrow> nat" where
  "slot_weight st s = (case content st s of None \<Rightarrow> 0 | Some b \<Rightarrow> card {k. k < 2 ^ 12 \<and> b k \<noteq> 0})"

lemma leaf_tainted_bytes_eq: "leaf_tainted_bytes b = of_nat (card {k. k < 2 ^ 12 \<and> b k \<noteq> 0})"
proof -
  have "length (filter (\<lambda>i. b i \<noteq> 0) [0..<2 ^ 12]) = card (set (filter (\<lambda>i. b i \<noteq> 0) [0..<2 ^ 12]))"
    by (rule distinct_card [symmetric]) simp
  also have "set (filter (\<lambda>i. b i \<noteq> 0) [0..<2 ^ 12]) = {k. k < 2 ^ 12 \<and> b k \<noteq> 0}"
    by (auto simp del: power_numeral)
  finally show ?thesis by (simp add: leaf_tainted_bytes_def BITPAGE_LEAF_BITS_def del: power_numeral)
qed

lemma count_middle_ok:
  assumes inv: "smem_inv st" and root: "taint_memory_page_table st = Some root"
    and i: "i < taint_memory_page_table_root_size st"
  shows "count_middle st i n = Some (n + of_nat (\<Sum>j < 2 ^ BITPAGE_MIDDLE_BITS. slot_weight st (i, j)))"
proof -
  have rd: "read_root st i = Some (middle_slot st i)"
    using read_root_eq [OF root] smem_invD(1) [OF inv root] i by simp
  show ?thesis
  proof (cases "middle_slot st i")
    case None
    then have "slot_weight st (i, j) = 0" for j by (simp add: slot_weight_def content_def leaf_slot_def)
    then show ?thesis using rd None by (simp add: count_middle_def)
  next
    case (Some m)
    obtain node where "middle_heap st m = Some node" using inv Some by (rule smem_inv_middle_allocated)
    then have rdm: "read_middle st m j = Some (leaf_slot st (i, j))" if "j < 2 ^ BITPAGE_MIDDLE_BITS" for j
      using that read_middle_eq [OF Some] by simp
    have "\<exists>s. foldM (count_leaf st m) [0..<2 ^ BITPAGE_MIDDLE_BITS] n = Some s \<and>
        s = n + of_nat (\<Sum>j < 2 ^ BITPAGE_MIDDLE_BITS. slot_weight st (i, j))"
    proof (rule foldM_upt_invariant [where P = "\<lambda>k s. s = n + of_nat (\<Sum>j < k. slot_weight st (i, j))"])
      fix k s assume k: "k < (2::nat) ^ BITPAGE_MIDDLE_BITS" and s: "s = n + of_nat (\<Sum>j < k. slot_weight st (i, j))"
      show "\<exists>s'. count_leaf st m k s = Some s' \<and> s' = n + of_nat (\<Sum>j < Suc k. slot_weight st (i, j))"
      proof (cases "leaf_slot st (i, k)")
        case None
        then show ?thesis using rdm [OF k] s by (simp add: count_leaf_def slot_weight_def content_def)
      next
        case (Some p)
        then obtain b where "leaf_heap st p = Some b" using inv by (meson smem_inv_leaf_allocated)
        then show ?thesis using rdm [OF k] Some s
          by (simp add: count_leaf_def slot_weight_def content_def leaf_tainted_bytes_eq)
      qed
    qed simp
    then show ?thesis using rd Some by (simp add: count_middle_def)
  qed
qed

lemma calc_tainted_bytes_sum:
  assumes inv: "smem_inv st" and root: "taint_memory_page_table st = Some root"
  shows "calc_tainted_bytes st =
    Some (of_nat (\<Sum>i < taint_memory_page_table_root_size st. \<Sum>j < 2 ^ BITPAGE_MIDDLE_BITS. slot_weight st (i, j)))"
proof -
  let ?n = "taint_memory_page_table_root_size st"
  let ?w = "\<lambda>k. of_nat (\<Sum>i < k. \<Sum>j < 2 ^ BITPAGE_MIDDLE_BITS. slot_weight st (i, j)) :: u32"
  have "\<exists>s. foldM (count_middle st) [0..<?n] 0 = Some s \<and> s = ?w ?n"
  proof (rule foldM_upt_invariant [where P = "\<lambda>k s. s = ?w k"])
    fix k s assume "k < ?n" and "s = ?w k"
    then show "\<exists>s'. count_middle st k s = Some s' \<and> s' = ?w (Suc k)"
      using count_middle_ok [OF inv root] by simp
  qed simp
  then show ?thesis using root by (simp add: calc_tainted_bytes_def)
qed

lemma tainted_addresses:
  assumes inv: "smem_inv st" and root: "taint_memory_page_table st = Some root"
  shows "finite {a. taint_at st a \<noteq> 0}"
    and "card {a. taint_at st a \<noteq> 0} =
      (\<Sum>i < taint_memory_page_table_root_size st. \<Sum>j < 2 ^ BITPAGE_MIDDLE_BITS. slot_weight st (i, j))"
proof -
  let ?S = "{..<taint_memory_page_table_root_size st} \<times> {..<(2::nat) ^ BITPAGE_MIDDLE_BITS}"
  let ?K = "\<lambda>s. {k. k < 2 ^ 12 \<and> (case content st s of None \<Rightarrow> False | Some b \<Rightarrow> b k \<noteq> 0)}"
  let ?A = "{a. taint_at st a \<noteq> 0}"
  let ?f = "\<lambda>(s :: nat \<times> nat, k). fst s * 2 ^ 22 + snd s * 2 ^ 12 + k"
  have split: "?f (slot_of a, a mod 2 ^ 12) = a" for a
  proof -
    have "a div 2 ^ 12 = a div 2 ^ 22 * 2 ^ 10 + a div 2 ^ 12 mod 2 ^ 10"
      using div_mult_mod_eq [of "a div 2 ^ 12" "2 ^ 10"] by (simp add: div_mult2_eq [symmetric])
    then have "fst (slot_of a) * 2 ^ 22 + snd (slot_of a) * 2 ^ 12 = a div 2 ^ 12 * 2 ^ 12"
      by (simp add: slot_of_def)
    then show ?thesis using div_mult_mod_eq [of a "2 ^ 12"] by (simp only: prod.case)
  qed
  have join: "slot_of (i * 2 ^ 22 + j * 2 ^ 12 + k) = (i, j)" "(i * 2 ^ 22 + j * 2 ^ 12 + k) mod 2 ^ 12 = k"
    if "j < 2 ^ 10" "k < 2 ^ 12" for i j k :: nat
  proof -
    let ?x = "i * 2 ^ 22 + j * 2 ^ 12 + k"
    have eq: "?x = k + (j + i * 2 ^ 10) * 2 ^ 12" by (simp add: algebra_simps)
    have "?x div 2 ^ 12 = j + i * 2 ^ 10" "?x mod 2 ^ 12 = k"
      unfolding eq using that(2) by (simp_all del: power_numeral add: div_mult_self1)
    moreover have "?x div 2 ^ 22 = ?x div 2 ^ 12 div 2 ^ 10" by (simp add: div_mult2_eq [symmetric])
    ultimately show "slot_of ?x = (i, j)" "?x mod 2 ^ 12 = k"
      using that(1) by (simp_all add: slot_of_def)
  qed
  have img: "?A = ?f ` (SIGMA s:?S. ?K s)"
  proof (intro set_eqI iffI)
    fix a assume "a \<in> ?A"
    then obtain b where b: "content st (slot_of a) = Some b" "b (a mod 2 ^ 12) \<noteq> 0"
      by (auto simp: taint_at_content split: option.splits)
    then have "leaf_slot st (slot_of a) \<noteq> None" by (auto simp: content_def split: option.splits)
    then have "slot_of a \<in> ?S"
      using root smem_invD(1) [OF inv root]
      by (auto simp: leaf_slot_def middle_slot_def split: prod.splits option.splits if_splits)
    then have "(slot_of a, a mod 2 ^ 12) \<in> (SIGMA s:?S. ?K s)" using b by simp
    then show "a \<in> ?f ` (SIGMA s:?S. ?K s)" using split [of a] by (metis (no_types, lifting) imageI)
  next
    fix a assume "a \<in> ?f ` (SIGMA s:?S. ?K s)"
    then obtain i j k b where "a = ?f ((i, j), k)" "j < 2 ^ 10" "k < 2 ^ 12" "content st (i, j) = Some b" "b k \<noteq> 0"
      by (auto simp: BITPAGE_MIDDLE_BITS_def split: option.splits)
    then show "a \<in> ?A" using join by (simp add: taint_at_content)
  qed
  have inj: "inj_on ?f (SIGMA s:?S. ?K s)"
    by (rule inj_on_inverseI [where g = "\<lambda>a. (slot_of a, a mod 2 ^ 12)"])
      (auto simp: BITPAGE_MIDDLE_BITS_def join simp del: power_numeral)
  have fin: "finite (SIGMA s:?S. ?K s)" by auto
  then show "finite ?A" unfolding img by (rule finite_imageI)
  have "card ?A = card (SIGMA s:?S. ?K s)" unfolding img by (rule card_image [OF inj])
  also have "\<dots> = (\<Sum>s \<in> ?S. card (?K s))" by (rule card_SigmaI) auto
  also have "\<dots> = (\<Sum>s \<in> ?S. slot_weight st s)"
    by (rule sum.cong) (auto simp: slot_weight_def split: option.split)
  also have "\<dots> = (\<Sum>i < taint_memory_page_table_root_size st. \<Sum>j < 2 ^ BITPAGE_MIDDLE_BITS. slot_weight st (i, j))"
    by (simp add: sum.cartesian_product)
  finally show "card ?A = \<dots>" .
qed

section \<open>The state at start-up\<close>

text \<open>The static initialisers of \<^verbatim>\<open>taint_memory.c\<close>, for a guest with \<open>ram\<close> bytes of memory.\<close>

definition init_tstate :: "ram_addr_t \<Rightarrow> bool \<Rightarrow> bool \<Rightarrow> tstate" where
  "init_tstate ram read_cb write_cb =
     \<lparr>taint_memory_page_table = None, taint_memory_page_table_root_size = 0,
      leaf_heap = (\<lambda>_. None), middle_heap = (\<lambda>_. None), heap_next = 0,
      leaf_next_available_node = 0, leaf_pool = (\<lambda>_. None),
      middle_next_available_node = 0, middle_pool = (\<lambda>_. None),
      middle_nodes_in_use = 0, leaf_nodes_in_use = 0, gc_counter = 0, ram_size = ram,
      tempidx = 0, tempidx2 = 0, taint_tracking_enabled = False, taint_nic_enabled = False,
      taint_load_pointers_enabled = False, taint_store_pointers_enabled = False,
      read_taintmem_cb_needed = read_cb, write_taintmem_cb_needed = write_cb, events = []\<rparr>"

lemma init_tstate_inv: "smem_inv (init_tstate ram rd wr)"
  by (simp add: smem_inv_def init_tstate_def)

lemma enabled_ok:
  assumes inv: "smem_inv st" and none: "taint_memory_page_table st = None"
    and off: "\<not> taint_tracking_enabled st"
    and ram: "unat (ram_size st) mod 2 ^ 22 = 0" "unat (ram_size st) \<le> 2 ^ 32"
  defines "st' \<equiv> do_enable_tainting_internal st"
  shows "smem_inv st'" "ram_ok st'" "taint_memory_page_table st' \<noteq> None" "taint_tracking_enabled st'"
    "ram_size st' = ram_size st" "taint_at st' a = 0" "leaf_slot st' = (\<lambda>_. None)"
proof -
  let ?st0 = "emit_event Tb_flush (emit_event Stop_vm st)"
  have st0: "smem_inv ?st0" "taint_memory_page_table ?st0 = None" "ram_size ?st0 = ram_size st"
    using inv none by simp_all
  note A = allocate_taint_memory_page_table_ok [OF st0(1,2)]
  let ?st1 = "allocate_taint_memory_page_table ?st0"
  let ?st2 = "?st1\<lparr>taint_tracking_enabled := True\<rparr>"
  have st': "st' = emit_event Start_vm ?st2"
    using off by (simp add: st'_def do_enable_tainting_internal_def Let_def)
  have same: "same_smem ?st1 ?st2" by (simp add: same_smem_def)
  note view = same_smem_view [OF same]
  show "smem_inv st'" "leaf_slot st' = (\<lambda>_. None)" using A view by (simp_all add: st')
  then show "taint_at st' a = 0" by (simp add: taint_at_def)
  show "taint_memory_page_table st' \<noteq> None" "taint_tracking_enabled st'" "ram_size st' = ram_size st"
    using A(2,5) st0(3) by (simp_all add: st')
  have "unat (ram_size st) div 2 ^ 22 \<le> 2 ^ 10" using ram(2) div_le_mono [of _ "2 ^ 32" "2 ^ 22"] by fastforce
  then have "taint_memory_page_table_root_size st' = unat (ram_size st) div 2 ^ 22"
    using A(3) st0(3) by (simp add: st')
  then show "ram_ok st'"
    using ram(1) \<open>ram_size st' = ram_size st\<close> \<open>unat (ram_size st) div 2 ^ 22 \<le> 2 ^ 10\<close>
    by (simp add: ram_ok_def mod_0_imp_dvd)
qed

section \<open>The shadow memory as a byte store\<close>

definition shadow_ok :: "tstate \<Rightarrow> bool" where
  "shadow_ok st \<longleftrightarrow> smem_inv st \<and> ram_ok st \<and> taint_memory_page_table st \<noteq> None"

definition in_ram :: "tstate \<Rightarrow> nat \<Rightarrow> nat \<Rightarrow> bool" where
  "in_ram st a n \<longleftrightarrow> a + n \<le> unat (ram_size st)"

lemma shadow_ok_frame: "smem_inv st' \<Longrightarrow> ctl_frame st st' \<Longrightarrow> shadow_ok st \<Longrightarrow> shadow_ok st'"
  unfolding shadow_ok_def ram_ok_def ctl_frame_def by metis

lemma taint_mem_ok:
  assumes ok: "shadow_ok st" and range: "in_ram st (unat addr) sz" and buf: "sz \<le> length taint"
  shows "\<exists>st'. taint_mem addr sz taint st = Some st' \<and> shadow_ok st' \<and> ctl_frame st st' \<and>
           taint_at st' = put_bytes (taint_at st) (unat addr) (take sz taint)"
proof -
  obtain root where root: "taint_memory_page_table st = Some root" using ok by (auto simp: shadow_ok_def)
  have inv: "smem_inv st" using ok by (simp add: shadow_ok_def)
  note len = smem_invD(1) [OF inv root]
  have "unat addr + sz \<le> 2 ^ 22 * length root" "length root \<le> 2 ^ 10"
    using ok range len by (simp_all add: shadow_ok_def ram_ok_def in_ram_def)
  then obtain st' where "taint_mem_loop addr sz taint 0 st = Some st'" "smem_inv st'" "ctl_frame st st'"
    "taint_at st' = put_bytes (taint_at st) (unat addr) (take sz taint)"
    using taint_mem_loop_ok [OF inv root _ _ buf, of addr 0] by auto
  then show ?thesis using shadow_ok_frame ok by (auto simp: taint_mem_def)
qed

lemma taint_mem_check_ok:
  assumes "shadow_ok st" and "unat addr + sz \<le> 2 ^ 32"
  shows "taint_mem_check addr sz st = Some (bytes_at st (unat addr) sz)"
  using taint_mem_check_loop_ok [of st addr sz "replicate sz 0" 0] assms
  by (simp add: taint_mem_check_def shadow_ok_def)

lemma in_ram_bound:
  assumes "shadow_ok st" "in_ram st a n"
  shows "a + n \<le> 2 ^ 32"
proof -
  have "2 ^ 22 * taint_memory_page_table_root_size st \<le> 2 ^ 32"
    using assms(1) by (simp add: shadow_ok_def ram_ok_def)
  then show ?thesis using assms by (simp add: shadow_ok_def ram_ok_def in_ram_def)
qed

lemma unat_of_nat_in_ram:
  assumes "shadow_ok st" "in_ram st a n"
  shows "unat (of_nat a :: u64) = a"
  using in_ram_bound [OF assms] by (simp add: unsigned_of_nat take_bit_nat_eq_self)

interpretation smem: byte_store shadow_ok taint_at in_ram
  "\<lambda>a bs. taint_mem (of_nat a) (length bs) bs" "\<lambda>a n. taint_mem_check (of_nat a) n"
proof
  fix st a and bs :: "u8 list" assume ok: "shadow_ok st" and range: "in_ram st a (length bs)"
  note a = unat_of_nat_in_ram [OF this]
  obtain st' where "taint_mem (of_nat a) (length bs) bs st = Some st'" "shadow_ok st'" "ctl_frame st st'"
    "taint_at st' = put_bytes (taint_at st) a bs"
    using taint_mem_ok [OF ok, of "of_nat a" "length bs" bs] range by (auto simp: a)
  moreover from this have "in_ram st' = in_ram st" by (simp add: in_ram_def ctl_frame_def fun_eq_iff)
  ultimately show "\<exists>st'. taint_mem (of_nat a) (length bs) bs st = Some st' \<and> shadow_ok st' \<and>
      in_ram st' = in_ram st \<and> taint_at st' = put_bytes (taint_at st) a bs" by blast
next
  fix st a n assume "shadow_ok st" "in_ram st a n"
  then show "taint_mem_check (of_nat a) n st = Some (map (taint_at st) [a..<a + n])"
    using taint_mem_check_ok [of st "of_nat a" n] in_ram_bound [of st a n] unat_of_nat_in_ram [of st a n]
    by (simp add: bytes_at_def)
qed

section \<open>Properties\<close>

text \<open>The concrete state the witnesses use: tainting switched on for a guest with 4 MiB.\<close>

definition demo_tstate :: tstate where
  "demo_tstate = do_enable_tainting_internal (init_tstate 0x400000 True True)"

lemma demo_tstate_ok: "shadow_ok demo_tstate" "unat (ram_size demo_tstate) = 0x400000"
  "taint_at demo_tstate a = 0" "taint_tracking_enabled demo_tstate" "leaf_slot demo_tstate = (\<lambda>_. None)"
proof -
  have "smem_inv (init_tstate 0x400000 True True)" by (rule init_tstate_inv)
  then have "shadow_ok demo_tstate \<and> ram_size demo_tstate = 0x400000 \<and> taint_at demo_tstate a = 0 \<and>
      taint_tracking_enabled demo_tstate \<and> leaf_slot demo_tstate = (\<lambda>_. None)"
    using enabled_ok [of "init_tstate 0x400000 True True"]
    by (simp add: demo_tstate_def shadow_ok_def init_tstate_def)
  then show "shadow_ok demo_tstate" "unat (ram_size demo_tstate) = 0x400000" "taint_at demo_tstate a = 0"
    "taint_tracking_enabled demo_tstate" "leaf_slot demo_tstate = (\<lambda>_. None)" by simp_all
qed

text \<open>
  C4.  The store helpers for one, two and four bytes write exactly the bytes of \<^verbatim>\<open>env->tempidx\<close>, in
  little-endian order, at the given physical address: no undefined behaviour occurs, every other
  taint byte is unchanged, and the shadow memory stays well formed.  The access must lie in guest
  memory and within one page.
\<close>

theorem taint_st_raw_paddr_correct:
  assumes "(n, st_op) \<in> {(1, taint_stb_raw_paddr), (2, taint_stw_raw_paddr), (4, taint_stl_raw_paddr)}"
    and "shadow_ok st" and "addr < ram_size st" and "unat addr mod 2 ^ 12 + n \<le> 2 ^ 12"
  shows "\<exists>st'. st_op addr vaddr st = Some st' \<and> shadow_ok st' \<and> tempidx st' = tempidx st \<and>
           taint_at st' = put_bytes (taint_at st) (unat addr) (le_bytes n (tempidx st))"
proof -
  obtain conv where op: "st_op = taint_st n (mask (8 * n)) conv" and n: "n \<le> 4"
    using assms(1) by (auto simp: taint_st_instances mask_eq_exp_minus_1)
  have msk: "bit (mask (8 * n) :: u32) i" if "i < 8 * n" for i using that n by (simp add: bit_mask_iff)
  obtain st' where "st_op addr vaddr st = Some st'" "smem_inv st'" "ctl_frame st st'"
    "taint_at st' = put_bytes (taint_at st) (unat addr) (le_bytes n (tempidx st))"
    unfolding op using taint_st_ok [OF _ _ _ assms(3,4) msk, of conv vaddr] assms(2)
    by (auto simp: shadow_ok_def)
  then show ?thesis using shadow_ok_frame [OF _ _ assms(2)] by (auto simp: ctl_frame_def)
qed

theorem taint_st_raw_paddr_correct_witness:
  "\<exists>st'. taint_stl_raw_paddr 0x1000 7 demo_tstate = Some st' \<and> shadow_ok st' \<and>
     tempidx st' = tempidx demo_tstate \<and>
     taint_at st' = put_bytes (taint_at demo_tstate) 0x1000 (le_bytes 4 (tempidx demo_tstate))"
  using taint_st_raw_paddr_correct [of 4 taint_stl_raw_paddr demo_tstate "0x1000" 7] demo_tstate_ok(1,2)
  by (simp add: word_less_nat_alt)

text \<open>
  C12.  The load helpers for one, two and four bytes deliver the little-endian taint of the accessed
  bytes in \<^verbatim>\<open>env->tempidx\<close>, clear \<^verbatim>\<open>env->tempidx2\<close>, and announce the access to the read-taint
  callback exactly when there is taint and a callback is registered; nothing else changes.
  Addresses beyond the guest's memory read as untainted.
\<close>

theorem taint_ld_raw_paddr_correct:
  assumes "(n, ld_op) \<in> {(1, taint_ldb_raw_paddr), (2, taint_ldw_raw_paddr), (4, taint_ldl_raw_paddr)}"
    and "shadow_ok st" and "unat addr mod 2 ^ 12 + n \<le> 2 ^ 12"
  shows "ld_op addr vaddr st =
           Some (let bs = map (taint_at st) [unat addr..<unat addr + n];
                     st' = st\<lparr>tempidx := le_word bs, tempidx2 := 0\<rparr>
                 in if (le_word bs :: u32) \<noteq> 0 \<and> read_taintmem_cb_needed st
                    then emit_event (Read_taintmem_cb vaddr addr n bs) st' else st')"
proof -
  have op: "ld_op = taint_ld n" using assms(1) by (auto simp: taint_ld_instances)
  show ?thesis
    unfolding op using taint_ld_ok [of st addr n vaddr] assms(2,3)
    by (simp add: shadow_ok_def load_spec_def bytes_at_def Let_def)
qed

theorem taint_ld_raw_paddr_correct_witness:
  "taint_ldw_raw_paddr 0x10 7 demo_tstate = Some (demo_tstate\<lparr>tempidx := 0, tempidx2 := 0\<rparr>)"
  using taint_ld_raw_paddr_correct [of 2 taint_ldw_raw_paddr demo_tstate "0x10" 7] demo_tstate_ok(1,3)
  by (simp add: Let_def upt_rec)

text \<open>
  C11.  \<^verbatim>\<open>taint_mem\<close> followed by \<^verbatim>\<open>taint_mem_check\<close> on the same range of guest memory returns the taint
  that was written, also across page boundaries; any other range reads as before.
\<close>

theorem taint_mem_roundtrip:
  assumes "shadow_ok st" and "in_ram st a (length bs)"
  shows "\<exists>st'. taint_mem (of_nat a) (length bs) bs st = Some st' \<and> shadow_ok st' \<and>
           taint_mem_check (of_nat a) (length bs) st' = Some bs \<and>
           (\<forall>b n. in_ram st b n \<longrightarrow> b + n \<le> a \<or> a + length bs \<le> b \<longrightarrow>
              taint_mem_check (of_nat b) n st' = taint_mem_check (of_nat b) n st)"
  using smem.fetch_after_put [OF assms] smem.fetch_frame [OF assms] by blast

theorem taint_mem_roundtrip_witness:
  "\<exists>st'. taint_mem 0xFFE 4 (replicate 4 5) demo_tstate = Some st' \<and> shadow_ok st' \<and>
     taint_mem_check 0xFFE 4 st' = Some (replicate 4 5)"
  using taint_mem_roundtrip [of demo_tstate "0xFFE" "replicate 4 5"] demo_tstate_ok(1,2)
  by (simp add: in_ram_def) blast

text \<open>
  C7.  A garbage collection that is due changes no taint byte: it removes exactly the leaves whose
  4096 bytes are all zero and the middle nodes left without leaves, keeps every other leaf's
  content, and keeps the invariant (no node shared, lost or used after its release, usage
  counters exact).
\<close>

theorem garbage_collect_taint_correct:
  assumes "shadow_ok st" and "taint_tracking_enabled st" and "flag \<or> 4 * 1024 \<le> gc_counter st"
  shows "\<exists>st'. garbage_collect_taint flag st = Some st' \<and> shadow_ok st' \<and> taint_at st' = taint_at st \<and>
           (\<forall>s. content st' s = (case content st s of None \<Rightarrow> None
                                | Some b \<Rightarrow> if \<forall>i < 2 ^ 12. b i = 0 then None else Some b)) \<and>
           (\<forall>i. middle_slot st' i \<noteq> None \<longrightarrow> (\<exists>j. leaf_slot st' (i, j) \<noteq> None))"
proof -
  have "smem_inv st" "taint_memory_page_table st \<noteq> None" using assms(1) by (simp_all add: shadow_ok_def)
  from garbage_collect_taint_ok [OF this assms(2,3)] obtain st' where
    g: "garbage_collect_taint flag st = Some st'" "smem_inv st'" "ctl_frame st st'"
      "\<forall>s. content st' s = drop_clean (content st s)"
      "\<forall>i. middle_slot st' i \<noteq> None \<longrightarrow> (\<exists>j. content st' (i, j) \<noteq> None)" "taint_at st' = taint_at st" .
  moreover have "shadow_ok st'" using g(2,3) assms(1) by (rule shadow_ok_frame)
  ultimately show ?thesis
    unfolding content_None_iff [OF g(2)] drop_clean_def leaf_is_clean_iff by blast
qed

theorem garbage_collect_taint_correct_witness:
  "\<exists>st'. garbage_collect_taint True demo_tstate = Some st' \<and> shadow_ok st' \<and>
     taint_at st' = taint_at demo_tstate"
  using garbage_collect_taint_correct [of demo_tstate True] demo_tstate_ok(1,4) by blast

text \<open>
  C20.  Switching tainting off releases the shadow memory completely: every leaf and middle node,
  whether in the table or in a pool, is freed exactly once and none stays allocated, and the
  state is ready to be enabled again.
\<close>

theorem do_disable_tainting_releases_all:
  assumes "shadow_ok st" and "taint_tracking_enabled st"
  shows "\<exists>st'. do_disable_tainting st = Some (Tainting_disabled, st') \<and> smem_inv st' \<and>
           leaf_heap st' = (\<lambda>_. None) \<and> middle_heap st' = (\<lambda>_. None) \<and>
           taint_memory_page_table st' = None \<and> \<not> taint_tracking_enabled st' \<and>
           events st' = events st @ [Stop_vm, Tb_flush, Start_vm]"
proof -
  let ?st0 = "emit_event Tb_flush (emit_event Stop_vm st)"
  obtain root where "taint_memory_page_table ?st0 = Some root" "smem_inv ?st0"
    using assms(1) by (auto simp: shadow_ok_def)
  then obtain st1 where st1: "free_taint_memory_page_table ?st0 = Some st1" "smem_inv st1"
    "leaf_heap st1 = (\<lambda>_. None)" "middle_heap st1 = (\<lambda>_. None)" "taint_memory_page_table st1 = None"
    "events st1 = events ?st0"
    by (metis free_taint_memory_page_table_ok)
  have same: "same_smem st1 (st1\<lparr>taint_tracking_enabled := False\<rparr>)" by (simp add: same_smem_def)
  show ?thesis using st1 assms(2) same_smem_view(4) [OF same]
    by (simp add: do_disable_tainting_def do_disable_tainting_internal_def)
qed

theorem do_disable_tainting_releases_all_witness:
  "\<exists>st'. do_disable_tainting demo_tstate = Some (Tainting_disabled, st') \<and> leaf_heap st' = (\<lambda>_. None)"
  using do_disable_tainting_releases_all [OF demo_tstate_ok(1,4)] by blast

text \<open>
  C21.  \<^verbatim>\<open>calc_tainted_bytes\<close> returns the number of physical addresses with a non-zero taint byte, as a
  32-bit counter.
\<close>

theorem calc_tainted_bytes_correct:
  assumes "shadow_ok st"
  shows "calc_tainted_bytes st = Some (of_nat (card {a. taint_at st a \<noteq> 0}))"
proof -
  obtain root where "taint_memory_page_table st = Some root" "smem_inv st"
    using assms by (auto simp: shadow_ok_def)
  then show ?thesis using calc_tainted_bytes_sum tainted_addresses(2) by simp
qed

theorem calc_tainted_bytes_correct_witness: "calc_tainted_bytes demo_tstate = Some 0"
  using calc_tainted_bytes_correct [OF demo_tstate_ok(1)] by (simp add: demo_tstate_ok(3))

subsection \<open>Where the accesses go wrong\<close>

lemma taint_st_general_i32_present:
  assumes ok: "shadow_ok st" and addr: "addr < ram_size st" and p: "leaf_slot st (slot_of (unat addr)) = Some p"
  shows "taint_st_general_i32 addr vaddr t st = Some (Some p, st)"
proof -
  obtain root where root: "taint_memory_page_table st = Some root" using ok by (auto simp: shadow_ok_def)
  have inv: "smem_inv st" and ram: "ram_ok st" using ok by (simp_all add: shadow_ok_def)
  note idx = ram_ok_index [OF ram addr]
  have slot: "leaf_slot st (middle_node_index addr, leaf_node_index addr) = Some p"
    using p slot_of_address [OF idx(1)] by simp
  then obtain m where m: "middle_slot st (middle_node_index addr) = Some m"
    by (auto simp: leaf_slot_def split: option.splits)
  obtain node where "middle_heap st m = Some node" using inv m by (rule smem_inv_middle_allocated)
  then have "read_middle st m (leaf_node_index addr) = Some (Some p)"
    using read_middle_eq [OF m _ leaf_node_index_less, of addr] slot by simp
  moreover have "read_root st (middle_node_index addr) = Some (Some m)"
    using read_root_eq [OF root] idx(2) smem_invD(1) [OF inv root] m by simp
  ultimately show ?thesis by (simp add: taint_st_general_i32_def Let_def)
qed

text \<open>
  C36.  The four-byte store compares the old and the new taint as 16-bit values: when it stores no
  taint and the low half was clean, the write-taint callback is not invoked, although taint in
  the high half has just been cleared.
\<close>

theorem taint_stl_misses_high_half:
  assumes "shadow_ok st" and "addr < ram_size st" and "unat addr mod 2 ^ 12 + 4 \<le> 2 ^ 12"
    and "leaf_slot st (slot_of (unat addr)) \<noteq> None"
    and "tempidx st = 0" and "taint_at st (unat addr) = 0" and "taint_at st (unat addr + 1) = 0"
  shows "\<exists>st'. taint_stl_raw_paddr addr vaddr st = Some st' \<and> events st' = events st \<and>
           taint_at st' = put_bytes (taint_at st) (unat addr) [0, 0, 0, 0]"
proof -
  let ?a = "unat addr"
  have notin: "\<not> (taint_memory_page_table st = None \<or> ram_size st \<le> addr)"
    using assms(1,2) by (simp add: shadow_ok_def)
  obtain p where p: "leaf_slot st (slot_of ?a) = Some p" using assms(4) by blast
  have inv: "smem_inv st" using assms(1) by (simp add: shadow_ok_def)
  have read: "leaf_read st' p (leaf_offset addr) 4 = Some (bytes_at st' ?a 4)"
    if "smem_inv st'" "leaf_slot st' (slot_of ?a) = Some p" for st'
    using smem_inv_leaf_allocated [OF that] leaf_read_bytes [OF that(2) _ assms(3)] by (metis leaf_offset_eq)
  have off: "leaf_offset addr + length [0, 0, 0, 0 :: u8] \<le> 2 ^ BITPAGE_LEAF_BITS"
    using assms(3) by (simp add: leaf_offset_eq BITPAGE_LEAF_BITS_def)
  obtain b st2 where w: "leaf_heap st p = Some b" "leaf_write p (leaf_offset addr) [0, 0, 0, 0] st = Some st2"
    "st2 = st\<lparr>leaf_heap := (leaf_heap st)(p \<mapsto> write_bytes b (leaf_offset addr) [0, 0, 0, 0])\<rparr>"
    "smem_inv st2" "leaf_slot st2 = leaf_slot st"
    "content st2 = (content st)(slot_of ?a \<mapsto> write_bytes b (leaf_offset addr) [0, 0, 0, 0])"
    using leaf_write_ok [OF inv p off] by blast
  have t2: "taint_at st2 = put_bytes (taint_at st) ?a [0, 0, 0, 0]"
    using taint_at_write_bytes [OF w(6) [unfolded leaf_offset_eq]] p w(1) assms(3)
    by (simp add: put_bytes_def fun_eq_iff content_def)
  have "bytes_at st2 ?a 4 = [0, 0, 0, 0]" "bytes_at st ?a 4 = [0, 0, taint_at st (?a + 2), taint_at st (?a + 3)]"
    using assms(6,7) by (simp_all add: bytes_at_def t2 put_bytes_def upt_rec numeral_3_eq_3)
  moreover have "(ucast (le_word [0, 0, x, y] :: u32) :: u16) = 0" for x y :: u8
    by (rule bit_word_eqI) (auto simp: bit_ucast_iff bit_or_iff bit_push_bit_iff)
  moreover have "(ucast (le_word [0, 0, 0, 0] :: u32) :: u16) = 0" by simp
  moreover have "le_bytes 4 (0 :: u32) = [0, 0, 0, 0]" by (simp add: le_bytes_def upt_rec)
  ultimately have "taint_stl_raw_paddr addr vaddr st = Some st2"
    using read [OF inv p] read [of st2] w p assms(5)
    by (simp add: taint_stl_raw_paddr_def if_not_P [OF notin] taint_st_general_i32_present [OF assms(1,2) p] Let_def)
  then show ?thesis using t2 w(3) by simp
qed

text \<open>A state with taint in the upper half of a word, for the witnesses.\<close>

lemma demo_tainted:
  obtains st where "shadow_ok st" "ram_size st = ram_size demo_tstate" "tempidx st = 0"
    "taint_at st = put_bytes (taint_at demo_tstate) 0 [0, 0, 0xFF, 0]"
    "leaf_slot st (slot_of 0) \<noteq> None"
proof -
  have "tempidx demo_tstate = 0"
    by (simp add: demo_tstate_def do_enable_tainting_internal_def init_tstate_def Let_def
        allocate_taint_memory_page_table_def allocate_leaf_pool_def allocate_middle_pool_def
        fold_fill_leaf fold_fill_middle emit_event_def)
  moreover have "in_ram demo_tstate (unat (0 :: u64)) 4" using demo_tstate_ok(2) by (simp add: in_ram_def)
  ultimately obtain st where st: "shadow_ok st" "ram_size st = ram_size demo_tstate" "tempidx st = 0"
    "taint_at st = put_bytes (taint_at demo_tstate) 0 [0, 0, 0xFF, 0]"
    using taint_mem_ok [OF demo_tstate_ok(1), of 0 4 "[0, 0, 0xFF, 0]"] by (auto simp: ctl_frame_def)
  have "taint_at st 2 \<noteq> 0" by (simp add: st(4) put_bytes_def)
  then have "leaf_slot st (slot_of 2) \<noteq> None" by (auto simp: taint_at_def split: option.splits)
  then have "leaf_slot st (slot_of 0) \<noteq> None" by (simp add: slot_of_def)
  then show thesis using st that by blast
qed

theorem taint_stl_misses_high_half_witness:
  "\<exists>st st'. taint_at st 2 = 0xFF \<and>
     taint_stl_raw_paddr 0 7 st = Some st' \<and> events st' = events st \<and> taint_at st' 2 = 0"
proof -
  obtain st where st: "shadow_ok st" "ram_size st = ram_size demo_tstate" "tempidx st = 0"
    "taint_at st = put_bytes (taint_at demo_tstate) 0 [0, 0, 0xFF, 0]" "leaf_slot st (slot_of 0) \<noteq> None"
    by (rule demo_tainted)
  then obtain st' where "taint_stl_raw_paddr 0 7 st = Some st'" "events st' = events st"
    "taint_at st' = put_bytes (taint_at st) 0 [0, 0, 0, 0]"
    using taint_stl_misses_high_half [of st 0 7] demo_tstate_ok(2) by (auto simp: put_bytes_def word_less_nat_alt)
  then show ?thesis using st(4) by (intro exI [of _ st] exI [of _ st']) (simp add: put_bytes_def)
qed

text \<open>
  C35.  The eight-byte store dereferences the NULL pointer \<^verbatim>\<open>leaf_node2\<close> on every page that has a
  shadow leaf: undefined behaviour for each such store.
\<close>

theorem taint_stq_faults_on_shadowed_page:
  assumes "shadow_ok st" and "addr < ram_size st" and "leaf_slot st (slot_of (unat addr)) \<noteq> None"
  shows "taint_stq_raw_paddr addr vaddr st = None"
proof -
  let ?st0 = "st\<lparr>tempidx := 0, tempidx2 := 0\<rparr>"
  obtain p where p: "leaf_slot st (slot_of (unat addr)) = Some p" using assms(3) by blast
  have notin: "\<not> (taint_memory_page_table st = None \<or> ram_size st \<le> addr)"
    using assms(1,2) by (simp add: shadow_ok_def)
  have "shadow_ok ?st0" using assms(1) by (simp add: shadow_ok_def temp_update_view)
  then have "taint_st_general_i32 addr vaddr 0 ?st0 = Some (Some p, ?st0)"
    using taint_st_general_i32_present [of ?st0 addr p] assms(2) p by (simp add: temp_update_view)
  then show ?thesis
    by (simp add: taint_stq_raw_paddr_def if_not_P [OF notin] Let_def bind_eq_None_conv)
qed

theorem taint_stq_faults_on_shadowed_page_witness:
  "\<exists>st. shadow_ok st \<and> taint_stq_raw_paddr 0 7 st = None"
proof -
  obtain st where st: "shadow_ok st" "ram_size st = ram_size demo_tstate" "leaf_slot st (slot_of 0) \<noteq> None"
    by (rule demo_tainted)
  then have "taint_stq_raw_paddr 0 7 st = None"
    using taint_stq_faults_on_shadowed_page [of st 0 7] demo_tstate_ok(2) by (simp add: word_less_nat_alt)
  then show ?thesis using st(1) by blast
qed

end
