(* ===== verification/Tcg_Ir.thy ===== *)
theory Tcg_Ir
  imports Decaf_Prelude "HOL-Library.State_Monad"
begin

text \<open>
  The intermediate representation of the translator, for a 64-bit x86 host and a 32-bit x86
  guest: the opcodes of tcg/tcg-opc.h with their argument counts, the temporaries of tcg/tcg.c
  with their allocator, the two flat output buffers of the translator, and the emitters of
  tcg/tcg-op.h that the taint instrumentation uses.

  An emitter is a computation of the state monad over \<open>gen_state\<close>.  The pointers
  \<open>gen_opc_ptr\<close> and \<open>gen_opparam_ptr\<close> are the ends of the lists \<open>gen_opc_buf\<close> and
  \<open>gen_opparam_buf\<close>: writing through a pointer and incrementing it appends, decrementing it
  removes the last elements, and \<open>gen_opparam_ptr[-k]\<close> is the \<open>k\<close>-th element from the end.
  A \<open>tcg_abort\<close> or a failed assertion sets the field \<open>aborted\<close>, which nothing clears.
\<close>

section \<open>Opcodes\<close>

text \<open>
  The enumeration of tcg-opc.h has one constant per operation and width.  The constants are
  grouped by kind here; the abbreviations below give each of them its name in the source.
\<close>

datatype TCGType = TCG_TYPE_I32 | TCG_TYPE_I64

datatype TCGCond =
    TCG_COND_EQ | TCG_COND_NE | TCG_COND_LT | TCG_COND_GE | TCG_COND_LE | TCG_COND_GT
  | TCG_COND_LTU | TCG_COND_GEU | TCG_COND_LEU | TCG_COND_GTU

datatype ctlop =
    op_end | op_nop | op_nop1 | op_nop2 | op_nop3 | op_nopn | op_set_label | op_jmp | op_br
  | op_debug_insn_start | op_exit_tb | op_goto_tb

datatype binop =
    op_add | op_sub | op_mul | op_div | op_divu | op_rem | op_remu | op_and | op_or | op_xor
  | op_shl | op_shr | op_sar | op_rotl | op_rotr | op_andc | op_orc | op_eqv | op_nand | op_nor

datatype unop =
    op_ext8s | op_ext16s | op_ext32s | op_ext8u | op_ext16u | op_ext32u
  | op_bswap16 | op_bswap32 | op_bswap64 | op_not | op_neg

datatype memop =
    mem_8u | mem_8s | mem_16u | mem_16s | mem_32u | mem_32s | mem_8 | mem_16 | mem_32 | mem_64
  | mem_full

datatype opcode =
    Control ctlop
  | INDEX_op_discard
  | INDEX_op_call
  | INDEX_op_DECAF_checkeip
  | Mov TCGType
  | Movi TCGType
  | Setcond TCGType
  | Ld memop TCGType
  | St memop TCGType
  | Binop binop TCGType
  | Div2 TCGType
  | Divu2 TCGType
  | Deposit TCGType
  | Brcond TCGType
  | INDEX_op_add2_i32
  | INDEX_op_sub2_i32
  | INDEX_op_brcond2_i32
  | INDEX_op_mulu2_i32
  | INDEX_op_setcond2_i32
  | Unop unop TCGType
  | Qemu_ld memop
  | Qemu_st memop
  | Taint_qemu_ld memop
  | Taint_qemu_st memop

text \<open>The names of the source.\<close>

abbreviation INDEX_op_end :: opcode where "INDEX_op_end \<equiv> Control op_end"

abbreviation INDEX_op_nop :: opcode where "INDEX_op_nop \<equiv> Control op_nop"

abbreviation INDEX_op_nop1 :: opcode where "INDEX_op_nop1 \<equiv> Control op_nop1"

abbreviation INDEX_op_nop2 :: opcode where "INDEX_op_nop2 \<equiv> Control op_nop2"

abbreviation INDEX_op_nop3 :: opcode where "INDEX_op_nop3 \<equiv> Control op_nop3"

abbreviation INDEX_op_nopn :: opcode where "INDEX_op_nopn \<equiv> Control op_nopn"

abbreviation INDEX_op_set_label :: opcode where "INDEX_op_set_label \<equiv> Control op_set_label"

abbreviation INDEX_op_jmp :: opcode where "INDEX_op_jmp \<equiv> Control op_jmp"

abbreviation INDEX_op_br :: opcode where "INDEX_op_br \<equiv> Control op_br"

abbreviation INDEX_op_mov_i32 :: opcode where "INDEX_op_mov_i32 \<equiv> Mov TCG_TYPE_I32"

abbreviation INDEX_op_movi_i32 :: opcode where "INDEX_op_movi_i32 \<equiv> Movi TCG_TYPE_I32"

abbreviation INDEX_op_setcond_i32 :: opcode where "INDEX_op_setcond_i32 \<equiv> Setcond TCG_TYPE_I32"

abbreviation INDEX_op_ld8u_i32 :: opcode where "INDEX_op_ld8u_i32 \<equiv> Ld mem_8u TCG_TYPE_I32"

abbreviation INDEX_op_ld8s_i32 :: opcode where "INDEX_op_ld8s_i32 \<equiv> Ld mem_8s TCG_TYPE_I32"

abbreviation INDEX_op_ld16u_i32 :: opcode where "INDEX_op_ld16u_i32 \<equiv> Ld mem_16u TCG_TYPE_I32"

abbreviation INDEX_op_ld16s_i32 :: opcode where "INDEX_op_ld16s_i32 \<equiv> Ld mem_16s TCG_TYPE_I32"

abbreviation INDEX_op_ld_i32 :: opcode where "INDEX_op_ld_i32 \<equiv> Ld mem_full TCG_TYPE_I32"

abbreviation INDEX_op_st8_i32 :: opcode where "INDEX_op_st8_i32 \<equiv> St mem_8 TCG_TYPE_I32"

abbreviation INDEX_op_st16_i32 :: opcode where "INDEX_op_st16_i32 \<equiv> St mem_16 TCG_TYPE_I32"

abbreviation INDEX_op_st_i32 :: opcode where "INDEX_op_st_i32 \<equiv> St mem_full TCG_TYPE_I32"

abbreviation INDEX_op_add_i32 :: opcode where "INDEX_op_add_i32 \<equiv> Binop op_add TCG_TYPE_I32"

abbreviation INDEX_op_sub_i32 :: opcode where "INDEX_op_sub_i32 \<equiv> Binop op_sub TCG_TYPE_I32"

abbreviation INDEX_op_mul_i32 :: opcode where "INDEX_op_mul_i32 \<equiv> Binop op_mul TCG_TYPE_I32"

abbreviation INDEX_op_div_i32 :: opcode where "INDEX_op_div_i32 \<equiv> Binop op_div TCG_TYPE_I32"

abbreviation INDEX_op_divu_i32 :: opcode where "INDEX_op_divu_i32 \<equiv> Binop op_divu TCG_TYPE_I32"

abbreviation INDEX_op_rem_i32 :: opcode where "INDEX_op_rem_i32 \<equiv> Binop op_rem TCG_TYPE_I32"

abbreviation INDEX_op_remu_i32 :: opcode where "INDEX_op_remu_i32 \<equiv> Binop op_remu TCG_TYPE_I32"

abbreviation INDEX_op_div2_i32 :: opcode where "INDEX_op_div2_i32 \<equiv> Div2 TCG_TYPE_I32"

abbreviation INDEX_op_divu2_i32 :: opcode where "INDEX_op_divu2_i32 \<equiv> Divu2 TCG_TYPE_I32"

abbreviation INDEX_op_and_i32 :: opcode where "INDEX_op_and_i32 \<equiv> Binop op_and TCG_TYPE_I32"

abbreviation INDEX_op_or_i32 :: opcode where "INDEX_op_or_i32 \<equiv> Binop op_or TCG_TYPE_I32"

abbreviation INDEX_op_xor_i32 :: opcode where "INDEX_op_xor_i32 \<equiv> Binop op_xor TCG_TYPE_I32"

abbreviation INDEX_op_shl_i32 :: opcode where "INDEX_op_shl_i32 \<equiv> Binop op_shl TCG_TYPE_I32"

abbreviation INDEX_op_shr_i32 :: opcode where "INDEX_op_shr_i32 \<equiv> Binop op_shr TCG_TYPE_I32"

abbreviation INDEX_op_sar_i32 :: opcode where "INDEX_op_sar_i32 \<equiv> Binop op_sar TCG_TYPE_I32"

abbreviation INDEX_op_rotl_i32 :: opcode where "INDEX_op_rotl_i32 \<equiv> Binop op_rotl TCG_TYPE_I32"

abbreviation INDEX_op_rotr_i32 :: opcode where "INDEX_op_rotr_i32 \<equiv> Binop op_rotr TCG_TYPE_I32"

abbreviation INDEX_op_deposit_i32 :: opcode where "INDEX_op_deposit_i32 \<equiv> Deposit TCG_TYPE_I32"

abbreviation INDEX_op_brcond_i32 :: opcode where "INDEX_op_brcond_i32 \<equiv> Brcond TCG_TYPE_I32"

abbreviation INDEX_op_ext8s_i32 :: opcode where "INDEX_op_ext8s_i32 \<equiv> Unop op_ext8s TCG_TYPE_I32"

abbreviation INDEX_op_ext16s_i32 :: opcode where "INDEX_op_ext16s_i32 \<equiv> Unop op_ext16s TCG_TYPE_I32"

abbreviation INDEX_op_ext8u_i32 :: opcode where "INDEX_op_ext8u_i32 \<equiv> Unop op_ext8u TCG_TYPE_I32"

abbreviation INDEX_op_ext16u_i32 :: opcode where "INDEX_op_ext16u_i32 \<equiv> Unop op_ext16u TCG_TYPE_I32"

abbreviation INDEX_op_bswap16_i32 :: opcode where "INDEX_op_bswap16_i32 \<equiv> Unop op_bswap16 TCG_TYPE_I32"

abbreviation INDEX_op_bswap32_i32 :: opcode where "INDEX_op_bswap32_i32 \<equiv> Unop op_bswap32 TCG_TYPE_I32"

abbreviation INDEX_op_not_i32 :: opcode where "INDEX_op_not_i32 \<equiv> Unop op_not TCG_TYPE_I32"

abbreviation INDEX_op_neg_i32 :: opcode where "INDEX_op_neg_i32 \<equiv> Unop op_neg TCG_TYPE_I32"

abbreviation INDEX_op_andc_i32 :: opcode where "INDEX_op_andc_i32 \<equiv> Binop op_andc TCG_TYPE_I32"

abbreviation INDEX_op_orc_i32 :: opcode where "INDEX_op_orc_i32 \<equiv> Binop op_orc TCG_TYPE_I32"

abbreviation INDEX_op_eqv_i32 :: opcode where "INDEX_op_eqv_i32 \<equiv> Binop op_eqv TCG_TYPE_I32"

abbreviation INDEX_op_nand_i32 :: opcode where "INDEX_op_nand_i32 \<equiv> Binop op_nand TCG_TYPE_I32"

abbreviation INDEX_op_nor_i32 :: opcode where "INDEX_op_nor_i32 \<equiv> Binop op_nor TCG_TYPE_I32"

abbreviation INDEX_op_mov_i64 :: opcode where "INDEX_op_mov_i64 \<equiv> Mov TCG_TYPE_I64"

abbreviation INDEX_op_movi_i64 :: opcode where "INDEX_op_movi_i64 \<equiv> Movi TCG_TYPE_I64"

abbreviation INDEX_op_setcond_i64 :: opcode where "INDEX_op_setcond_i64 \<equiv> Setcond TCG_TYPE_I64"

abbreviation INDEX_op_ld8u_i64 :: opcode where "INDEX_op_ld8u_i64 \<equiv> Ld mem_8u TCG_TYPE_I64"

abbreviation INDEX_op_ld8s_i64 :: opcode where "INDEX_op_ld8s_i64 \<equiv> Ld mem_8s TCG_TYPE_I64"

abbreviation INDEX_op_ld16u_i64 :: opcode where "INDEX_op_ld16u_i64 \<equiv> Ld mem_16u TCG_TYPE_I64"

abbreviation INDEX_op_ld16s_i64 :: opcode where "INDEX_op_ld16s_i64 \<equiv> Ld mem_16s TCG_TYPE_I64"

abbreviation INDEX_op_ld32u_i64 :: opcode where "INDEX_op_ld32u_i64 \<equiv> Ld mem_32u TCG_TYPE_I64"

abbreviation INDEX_op_ld32s_i64 :: opcode where "INDEX_op_ld32s_i64 \<equiv> Ld mem_32s TCG_TYPE_I64"

abbreviation INDEX_op_ld_i64 :: opcode where "INDEX_op_ld_i64 \<equiv> Ld mem_full TCG_TYPE_I64"

abbreviation INDEX_op_st8_i64 :: opcode where "INDEX_op_st8_i64 \<equiv> St mem_8 TCG_TYPE_I64"

abbreviation INDEX_op_st16_i64 :: opcode where "INDEX_op_st16_i64 \<equiv> St mem_16 TCG_TYPE_I64"

abbreviation INDEX_op_st32_i64 :: opcode where "INDEX_op_st32_i64 \<equiv> St mem_32 TCG_TYPE_I64"

abbreviation INDEX_op_st_i64 :: opcode where "INDEX_op_st_i64 \<equiv> St mem_full TCG_TYPE_I64"

abbreviation INDEX_op_add_i64 :: opcode where "INDEX_op_add_i64 \<equiv> Binop op_add TCG_TYPE_I64"

abbreviation INDEX_op_sub_i64 :: opcode where "INDEX_op_sub_i64 \<equiv> Binop op_sub TCG_TYPE_I64"

abbreviation INDEX_op_mul_i64 :: opcode where "INDEX_op_mul_i64 \<equiv> Binop op_mul TCG_TYPE_I64"

abbreviation INDEX_op_div_i64 :: opcode where "INDEX_op_div_i64 \<equiv> Binop op_div TCG_TYPE_I64"

abbreviation INDEX_op_divu_i64 :: opcode where "INDEX_op_divu_i64 \<equiv> Binop op_divu TCG_TYPE_I64"

abbreviation INDEX_op_rem_i64 :: opcode where "INDEX_op_rem_i64 \<equiv> Binop op_rem TCG_TYPE_I64"

abbreviation INDEX_op_remu_i64 :: opcode where "INDEX_op_remu_i64 \<equiv> Binop op_remu TCG_TYPE_I64"

abbreviation INDEX_op_div2_i64 :: opcode where "INDEX_op_div2_i64 \<equiv> Div2 TCG_TYPE_I64"

abbreviation INDEX_op_divu2_i64 :: opcode where "INDEX_op_divu2_i64 \<equiv> Divu2 TCG_TYPE_I64"

abbreviation INDEX_op_and_i64 :: opcode where "INDEX_op_and_i64 \<equiv> Binop op_and TCG_TYPE_I64"

abbreviation INDEX_op_or_i64 :: opcode where "INDEX_op_or_i64 \<equiv> Binop op_or TCG_TYPE_I64"

abbreviation INDEX_op_xor_i64 :: opcode where "INDEX_op_xor_i64 \<equiv> Binop op_xor TCG_TYPE_I64"

abbreviation INDEX_op_shl_i64 :: opcode where "INDEX_op_shl_i64 \<equiv> Binop op_shl TCG_TYPE_I64"

abbreviation INDEX_op_shr_i64 :: opcode where "INDEX_op_shr_i64 \<equiv> Binop op_shr TCG_TYPE_I64"

abbreviation INDEX_op_sar_i64 :: opcode where "INDEX_op_sar_i64 \<equiv> Binop op_sar TCG_TYPE_I64"

abbreviation INDEX_op_rotl_i64 :: opcode where "INDEX_op_rotl_i64 \<equiv> Binop op_rotl TCG_TYPE_I64"

abbreviation INDEX_op_rotr_i64 :: opcode where "INDEX_op_rotr_i64 \<equiv> Binop op_rotr TCG_TYPE_I64"

abbreviation INDEX_op_deposit_i64 :: opcode where "INDEX_op_deposit_i64 \<equiv> Deposit TCG_TYPE_I64"

abbreviation INDEX_op_brcond_i64 :: opcode where "INDEX_op_brcond_i64 \<equiv> Brcond TCG_TYPE_I64"

abbreviation INDEX_op_ext8s_i64 :: opcode where "INDEX_op_ext8s_i64 \<equiv> Unop op_ext8s TCG_TYPE_I64"

abbreviation INDEX_op_ext16s_i64 :: opcode where "INDEX_op_ext16s_i64 \<equiv> Unop op_ext16s TCG_TYPE_I64"

abbreviation INDEX_op_ext32s_i64 :: opcode where "INDEX_op_ext32s_i64 \<equiv> Unop op_ext32s TCG_TYPE_I64"

abbreviation INDEX_op_ext8u_i64 :: opcode where "INDEX_op_ext8u_i64 \<equiv> Unop op_ext8u TCG_TYPE_I64"

abbreviation INDEX_op_ext16u_i64 :: opcode where "INDEX_op_ext16u_i64 \<equiv> Unop op_ext16u TCG_TYPE_I64"

abbreviation INDEX_op_ext32u_i64 :: opcode where "INDEX_op_ext32u_i64 \<equiv> Unop op_ext32u TCG_TYPE_I64"

abbreviation INDEX_op_bswap16_i64 :: opcode where "INDEX_op_bswap16_i64 \<equiv> Unop op_bswap16 TCG_TYPE_I64"

abbreviation INDEX_op_bswap32_i64 :: opcode where "INDEX_op_bswap32_i64 \<equiv> Unop op_bswap32 TCG_TYPE_I64"

abbreviation INDEX_op_bswap64_i64 :: opcode where "INDEX_op_bswap64_i64 \<equiv> Unop op_bswap64 TCG_TYPE_I64"

abbreviation INDEX_op_not_i64 :: opcode where "INDEX_op_not_i64 \<equiv> Unop op_not TCG_TYPE_I64"

abbreviation INDEX_op_neg_i64 :: opcode where "INDEX_op_neg_i64 \<equiv> Unop op_neg TCG_TYPE_I64"

abbreviation INDEX_op_andc_i64 :: opcode where "INDEX_op_andc_i64 \<equiv> Binop op_andc TCG_TYPE_I64"

abbreviation INDEX_op_orc_i64 :: opcode where "INDEX_op_orc_i64 \<equiv> Binop op_orc TCG_TYPE_I64"

abbreviation INDEX_op_eqv_i64 :: opcode where "INDEX_op_eqv_i64 \<equiv> Binop op_eqv TCG_TYPE_I64"

abbreviation INDEX_op_nand_i64 :: opcode where "INDEX_op_nand_i64 \<equiv> Binop op_nand TCG_TYPE_I64"

abbreviation INDEX_op_nor_i64 :: opcode where "INDEX_op_nor_i64 \<equiv> Binop op_nor TCG_TYPE_I64"

abbreviation INDEX_op_debug_insn_start :: opcode where "INDEX_op_debug_insn_start \<equiv> Control op_debug_insn_start"

abbreviation INDEX_op_exit_tb :: opcode where "INDEX_op_exit_tb \<equiv> Control op_exit_tb"

abbreviation INDEX_op_goto_tb :: opcode where "INDEX_op_goto_tb \<equiv> Control op_goto_tb"

abbreviation INDEX_op_qemu_ld8u :: opcode where "INDEX_op_qemu_ld8u \<equiv> Qemu_ld mem_8u"

abbreviation INDEX_op_qemu_ld8s :: opcode where "INDEX_op_qemu_ld8s \<equiv> Qemu_ld mem_8s"

abbreviation INDEX_op_qemu_ld16u :: opcode where "INDEX_op_qemu_ld16u \<equiv> Qemu_ld mem_16u"

abbreviation INDEX_op_qemu_ld16s :: opcode where "INDEX_op_qemu_ld16s \<equiv> Qemu_ld mem_16s"

abbreviation INDEX_op_qemu_ld32 :: opcode where "INDEX_op_qemu_ld32 \<equiv> Qemu_ld mem_32"

abbreviation INDEX_op_qemu_ld32u :: opcode where "INDEX_op_qemu_ld32u \<equiv> Qemu_ld mem_32u"

abbreviation INDEX_op_qemu_ld32s :: opcode where "INDEX_op_qemu_ld32s \<equiv> Qemu_ld mem_32s"

abbreviation INDEX_op_qemu_ld64 :: opcode where "INDEX_op_qemu_ld64 \<equiv> Qemu_ld mem_64"

abbreviation INDEX_op_qemu_st8 :: opcode where "INDEX_op_qemu_st8 \<equiv> Qemu_st mem_8"

abbreviation INDEX_op_qemu_st16 :: opcode where "INDEX_op_qemu_st16 \<equiv> Qemu_st mem_16"

abbreviation INDEX_op_qemu_st32 :: opcode where "INDEX_op_qemu_st32 \<equiv> Qemu_st mem_32"

abbreviation INDEX_op_qemu_st64 :: opcode where "INDEX_op_qemu_st64 \<equiv> Qemu_st mem_64"

abbreviation INDEX_op_taint_qemu_ld8u :: opcode where "INDEX_op_taint_qemu_ld8u \<equiv> Taint_qemu_ld mem_8u"

abbreviation INDEX_op_taint_qemu_ld8s :: opcode where "INDEX_op_taint_qemu_ld8s \<equiv> Taint_qemu_ld mem_8s"

abbreviation INDEX_op_taint_qemu_ld16u :: opcode where "INDEX_op_taint_qemu_ld16u \<equiv> Taint_qemu_ld mem_16u"

abbreviation INDEX_op_taint_qemu_ld16s :: opcode where "INDEX_op_taint_qemu_ld16s \<equiv> Taint_qemu_ld mem_16s"

abbreviation INDEX_op_taint_qemu_ld32 :: opcode where "INDEX_op_taint_qemu_ld32 \<equiv> Taint_qemu_ld mem_32"

abbreviation INDEX_op_taint_qemu_ld32u :: opcode where "INDEX_op_taint_qemu_ld32u \<equiv> Taint_qemu_ld mem_32u"

abbreviation INDEX_op_taint_qemu_ld32s :: opcode where "INDEX_op_taint_qemu_ld32s \<equiv> Taint_qemu_ld mem_32s"

abbreviation INDEX_op_taint_qemu_ld64 :: opcode where "INDEX_op_taint_qemu_ld64 \<equiv> Taint_qemu_ld mem_64"

abbreviation INDEX_op_taint_qemu_st8 :: opcode where "INDEX_op_taint_qemu_st8 \<equiv> Taint_qemu_st mem_8"

abbreviation INDEX_op_taint_qemu_st16 :: opcode where "INDEX_op_taint_qemu_st16 \<equiv> Taint_qemu_st mem_16"

abbreviation INDEX_op_taint_qemu_st32 :: opcode where "INDEX_op_taint_qemu_st32 \<equiv> Taint_qemu_st mem_32"

abbreviation INDEX_op_taint_qemu_st64 :: opcode where "INDEX_op_taint_qemu_st64 \<equiv> Taint_qemu_st mem_64"


text \<open>The table of argument counts: outputs, inputs, constants.\<close>

fun ctl_cargs :: "ctlop \<Rightarrow> nat" where
  "ctl_cargs op_end = 0"
| "ctl_cargs op_nop = 0"
| "ctl_cargs op_nop1 = 1"
| "ctl_cargs op_nop2 = 2"
| "ctl_cargs op_nop3 = 3"
| "ctl_cargs op_nopn = 1"
| "ctl_cargs op_set_label = 1"
| "ctl_cargs op_jmp = 0"
| "ctl_cargs op_br = 1"
| "ctl_cargs op_debug_insn_start = 1"
| "ctl_cargs op_exit_tb = 1"
| "ctl_cargs op_goto_tb = 1"

fun tcg_op_defs :: "opcode \<Rightarrow> nat \<times> nat \<times> nat" where
  "tcg_op_defs (Control c) = (0, if c = op_jmp then 1 else 0, ctl_cargs c)"
| "tcg_op_defs INDEX_op_discard = (1, 0, 0)"
| "tcg_op_defs INDEX_op_call = (0, 1, 2)"
| "tcg_op_defs INDEX_op_DECAF_checkeip = (0, 2, 0)"
| "tcg_op_defs (Mov _) = (1, 1, 0)"
| "tcg_op_defs (Movi _) = (1, 0, 1)"
| "tcg_op_defs (Setcond _) = (1, 2, 1)"
| "tcg_op_defs (Ld _ _) = (1, 1, 1)"
| "tcg_op_defs (St _ _) = (0, 2, 1)"
| "tcg_op_defs (Binop _ _) = (1, 2, 0)"
| "tcg_op_defs (Div2 _) = (2, 3, 0)"
| "tcg_op_defs (Divu2 _) = (2, 3, 0)"
| "tcg_op_defs (Deposit _) = (1, 2, 2)"
| "tcg_op_defs (Brcond _) = (0, 2, 2)"
| "tcg_op_defs INDEX_op_add2_i32 = (2, 4, 0)"
| "tcg_op_defs INDEX_op_sub2_i32 = (2, 4, 0)"
| "tcg_op_defs INDEX_op_brcond2_i32 = (0, 4, 2)"
| "tcg_op_defs INDEX_op_mulu2_i32 = (2, 2, 0)"
| "tcg_op_defs INDEX_op_setcond2_i32 = (1, 4, 1)"
| "tcg_op_defs (Unop _ _) = (1, 1, 0)"
| "tcg_op_defs (Qemu_ld _) = (1, 1, 1)"
| "tcg_op_defs (Qemu_st _) = (0, 2, 1)"
| "tcg_op_defs (Taint_qemu_ld _) = (1, 1, 1)"
| "tcg_op_defs (Taint_qemu_st _) = (0, 2, 1)"

text \<open>
  The counts of the operation at the front of the stream.  A call carries its counts in its
  first argument and \<open>nopn\<close> its own length.
\<close>

record op_counts =
  nb_oargs :: nat
  nb_iargs :: nat
  nb_cargs :: nat
  nb_args :: nat

fun op_arg_counts :: "opcode \<Rightarrow> nat list \<Rightarrow> op_counts" where
  "op_arg_counts opc params =
     (let (o', i, c) = tcg_op_defs opc; arg = hd (params @ [0])
      in if opc = INDEX_op_call then
           let nbo = drop_bit 16 arg; nbi = take_bit 16 arg
           in \<lparr>nb_oargs = nbo, nb_iargs = nbi, nb_cargs = c, nb_args = nbo + nbi + c + 1\<rparr>
         else if opc = INDEX_op_nopn then
           \<lparr>nb_oargs = 0, nb_iargs = 0, nb_cargs = arg, nb_args = arg\<rparr>
         else \<lparr>nb_oargs = o', nb_iargs = i, nb_cargs = c, nb_args = o' + i + c\<rparr>)"

section \<open>Instruction streams\<close>

text \<open>An instruction is an opcode with its arguments; the buffers hold a list of them flattened.\<close>

type_synonym TCGArg = nat
type_synonym insn = "opcode \<times> TCGArg list"

definition wf_insn :: "insn \<Rightarrow> bool" where
  "wf_insn i \<longleftrightarrow> nb_args (op_arg_counts (fst i) (snd i)) = length (snd i) \<and>
     (fst i \<in> {INDEX_op_call, INDEX_op_nopn} \<longrightarrow> snd i \<noteq> [])"

fun decode :: "opcode list \<Rightarrow> TCGArg list \<Rightarrow> insn list" where
  "decode [] params = []"
| "decode (opc # opcs) params =
     (let n = nb_args (op_arg_counts opc params)
      in (opc, take n params) # decode opcs (drop n params))"

lemma op_arg_counts_append:
  "opc \<in> {INDEX_op_call, INDEX_op_nopn} \<longrightarrow> params \<noteq> [] \<Longrightarrow>
     op_arg_counts opc (params @ rest) = op_arg_counts opc params"
  by (cases params) auto

lemma decode_append_insn:
  assumes "wf_insn (opc, args)"
  shows "decode (opc # opcs) (args @ params) = (opc, args) # decode opcs params"
proof -
  have "op_arg_counts opc (args @ params) = op_arg_counts opc args"
    using assms by (intro op_arg_counts_append) (auto simp: wf_insn_def)
  then show ?thesis
    using assms by (simp add: wf_insn_def del: op_arg_counts.simps)
qed

theorem decode_encode:
  "list_all wf_insn is \<Longrightarrow> decode (map fst is) (concat (map snd is)) = is"
proof (induction "is")
  case Nil
  then show ?case by simp
next
  case (Cons i "is")
  then show ?case
    by (cases i) (simp add: decode_append_insn del: decode.simps(2))
qed

section \<open>Generator state\<close>

record tcg_temp =
  base_type :: TCGType
  temp_local :: bool
  temp_allocated :: bool
  next_free_temp :: int
  temp_val :: int

text \<open>The helpers of op_helper.c that the taint rules recognise by their address.\<close>

datatype helper =
    helper_inb | helper_inw | helper_inl | helper_outb | helper_outw | helper_outl
  | helper_DECAF_taint_cmpxchg | helper_rdmsr | helper_rdtsc | helper_rdtscp | helper_cpuid
  | helper_sysexit | helper_divb_AL | helper_idivb_AL | helper_divw_AX | helper_idivw_AX
  | helper_divl_EAX | helper_idivl_EAX | helper_DECAF_invoke_eip_check_callback

text \<open>The fields of the guest CPU structure that instrumented code accesses by offset.\<close>

datatype cpu_field =
    off_tempidx | off_taint_EAX | off_taint_EBX | off_taint_ECX | off_taint_EDX | off_taint_ESP
  | off_eip_taint

text \<open>The static flags of helper_i386_check.h.\<close>

record helper_flags =
  in_helper_func :: bool
  out_helper_func :: bool
  sysexit_helper_func :: bool
  divb_helper_func :: bool
  divw_helper_func :: bool
  divl_helper_func :: bool
  clean_eax_after :: bool
  clean_ebx_after :: bool
  clean_ecx_after :: bool
  clean_edx_after :: bool
  clean_esp_after :: bool
  clean_tempidx_before :: bool

text \<open>The metadata kept per operation to map host code back to guest instructions.\<close>

record op_meta =
  opc_pc :: u32
  opc_instr_start :: bool
  opc_icount :: nat
  opc_cc_op :: nat

record gen_state =
  taint_tracking_enabled :: bool
  taint_load_pointers_enabled :: bool
  taint_store_pointers_enabled :: bool
  eip_check_needed :: bool
  helper_addr :: "helper \<Rightarrow> u64"
  cpu_offset :: "cpu_field \<Rightarrow> nat"
  nb_globals :: nat
  nb_temps :: nat
  temps :: "nat \<Rightarrow> tcg_temp"
  first_free_temp :: "nat \<Rightarrow> int"
  gen_opc_buf :: "opcode list"
  gen_opparam_buf :: "TCGArg list"
  gen_old_opc_ptr :: nat
  gen_old_opparam_ptr :: nat
  gen_opc_meta :: "nat \<Rightarrow> op_meta"
  shadow_arg :: "nat \<Rightarrow> nat"
  cpu_env :: nat
  tempidx :: nat
  taint_log_temps :: "nat list"
  hflags :: helper_flags
  aborted :: bool

type_synonym 'a gen = "(gen_state, 'a) state"

lemma run_bind [gen_simps]:
  "run_state (m \<bind> f) s = (case run_state m s of (x, s') \<Rightarrow> run_state (f x) s')"
  by (cases m) (auto simp: State_Monad.bind_def split: prod.splits)

lemma run_return [gen_simps]: "run_state (State_Monad.return x) s = (x, s)"
  by (simp add: State_Monad.return_def)

lemma run_get [gen_simps]: "run_state State_Monad.get s = (s, s)"
  by (simp add: State_Monad.get_def)

lemma run_set [gen_simps]: "run_state (State_Monad.set s') s = ((), s')"
  by (simp add: State_Monad.set_def)

lemma run_update [gen_simps]: "run_state (State_Monad.update f) s = ((), f s)"
  by (simp add: State_Monad.update_def gen_simps)

definition tcg_abort :: "unit gen" where
  "tcg_abort = State_Monad.update (\<lambda>s. s\<lparr>aborted := True\<rparr>)"

definition c_assert :: "bool \<Rightarrow> unit gen" where
  "c_assert b = (if b then State_Monad.return () else tcg_abort)"

section \<open>Temporaries\<close>

definition TCG_MAX_TEMPS :: nat where
  "TCG_MAX_TEMPS = 2048"

fun type_index :: "TCGType \<Rightarrow> nat" where
  "type_index TCG_TYPE_I32 = 0"
| "type_index TCG_TYPE_I64 = 1"

definition TCG_TYPE_COUNT :: nat where
  "TCG_TYPE_COUNT = 2"

definition free_list_index :: "TCGType \<Rightarrow> bool \<Rightarrow> nat" where
  "free_list_index ty loc = type_index ty + (if loc then TCG_TYPE_COUNT else 0)"

definition tcg_func_start :: "unit gen" where
  "tcg_func_start = State_Monad.update (\<lambda>s. s\<lparr>
     nb_temps := nb_globals s,
     first_free_temp := (\<lambda>k. if k < TCG_TYPE_COUNT * 2 then - 1 else first_free_temp s k),
     gen_opc_buf := [], gen_opparam_buf := []\<rparr>)"

definition tcg_temp_alloc :: "nat \<Rightarrow> unit gen" where
  "tcg_temp_alloc n = (if n > TCG_MAX_TEMPS then tcg_abort else State_Monad.return ())"

definition tcg_global_new :: "TCGType \<Rightarrow> nat gen" where
  "tcg_global_new ty = do {
     s \<leftarrow> State_Monad.get;
     let idx = nb_globals s;
     tcg_temp_alloc (idx + 1);
     State_Monad.update (\<lambda>s. s\<lparr>temps := (temps s)(idx := (temps s idx)\<lparr>base_type := ty\<rparr>),
                               nb_globals := idx + 1\<rparr>);
     State_Monad.return idx }"

definition tcg_temp_new_internal :: "TCGType \<Rightarrow> bool \<Rightarrow> nat gen" where
  "tcg_temp_new_internal ty loc = do {
     s \<leftarrow> State_Monad.get;
     let k = free_list_index ty loc;
     let idx = first_free_temp s k;
     if idx \<noteq> - 1 then do {
       let i = nat idx;
       State_Monad.update (\<lambda>s. s\<lparr>
         first_free_temp := (first_free_temp s)(k := next_free_temp (temps s i)),
         temps := (temps s)(i := (temps s i)\<lparr>temp_allocated := True\<rparr>)\<rparr>);
       c_assert (temp_local (temps s i) = loc);
       State_Monad.return i }
     else do {
       let i = nb_temps s;
       tcg_temp_alloc (i + 1);
       State_Monad.update (\<lambda>s. s\<lparr>
         temps := (temps s)(i := (temps s i)\<lparr>base_type := ty, temp_allocated := True,
                                            temp_local := loc\<rparr>),
         nb_temps := i + 1\<rparr>);
       State_Monad.return i } }"

definition tcg_temp_new_i32 :: "nat gen" where
  "tcg_temp_new_i32 = tcg_temp_new_internal TCG_TYPE_I32 False"

definition tcg_temp_local_new_i32 :: "nat gen" where
  "tcg_temp_local_new_i32 = tcg_temp_new_internal TCG_TYPE_I32 True"

definition tcg_temp_new_i64 :: "nat gen" where
  "tcg_temp_new_i64 = tcg_temp_new_internal TCG_TYPE_I64 False"

definition tcg_temp_local_new_i64 :: "nat gen" where
  "tcg_temp_local_new_i64 = tcg_temp_new_internal TCG_TYPE_I64 True"

definition tcg_temp_free_internal :: "nat \<Rightarrow> unit gen" where
  "tcg_temp_free_internal idx = do {
     s \<leftarrow> State_Monad.get;
     if taint_tracking_enabled s then State_Monad.return ()
     else do {
       c_assert (nb_globals s \<le> idx \<and> idx < nb_temps s);
       c_assert (temp_allocated (temps s idx));
       let k = free_list_index (base_type (temps s idx)) (temp_local (temps s idx));
       State_Monad.update (\<lambda>s. s\<lparr>
         temps := (temps s)(idx := (temps s idx)\<lparr>temp_allocated := False,
                                                next_free_temp := first_free_temp s k\<rparr>),
         first_free_temp := (first_free_temp s)(k := int idx)\<rparr>) } }"

section \<open>Emitters\<close>

definition emit :: "opcode \<Rightarrow> TCGArg list \<Rightarrow> gen_state \<Rightarrow> gen_state" where
  "emit opc args s = s\<lparr>gen_opc_buf := gen_opc_buf s @ [opc],
                      gen_opparam_buf := gen_opparam_buf s @ args\<rparr>"

text \<open>The last \<open>n\<close> parameters and the last opcode are taken back.\<close>

definition rewind :: "nat \<Rightarrow> unit gen" where
  "rewind n = State_Monad.update (\<lambda>s. s\<lparr>
     gen_opc_buf := butlast (gen_opc_buf s),
     gen_opparam_buf := take (length (gen_opparam_buf s) - n) (gen_opparam_buf s)\<rparr>)"

text \<open>\<open>gen_opparam_ptr[-k]\<close>.\<close>

definition opparam :: "nat \<Rightarrow> TCGArg gen" where
  "opparam k = State_Monad.bind State_Monad.get (\<lambda>s.
     State_Monad.return (gen_opparam_buf s ! (length (gen_opparam_buf s) - k)))"

definition tcg_gen_op1_i32 :: "opcode \<Rightarrow> nat \<Rightarrow> unit gen" where
  "tcg_gen_op1_i32 opc arg1 = State_Monad.update (emit opc [arg1])"

definition tcg_gen_op2_i32 :: "opcode \<Rightarrow> nat \<Rightarrow> nat \<Rightarrow> unit gen" where
  "tcg_gen_op2_i32 opc arg1 arg2 = State_Monad.update (emit opc [arg1, arg2])"

definition tcg_gen_op2_i64 :: "opcode \<Rightarrow> nat \<Rightarrow> nat \<Rightarrow> unit gen" where
  "tcg_gen_op2_i64 opc arg1 arg2 = State_Monad.update (emit opc [arg1, arg2])"

text \<open>A C constant of type \<open>int32_t\<close> is sign-extended to a \<open>TCGArg\<close>.\<close>

definition arg_of_i32 :: "u32 \<Rightarrow> TCGArg" where
  "arg_of_i32 c = unat (scast c :: u64)"

definition arg_of_i64 :: "u64 \<Rightarrow> TCGArg" where
  "arg_of_i64 c = unat c"

definition tcg_gen_op2i_i32 :: "opcode \<Rightarrow> nat \<Rightarrow> TCGArg \<Rightarrow> unit gen" where
  "tcg_gen_op2i_i32 opc arg1 arg2 = State_Monad.update (emit opc [arg1, arg2])"

definition tcg_gen_op2i_i64 :: "opcode \<Rightarrow> nat \<Rightarrow> TCGArg \<Rightarrow> unit gen" where
  "tcg_gen_op2i_i64 opc arg1 arg2 = State_Monad.update (emit opc [arg1, arg2])"

definition tcg_gen_op3_i32 :: "opcode \<Rightarrow> nat \<Rightarrow> nat \<Rightarrow> nat \<Rightarrow> unit gen" where
  "tcg_gen_op3_i32 opc arg1 arg2 arg3 = State_Monad.update (emit opc [arg1, arg2, arg3])"

definition tcg_gen_op3_i64 :: "opcode \<Rightarrow> nat \<Rightarrow> nat \<Rightarrow> nat \<Rightarrow> unit gen" where
  "tcg_gen_op3_i64 opc arg1 arg2 arg3 = State_Monad.update (emit opc [arg1, arg2, arg3])"

definition tcg_gen_ldst_op_i32 :: "opcode \<Rightarrow> nat \<Rightarrow> nat \<Rightarrow> TCGArg \<Rightarrow> unit gen" where
  "tcg_gen_ldst_op_i32 opc val base offset = State_Monad.update (emit opc [val, base, offset])"

definition tcg_gen_op4i_i32 :: "opcode \<Rightarrow> nat \<Rightarrow> nat \<Rightarrow> nat \<Rightarrow> TCGArg \<Rightarrow> unit gen" where
  "tcg_gen_op4i_i32 opc arg1 arg2 arg3 arg4 = State_Monad.update (emit opc [arg1, arg2, arg3, arg4])"

definition tcg_gen_op4i_i64 :: "opcode \<Rightarrow> nat \<Rightarrow> nat \<Rightarrow> nat \<Rightarrow> TCGArg \<Rightarrow> unit gen" where
  "tcg_gen_op4i_i64 opc arg1 arg2 arg3 arg4 = State_Monad.update (emit opc [arg1, arg2, arg3, arg4])"

definition tcg_gen_op5ii_i32 ::
    "opcode \<Rightarrow> nat \<Rightarrow> nat \<Rightarrow> nat \<Rightarrow> TCGArg \<Rightarrow> TCGArg \<Rightarrow> unit gen" where
  "tcg_gen_op5ii_i32 opc arg1 arg2 arg3 arg4 arg5 =
     State_Monad.update (emit opc [arg1, arg2, arg3, arg4, arg5])"

text \<open>The numbering of the condition codes is that of the enumeration.\<close>

fun cond_arg :: "TCGCond \<Rightarrow> TCGArg" where
  "cond_arg TCG_COND_EQ = 0"
| "cond_arg TCG_COND_NE = 1"
| "cond_arg TCG_COND_LT = 2"
| "cond_arg TCG_COND_GE = 3"
| "cond_arg TCG_COND_LE = 4"
| "cond_arg TCG_COND_GT = 5"
| "cond_arg TCG_COND_LTU = 6"
| "cond_arg TCG_COND_GEU = 7"
| "cond_arg TCG_COND_LEU = 8"
| "cond_arg TCG_COND_GTU = 9"

definition cond_of_arg :: "TCGArg \<Rightarrow> TCGCond option" where
  "cond_of_arg c = (let cs = [TCG_COND_EQ, TCG_COND_NE, TCG_COND_LT, TCG_COND_GE, TCG_COND_LE,
       TCG_COND_GT, TCG_COND_LTU, TCG_COND_GEU, TCG_COND_LEU, TCG_COND_GTU]
     in if c < length cs then Some (cs ! c) else None)"

lemma cond_of_cond_arg [simp]: "cond_of_arg (cond_arg c) = Some c"
  by (cases c) (simp_all add: cond_of_arg_def)

definition tcg_gen_mov_i32 :: "nat \<Rightarrow> nat \<Rightarrow> unit gen" where
  "tcg_gen_mov_i32 ret arg =
     (if ret \<noteq> arg then tcg_gen_op2_i32 INDEX_op_mov_i32 ret arg else State_Monad.return ())"

definition tcg_gen_movi_i32 :: "nat \<Rightarrow> u32 \<Rightarrow> unit gen" where
  "tcg_gen_movi_i32 ret arg = tcg_gen_op2i_i32 INDEX_op_movi_i32 ret (arg_of_i32 arg)"

definition tcg_gen_add_i32 :: "nat \<Rightarrow> nat \<Rightarrow> nat \<Rightarrow> unit gen" where
  "tcg_gen_add_i32 ret arg1 arg2 = tcg_gen_op3_i32 INDEX_op_add_i32 ret arg1 arg2"

definition tcg_gen_sub_i32 :: "nat \<Rightarrow> nat \<Rightarrow> nat \<Rightarrow> unit gen" where
  "tcg_gen_sub_i32 ret arg1 arg2 = tcg_gen_op3_i32 INDEX_op_sub_i32 ret arg1 arg2"

definition tcg_gen_mul_i32 :: "nat \<Rightarrow> nat \<Rightarrow> nat \<Rightarrow> unit gen" where
  "tcg_gen_mul_i32 ret arg1 arg2 = tcg_gen_op3_i32 INDEX_op_mul_i32 ret arg1 arg2"

definition tcg_gen_shl_i32 :: "nat \<Rightarrow> nat \<Rightarrow> nat \<Rightarrow> unit gen" where
  "tcg_gen_shl_i32 ret arg1 arg2 = tcg_gen_op3_i32 INDEX_op_shl_i32 ret arg1 arg2"

definition tcg_gen_shr_i32 :: "nat \<Rightarrow> nat \<Rightarrow> nat \<Rightarrow> unit gen" where
  "tcg_gen_shr_i32 ret arg1 arg2 = tcg_gen_op3_i32 INDEX_op_shr_i32 ret arg1 arg2"

definition tcg_gen_sar_i32 :: "nat \<Rightarrow> nat \<Rightarrow> nat \<Rightarrow> unit gen" where
  "tcg_gen_sar_i32 ret arg1 arg2 = tcg_gen_op3_i32 INDEX_op_sar_i32 ret arg1 arg2"

definition tcg_gen_rotl_i32 :: "nat \<Rightarrow> nat \<Rightarrow> nat \<Rightarrow> unit gen" where
  "tcg_gen_rotl_i32 ret arg1 arg2 = tcg_gen_op3_i32 INDEX_op_rotl_i32 ret arg1 arg2"

definition tcg_gen_rotr_i32 :: "nat \<Rightarrow> nat \<Rightarrow> nat \<Rightarrow> unit gen" where
  "tcg_gen_rotr_i32 ret arg1 arg2 = tcg_gen_op3_i32 INDEX_op_rotr_i32 ret arg1 arg2"

definition tcg_gen_and_i32 :: "nat \<Rightarrow> nat \<Rightarrow> nat \<Rightarrow> unit gen" where
  "tcg_gen_and_i32 ret arg1 arg2 =
     (if arg1 = arg2 then tcg_gen_mov_i32 ret arg1
      else tcg_gen_op3_i32 INDEX_op_and_i32 ret arg1 arg2)"

definition tcg_gen_or_i32 :: "nat \<Rightarrow> nat \<Rightarrow> nat \<Rightarrow> unit gen" where
  "tcg_gen_or_i32 ret arg1 arg2 =
     (if arg1 = arg2 then tcg_gen_mov_i32 ret arg1
      else tcg_gen_op3_i32 INDEX_op_or_i32 ret arg1 arg2)"

definition tcg_gen_xor_i32 :: "nat \<Rightarrow> nat \<Rightarrow> nat \<Rightarrow> unit gen" where
  "tcg_gen_xor_i32 ret arg1 arg2 =
     (if arg1 = arg2 then tcg_gen_movi_i32 ret 0
      else tcg_gen_op3_i32 INDEX_op_xor_i32 ret arg1 arg2)"

definition tcg_gen_setcond_i32 :: "TCGArg \<Rightarrow> nat \<Rightarrow> nat \<Rightarrow> nat \<Rightarrow> unit gen" where
  "tcg_gen_setcond_i32 cond ret arg1 arg2 = tcg_gen_op4i_i32 INDEX_op_setcond_i32 ret arg1 arg2 cond"

definition tcg_gen_ext8s_i32 :: "nat \<Rightarrow> nat \<Rightarrow> unit gen" where
  "tcg_gen_ext8s_i32 ret arg = tcg_gen_op2_i32 INDEX_op_ext8s_i32 ret arg"

definition tcg_gen_ext16s_i32 :: "nat \<Rightarrow> nat \<Rightarrow> unit gen" where
  "tcg_gen_ext16s_i32 ret arg = tcg_gen_op2_i32 INDEX_op_ext16s_i32 ret arg"

definition tcg_gen_ext8u_i32 :: "nat \<Rightarrow> nat \<Rightarrow> unit gen" where
  "tcg_gen_ext8u_i32 ret arg = tcg_gen_op2_i32 INDEX_op_ext8u_i32 ret arg"

definition tcg_gen_ext16u_i32 :: "nat \<Rightarrow> nat \<Rightarrow> unit gen" where
  "tcg_gen_ext16u_i32 ret arg = tcg_gen_op2_i32 INDEX_op_ext16u_i32 ret arg"

definition tcg_gen_bswap16_i32 :: "nat \<Rightarrow> nat \<Rightarrow> unit gen" where
  "tcg_gen_bswap16_i32 ret arg = tcg_gen_op2_i32 INDEX_op_bswap16_i32 ret arg"

definition tcg_gen_bswap32_i32 :: "nat \<Rightarrow> nat \<Rightarrow> unit gen" where
  "tcg_gen_bswap32_i32 ret arg = tcg_gen_op2_i32 INDEX_op_bswap32_i32 ret arg"

definition tcg_gen_neg_i32 :: "nat \<Rightarrow> nat \<Rightarrow> unit gen" where
  "tcg_gen_neg_i32 ret arg = tcg_gen_op2_i32 INDEX_op_neg_i32 ret arg"

definition tcg_gen_not_i32 :: "nat \<Rightarrow> nat \<Rightarrow> unit gen" where
  "tcg_gen_not_i32 ret arg = tcg_gen_op2_i32 INDEX_op_not_i32 ret arg"

definition tcg_gen_mov_i64 :: "nat \<Rightarrow> nat \<Rightarrow> unit gen" where
  "tcg_gen_mov_i64 ret arg =
     (if ret \<noteq> arg then tcg_gen_op2_i64 INDEX_op_mov_i64 ret arg else State_Monad.return ())"

definition tcg_gen_movi_i64 :: "nat \<Rightarrow> u64 \<Rightarrow> unit gen" where
  "tcg_gen_movi_i64 ret arg = tcg_gen_op2i_i64 INDEX_op_movi_i64 ret (arg_of_i64 arg)"

definition tcg_gen_add_i64 :: "nat \<Rightarrow> nat \<Rightarrow> nat \<Rightarrow> unit gen" where
  "tcg_gen_add_i64 ret arg1 arg2 = tcg_gen_op3_i64 INDEX_op_add_i64 ret arg1 arg2"

definition tcg_gen_sub_i64 :: "nat \<Rightarrow> nat \<Rightarrow> nat \<Rightarrow> unit gen" where
  "tcg_gen_sub_i64 ret arg1 arg2 = tcg_gen_op3_i64 INDEX_op_sub_i64 ret arg1 arg2"

definition tcg_gen_mul_i64 :: "nat \<Rightarrow> nat \<Rightarrow> nat \<Rightarrow> unit gen" where
  "tcg_gen_mul_i64 ret arg1 arg2 = tcg_gen_op3_i64 INDEX_op_mul_i64 ret arg1 arg2"

definition tcg_gen_shl_i64 :: "nat \<Rightarrow> nat \<Rightarrow> nat \<Rightarrow> unit gen" where
  "tcg_gen_shl_i64 ret arg1 arg2 = tcg_gen_op3_i64 INDEX_op_shl_i64 ret arg1 arg2"

definition tcg_gen_shr_i64 :: "nat \<Rightarrow> nat \<Rightarrow> nat \<Rightarrow> unit gen" where
  "tcg_gen_shr_i64 ret arg1 arg2 = tcg_gen_op3_i64 INDEX_op_shr_i64 ret arg1 arg2"

definition tcg_gen_sar_i64 :: "nat \<Rightarrow> nat \<Rightarrow> nat \<Rightarrow> unit gen" where
  "tcg_gen_sar_i64 ret arg1 arg2 = tcg_gen_op3_i64 INDEX_op_sar_i64 ret arg1 arg2"

definition tcg_gen_rotl_i64 :: "nat \<Rightarrow> nat \<Rightarrow> nat \<Rightarrow> unit gen" where
  "tcg_gen_rotl_i64 ret arg1 arg2 = tcg_gen_op3_i64 INDEX_op_rotl_i64 ret arg1 arg2"

definition tcg_gen_rotr_i64 :: "nat \<Rightarrow> nat \<Rightarrow> nat \<Rightarrow> unit gen" where
  "tcg_gen_rotr_i64 ret arg1 arg2 = tcg_gen_op3_i64 INDEX_op_rotr_i64 ret arg1 arg2"

definition tcg_gen_and_i64 :: "nat \<Rightarrow> nat \<Rightarrow> nat \<Rightarrow> unit gen" where
  "tcg_gen_and_i64 ret arg1 arg2 =
     (if arg1 = arg2 then tcg_gen_mov_i64 ret arg1
      else tcg_gen_op3_i64 INDEX_op_and_i64 ret arg1 arg2)"

definition tcg_gen_or_i64 :: "nat \<Rightarrow> nat \<Rightarrow> nat \<Rightarrow> unit gen" where
  "tcg_gen_or_i64 ret arg1 arg2 =
     (if arg1 = arg2 then tcg_gen_mov_i64 ret arg1
      else tcg_gen_op3_i64 INDEX_op_or_i64 ret arg1 arg2)"

definition tcg_gen_xor_i64 :: "nat \<Rightarrow> nat \<Rightarrow> nat \<Rightarrow> unit gen" where
  "tcg_gen_xor_i64 ret arg1 arg2 =
     (if arg1 = arg2 then tcg_gen_movi_i64 ret 0
      else tcg_gen_op3_i64 INDEX_op_xor_i64 ret arg1 arg2)"

definition tcg_gen_setcond_i64 :: "TCGArg \<Rightarrow> nat \<Rightarrow> nat \<Rightarrow> nat \<Rightarrow> unit gen" where
  "tcg_gen_setcond_i64 cond ret arg1 arg2 = tcg_gen_op4i_i64 INDEX_op_setcond_i64 ret arg1 arg2 cond"

definition tcg_gen_ext8s_i64 :: "nat \<Rightarrow> nat \<Rightarrow> unit gen" where
  "tcg_gen_ext8s_i64 ret arg = tcg_gen_op2_i64 INDEX_op_ext8s_i64 ret arg"

definition tcg_gen_ext16s_i64 :: "nat \<Rightarrow> nat \<Rightarrow> unit gen" where
  "tcg_gen_ext16s_i64 ret arg = tcg_gen_op2_i64 INDEX_op_ext16s_i64 ret arg"

definition tcg_gen_ext32s_i64 :: "nat \<Rightarrow> nat \<Rightarrow> unit gen" where
  "tcg_gen_ext32s_i64 ret arg = tcg_gen_op2_i64 INDEX_op_ext32s_i64 ret arg"

definition tcg_gen_ext8u_i64 :: "nat \<Rightarrow> nat \<Rightarrow> unit gen" where
  "tcg_gen_ext8u_i64 ret arg = tcg_gen_op2_i64 INDEX_op_ext8u_i64 ret arg"

definition tcg_gen_ext16u_i64 :: "nat \<Rightarrow> nat \<Rightarrow> unit gen" where
  "tcg_gen_ext16u_i64 ret arg = tcg_gen_op2_i64 INDEX_op_ext16u_i64 ret arg"

definition tcg_gen_ext32u_i64 :: "nat \<Rightarrow> nat \<Rightarrow> unit gen" where
  "tcg_gen_ext32u_i64 ret arg = tcg_gen_op2_i64 INDEX_op_ext32u_i64 ret arg"

definition tcg_gen_bswap16_i64 :: "nat \<Rightarrow> nat \<Rightarrow> unit gen" where
  "tcg_gen_bswap16_i64 ret arg = tcg_gen_op2_i64 INDEX_op_bswap16_i64 ret arg"

definition tcg_gen_bswap32_i64 :: "nat \<Rightarrow> nat \<Rightarrow> unit gen" where
  "tcg_gen_bswap32_i64 ret arg = tcg_gen_op2_i64 INDEX_op_bswap32_i64 ret arg"

definition tcg_gen_bswap64_i64 :: "nat \<Rightarrow> nat \<Rightarrow> unit gen" where
  "tcg_gen_bswap64_i64 ret arg = tcg_gen_op2_i64 INDEX_op_bswap64_i64 ret arg"

definition tcg_gen_neg_i64 :: "nat \<Rightarrow> nat \<Rightarrow> unit gen" where
  "tcg_gen_neg_i64 ret arg = tcg_gen_op2_i64 INDEX_op_neg_i64 ret arg"

definition tcg_gen_not_i64 :: "nat \<Rightarrow> nat \<Rightarrow> unit gen" where
  "tcg_gen_not_i64 ret arg = tcg_gen_op2_i64 INDEX_op_not_i64 ret arg"

definition tcg_gen_discard_i32 :: "nat \<Rightarrow> unit gen" where
  "tcg_gen_discard_i32 arg = tcg_gen_op1_i32 INDEX_op_discard arg"

definition tcg_gen_ld_i32 :: "nat \<Rightarrow> nat \<Rightarrow> nat \<Rightarrow> unit gen" where
  "tcg_gen_ld_i32 ret arg2 offset = tcg_gen_ldst_op_i32 INDEX_op_ld_i32 ret arg2 offset"

definition tcg_gen_st_i32 :: "nat \<Rightarrow> nat \<Rightarrow> nat \<Rightarrow> unit gen" where
  "tcg_gen_st_i32 arg1 arg2 offset = tcg_gen_ldst_op_i32 INDEX_op_st_i32 arg1 arg2 offset"

text \<open>On a 32-bit guest the \<open>tl\<close> operations are the 32-bit ones.\<close>

abbreviation tcg_gen_mov_tl :: "nat \<Rightarrow> nat \<Rightarrow> unit gen" where
  "tcg_gen_mov_tl \<equiv> tcg_gen_mov_i32"

abbreviation tcg_gen_discard_tl :: "nat \<Rightarrow> unit gen" where
  "tcg_gen_discard_tl \<equiv> tcg_gen_discard_i32"

abbreviation tcg_gen_ld_tl :: "nat \<Rightarrow> nat \<Rightarrow> nat \<Rightarrow> unit gen" where
  "tcg_gen_ld_tl \<equiv> tcg_gen_ld_i32"

abbreviation tcg_gen_ld32u_tl :: "nat \<Rightarrow> nat \<Rightarrow> nat \<Rightarrow> unit gen" where
  "tcg_gen_ld32u_tl \<equiv> tcg_gen_ld_i32"

abbreviation tcg_gen_st_tl :: "nat \<Rightarrow> nat \<Rightarrow> nat \<Rightarrow> unit gen" where
  "tcg_gen_st_tl \<equiv> tcg_gen_st_i32"

abbreviation tcg_gen_st32_tl :: "nat \<Rightarrow> nat \<Rightarrow> nat \<Rightarrow> unit gen" where
  "tcg_gen_st32_tl \<equiv> tcg_gen_st_i32"

text \<open>Constants and immediate forms, and the bit-field deposit built from them.\<close>

definition tcg_const_i32 :: "u32 \<Rightarrow> nat gen" where
  "tcg_const_i32 val = do {
     t0 \<leftarrow> tcg_temp_new_i32;
     tcg_gen_movi_i32 t0 val;
     State_Monad.return t0 }"

definition tcg_const_i64 :: "u64 \<Rightarrow> nat gen" where
  "tcg_const_i64 val = do {
     t0 \<leftarrow> tcg_temp_new_i64;
     tcg_gen_movi_i64 t0 val;
     State_Monad.return t0 }"

definition tcg_gen_andi_i32 :: "nat \<Rightarrow> nat \<Rightarrow> u32 \<Rightarrow> unit gen" where
  "tcg_gen_andi_i32 ret arg1 arg2 =
     (if arg2 = 0 then tcg_gen_movi_i32 ret 0
      else if arg2 = 0xFFFFFFFF then tcg_gen_mov_i32 ret arg1
      else do {
        t0 \<leftarrow> tcg_const_i32 arg2;
        tcg_gen_and_i32 ret arg1 t0;
        tcg_temp_free_internal t0 })"

definition tcg_gen_shli_i32 :: "nat \<Rightarrow> nat \<Rightarrow> u32 \<Rightarrow> unit gen" where
  "tcg_gen_shli_i32 ret arg1 arg2 =
     (if arg2 = 0 then tcg_gen_mov_i32 ret arg1
      else do {
        t0 \<leftarrow> tcg_const_i32 arg2;
        tcg_gen_shl_i32 ret arg1 t0;
        tcg_temp_free_internal t0 })"

definition deposit_i32_valid :: "nat \<Rightarrow> nat \<Rightarrow> bool" where
  "deposit_i32_valid ofs len \<longleftrightarrow>
     ofs = 0 \<and> len = 8 \<or> ofs = 8 \<and> len = 8 \<or> ofs = 0 \<and> len = 16"

definition tcg_gen_deposit_i32 :: "nat \<Rightarrow> nat \<Rightarrow> nat \<Rightarrow> nat \<Rightarrow> nat \<Rightarrow> unit gen" where
  "tcg_gen_deposit_i32 ret arg1 arg2 ofs len =
     (if ofs = 0 \<and> len = 32 then tcg_gen_mov_i32 ret arg2
      else if deposit_i32_valid ofs len then
        tcg_gen_op5ii_i32 INDEX_op_deposit_i32 ret arg1 arg2 ofs len
      else do {
        let field_mask = (push_bit len 1 - 1 :: u32);
        t1 \<leftarrow> tcg_temp_new_i32;
        (if ofs + len < 32 then do {
           tcg_gen_andi_i32 t1 arg2 field_mask;
           tcg_gen_shli_i32 t1 t1 (of_nat ofs) }
         else tcg_gen_shli_i32 t1 arg2 (of_nat ofs));
        tcg_gen_andi_i32 ret arg1 (NOT (push_bit ofs field_mask));
        tcg_gen_or_i32 ret ret t1;
        tcg_temp_free_internal t1 })"

abbreviation tcg_gen_deposit_tl :: "nat \<Rightarrow> nat \<Rightarrow> nat \<Rightarrow> nat \<Rightarrow> nat \<Rightarrow> unit gen" where
  "tcg_gen_deposit_tl \<equiv> tcg_gen_deposit_i32"

text \<open>Helper calls: the counts first, then results, arguments, function, flags and length.\<close>

definition tcg_gen_callN :: "nat \<Rightarrow> nat \<Rightarrow> nat option \<Rightarrow> nat list \<Rightarrow> unit gen" where
  "tcg_gen_callN func flags ret args =
     (let rets = (case ret of None \<Rightarrow> [] | Some r \<Rightarrow> [r]);
          nparam = push_bit 16 (length rets) OR (length args + 1)
      in State_Monad.update (emit INDEX_op_call
           ([nparam] @ rets @ args @ [func, flags, 1 + length rets + length args + 3])))"

definition tcg_gen_helperN :: "u64 \<Rightarrow> nat \<Rightarrow> nat option \<Rightarrow> nat list \<Rightarrow> unit gen" where
  "tcg_gen_helperN func flags ret args = do {
     fn \<leftarrow> tcg_const_i64 func;
     tcg_gen_callN fn flags ret args;
     tcg_temp_free_internal fn }"

end
