(* ===== verification/Taint_Rules.thy ===== *)
theory Taint_Rules
  imports Tcg_Ir
begin

text \<open>
  The taint instrumentation of shared/tainting/tcg_taint.c with the helper rules of
  shared/tainting/helper_i386_check.h: the shadow temporary of a temporary, one emitter of taint
  code per case of the switch in \<open>gen_taintcheck_insn\<close>, and the loop that copies the operations of
  a block and instruments each of them.  Each rule runs right after its operation was copied to
  the end of the buffers; the rules that need the operands as they were before the operation take
  it back, emit the taint code and emit the operation again.

  The configuration is the one of the other theories: 64-bit host, 32-bit x86 guest,
  \<open>TCG_BITWISE_TAINT\<close>, \<open>TAINT_EXPENSIVE_ADDSUB\<close> and \<open>LOG_TAINTED_EIP\<close> defined,
  \<open>TAINT_NEW_POINTER\<close> and \<open>CONFIG_2nd_CCACHE\<close> not defined.
\<close>

section \<open>Shadow temporaries\<close>

definition gen_when :: "bool \<Rightarrow> unit gen \<Rightarrow> unit gen" where
  "gen_when b m = (if b then m else State_Monad.return ())"

definition find_shadow_arg :: "nat \<Rightarrow> nat gen" where
  "find_shadow_arg arg = do {
     s \<leftarrow> State_Monad.get;
     if arg < nb_globals s then State_Monad.return (shadow_arg s arg)
     else if \<not> temp_allocated (temps s arg) then State_Monad.return 0
     else do {
       gen_when (\<not> temp_allocated (temps s (shadow_arg s arg))) (do {
         t \<leftarrow> (if temp_local (temps s arg) then tcg_temp_local_new_i64 else tcg_temp_new_i64);
         State_Monad.update (\<lambda>s. s\<lparr>shadow_arg := (shadow_arg s)(arg := t),
                                   temps := (temps s)(t := (temps s t)\<lparr>temp_val := 0\<rparr>)\<rparr>) });
       s \<leftarrow> State_Monad.get;
       State_Monad.return (shadow_arg s arg) } }"

definition clean_shadow_arg :: "unit gen" where
  "clean_shadow_arg = State_Monad.update (\<lambda>s. s\<lparr>shadow_arg := (\<lambda>x.
     if nb_globals s \<le> x \<and> x < TCG_MAX_TEMPS then 0 else shadow_arg s x)\<rparr>)"

text \<open>The shadow of \<open>gen_opparam_ptr[-k]\<close>.\<close>

definition shadow_of_param :: "nat \<Rightarrow> nat gen" where
  "shadow_of_param k = do { p \<leftarrow> opparam k; find_shadow_arg p }"

fun dummy_taint_from :: "nat \<Rightarrow> nat \<Rightarrow> nat \<Rightarrow> unit gen" where
  "dummy_taint_from i 0 nargs = State_Monad.return ()"
| "dummy_taint_from i (Suc n) nargs = do {
     arg0 \<leftarrow> shadow_of_param (nargs - i);
     gen_when (arg0 \<noteq> 0) (tcg_gen_movi_i64 arg0 0);
     dummy_taint_from (Suc i) n nargs }"

definition DUMMY_TAINT :: "nat \<Rightarrow> nat \<Rightarrow> unit gen" where
  "DUMMY_TAINT noargs nargs = dummy_taint_from 0 noargs nargs"

definition set_con_i32 :: "nat \<Rightarrow> nat \<Rightarrow> nat gen" where
  "set_con_i32 index arg = do {
     s \<leftarrow> State_Monad.get;
     tcg_gen_mov_i32 (taint_log_temps s ! index) arg;
     State_Monad.return (taint_log_temps s ! index) }"

section \<open>Rules for helper calls\<close>

text \<open>helper_i386_check.h, section two: which helper a constant names.\<close>

definition helper_section_two :: "(helper \<Rightarrow> u64) \<Rightarrow> TCGArg \<Rightarrow> helper_flags \<Rightarrow> helper_flags" where
  "helper_section_two addr c f =
     (let f = f\<lparr>in_helper_func := False, out_helper_func := False, sysexit_helper_func := False,
               divb_helper_func := False, divw_helper_func := False, divl_helper_func := False,
               clean_eax_after := False, clean_ebx_after := False, clean_ecx_after := False,
               clean_edx_after := False, clean_esp_after := False,
               clean_tempidx_before := True\<rparr>;
          is = (\<lambda>h. c = unat (addr h))
      in if is helper_inb \<or> is helper_inw \<or> is helper_inl then
           f\<lparr>in_helper_func := True, clean_tempidx_before := False\<rparr>
         else if is helper_outb \<or> is helper_outw \<or> is helper_outl then
           f\<lparr>out_helper_func := True, clean_tempidx_before := False\<rparr>
         else if is helper_DECAF_taint_cmpxchg then f\<lparr>clean_eax_after := True\<rparr>
         else if is helper_rdmsr \<or> is helper_rdtsc then
           f\<lparr>clean_eax_after := True, clean_edx_after := True\<rparr>
         else if is helper_rdtscp then
           f\<lparr>clean_eax_after := True, clean_ecx_after := True, clean_edx_after := True\<rparr>
         else if is helper_cpuid then
           f\<lparr>clean_eax_after := True, clean_ebx_after := True, clean_ecx_after := True,
             clean_edx_after := True\<rparr>
         else if is helper_sysexit then f\<lparr>sysexit_helper_func := True\<rparr>
         else if is helper_divb_AL \<or> is helper_idivb_AL then f\<lparr>divb_helper_func := True\<rparr>
         else if is helper_divw_AX \<or> is helper_idivw_AX then f\<lparr>divw_helper_func := True\<rparr>
         else if is helper_divl_EAX \<or> is helper_idivl_EAX then f\<lparr>divl_helper_func := True\<rparr>
         else f)"

definition recognise_helper :: "unit gen" where
  "recognise_helper = do {
     c \<leftarrow> opparam 1;
     State_Monad.update (\<lambda>s. s\<lparr>hflags := helper_section_two (helper_addr s) c (hflags s)\<rparr>) }"

abbreviation set_hflags :: "(helper_flags \<Rightarrow> helper_flags) \<Rightarrow> unit gen" where
  "set_hflags f \<equiv> State_Monad.update (\<lambda>s. s\<lparr>hflags := f (hflags s)\<rparr>)"

text \<open>Accesses to a field of the guest CPU structure.\<close>

definition st_cpu :: "nat \<Rightarrow> cpu_field \<Rightarrow> unit gen" where
  "st_cpu t fld = do { s \<leftarrow> State_Monad.get; tcg_gen_st_tl t (cpu_env s) (cpu_offset s fld) }"

definition ld_cpu :: "nat \<Rightarrow> cpu_field \<Rightarrow> unit gen" where
  "ld_cpu t fld = do { s \<leftarrow> State_Monad.get; tcg_gen_ld_tl t (cpu_env s) (cpu_offset s fld) }"

text \<open>
  Section three: code before the call.  The arguments of the call are saved in an array of ten
  elements; more arguments than that overrun it.
\<close>

definition helper_section_three :: "nat \<Rightarrow> unit gen" where
  "helper_section_three nargs = do {
     s \<leftarrow> State_Monad.get;
     gen_when (out_helper_func (hflags s) \<or> clean_tempidx_before (hflags s)) (do {
       c_assert (nargs \<le> 10);
       let backup_orig = drop (length (gen_opparam_buf s) - nargs) (gen_opparam_buf s);
       arg6 \<leftarrow> (if out_helper_func (hflags s) then shadow_of_param 4 else State_Monad.return 0);
       rewind nargs;
       (if out_helper_func (hflags s) \<and> arg6 \<noteq> 0 then st_cpu arg6 off_tempidx
        else set_hflags (\<lambda>f. f\<lparr>clean_tempidx_before := True\<rparr>));
       s \<leftarrow> State_Monad.get;
       gen_when (clean_tempidx_before (hflags s)) (do {
         t0 \<leftarrow> tcg_temp_new_i64;
         tcg_gen_movi_i64 t0 0;
         st_cpu t0 off_tempidx });
       State_Monad.update (emit INDEX_op_call backup_orig) }) }"

text \<open>Section four: the taint of a result of the call.\<close>

definition helper_section_four :: "nat \<Rightarrow> unit gen" where
  "helper_section_four arg0 = do {
     s \<leftarrow> State_Monad.get;
     if in_helper_func (hflags s) then do {
       set_hflags (\<lambda>f. f\<lparr>out_helper_func := False\<rparr>);
       ld_cpu arg0 off_tempidx;
       set_hflags (\<lambda>f. f\<lparr>in_helper_func := False\<rparr>) }
     else tcg_gen_movi_i32 arg0 0 }"

text \<open>Section five: the registers a helper overwrites, and the taint of a division.\<close>

definition helper_div_taint :: "unit gen" where
  "helper_div_taint = do {
     s \<leftarrow> State_Monad.get;
     let divb = divb_helper_func (hflags s);
     let divw = divw_helper_func (hflags s);
     t0 \<leftarrow> tcg_temp_new_i64;
     t1 \<leftarrow> tcg_temp_new_i64;
     t2 \<leftarrow> tcg_temp_new_i64;
     _ \<leftarrow> tcg_temp_new_i64;
     t4 \<leftarrow> tcg_temp_new_i64;
     t5 \<leftarrow> tcg_temp_new_i32;
     t6 \<leftarrow> tcg_temp_new_i32;
     t_zero \<leftarrow> tcg_temp_new_i64;
     t3 \<leftarrow> shadow_of_param 4;
     ld_cpu t0 off_taint_EAX;
     (if \<not> divb then ld_cpu t1 off_taint_EDX
      else do {
        tcg_gen_movi_i32 t2 0xFF;
        tcg_gen_and_i32 t3 t3 t2 });
     gen_when (divb \<or> divw) (do {
       tcg_gen_movi_i32 t2 0xFFFF;
       tcg_gen_mov_i32 t5 t0;
       tcg_gen_and_i32 t0 t0 t2;
       gen_when divw (do {
         tcg_gen_mov_i32 t6 t1;
         tcg_gen_and_i32 t1 t1 t2;
         tcg_gen_and_i32 t3 t3 t2 }) });
     gen_when (\<not> divb) (tcg_gen_or_i32 t3 t3 t1);
     tcg_gen_or_i32 t3 t3 t0;
     tcg_gen_movi_i32 t_zero 0;
     tcg_gen_setcond_i32 (cond_arg TCG_COND_NE) t4 t3 t_zero;
     tcg_gen_neg_i32 t0 t4;
     gen_when (\<not> divb) (tcg_gen_mov_i32 t1 t0);
     gen_when (divb \<or> divw) (do {
       tcg_gen_and_i32 t0 t0 t2;
       gen_when divw (tcg_gen_mov_i32 t1 t0) });
     gen_when (divb \<or> divw) (do {
       tcg_gen_movi_i32 t2 0xFFFF0000;
       tcg_gen_and_i32 t5 t5 t2;
       tcg_gen_or_i32 t0 t0 t5;
       gen_when divw (do {
         tcg_gen_and_i32 t6 t6 t2;
         tcg_gen_or_i32 t1 t1 t6 }) });
     st_cpu t0 off_taint_EAX;
     gen_when (\<not> divb) (st_cpu t1 off_taint_EDX) }"

definition helper_section_five :: "unit gen" where
  "helper_section_five = do {
     t0 \<leftarrow> tcg_temp_new_i64;
     s \<leftarrow> State_Monad.get;
     let f = hflags s;
     gen_when (clean_eax_after f \<or> clean_ebx_after f \<or> clean_ecx_after f \<or> clean_edx_after f \<or>
           clean_esp_after f) (tcg_gen_movi_i64 t0 0);
     gen_when (clean_eax_after f) (st_cpu t0 off_taint_EAX);
     gen_when (clean_ebx_after f) (st_cpu t0 off_taint_EBX);
     gen_when (clean_ecx_after f) (st_cpu t0 off_taint_ECX);
     gen_when (clean_edx_after f) (st_cpu t0 off_taint_EDX);
     gen_when (clean_esp_after f) (st_cpu t0 off_taint_ESP);
     gen_when (sysexit_helper_func f) (do {
       ld_cpu t0 off_taint_ECX;
       st_cpu t0 off_taint_ESP;
       ld_cpu t0 off_taint_EDX;
       st_cpu t0 off_eip_taint });
     gen_when (divb_helper_func f \<or> divw_helper_func f \<or> divl_helper_func f) helper_div_taint }"

fun taint_call_results :: "nat \<Rightarrow> nat \<Rightarrow> nat \<Rightarrow> unit gen" where
  "taint_call_results i 0 nargs = State_Monad.return ()"
| "taint_call_results i (Suc n) nargs = do {
     arg0 \<leftarrow> shadow_of_param (nargs - 1 - i);
     gen_when (arg0 \<noteq> 0) (helper_section_four arg0);
     taint_call_results (Suc i) n nargs }"

definition taint_call :: "nat \<Rightarrow> nat \<Rightarrow> unit gen" where
  "taint_call noargs nargs = do {
     helper_section_three nargs;
     taint_call_results 0 noargs nargs;
     helper_section_five }"

definition taint_checkeip :: "unit gen" where
  "taint_checkeip = do {
     s \<leftarrow> State_Monad.get;
     gen_when (eip_check_needed s) (do {
       arg0 \<leftarrow> opparam 1;
       arg1 \<leftarrow> opparam 2;
       let shadow = shadow_arg s arg0;
       gen_when (shadow \<noteq> 0) (do {
         a0 \<leftarrow> set_con_i32 0 arg1;
         a1 \<leftarrow> set_con_i32 1 arg0;
         a2 \<leftarrow> set_con_i32 2 shadow;
         tcg_gen_helperN (helper_addr s helper_DECAF_invoke_eip_check_callback) 0 None
           [a0, a1, a2] }) }) }"

section \<open>Moves, deposits, guest memory\<close>

definition taint_discard :: "unit gen" where
  "taint_discard = do {
     arg0 \<leftarrow> shadow_of_param 1;
     gen_when (arg0 \<noteq> 0) (tcg_gen_discard_tl arg0) }"

definition taint_deposit_i32 :: "unit gen" where
  "taint_deposit_i32 = do {
     arg0 \<leftarrow> shadow_of_param 5;
     gen_when (arg0 \<noteq> 0) (do {
       arg1 \<leftarrow> shadow_of_param 4;
       arg2 \<leftarrow> shadow_of_param 3;
       orig0 \<leftarrow> opparam 5;
       orig1 \<leftarrow> opparam 4;
       orig2 \<leftarrow> opparam 3;
       pos \<leftarrow> opparam 2;
       len \<leftarrow> opparam 1;
       rewind 5;
       (if len = 32 then tcg_gen_mov_i32 arg0 arg2
        else if len = 0 then tcg_gen_mov_i32 arg0 arg1
        else tcg_gen_deposit_tl arg0 arg1 arg2 pos len);
       tcg_gen_deposit_i32 orig0 orig1 orig2 pos len }) }"

definition taint_movi_i32 :: "unit gen" where
  "taint_movi_i32 = do {
     arg0 \<leftarrow> shadow_of_param 2;
     gen_when (arg0 \<noteq> 0) (do {
       recognise_helper;
       orig0 \<leftarrow> opparam 2;
       orig1 \<leftarrow> opparam 1;
       rewind 2;
       tcg_gen_movi_i32 arg0 0;
       tcg_gen_movi_i32 orig0 (of_nat orig1) }) }"

definition taint_mov_i32 :: "unit gen" where
  "taint_mov_i32 = do {
     arg0 \<leftarrow> shadow_of_param 2;
     arg1 \<leftarrow> shadow_of_param 1;
     gen_when (arg0 \<noteq> 0) (do {
       orig0 \<leftarrow> opparam 2;
       orig1 \<leftarrow> opparam 1;
       rewind 2;
       tcg_gen_mov_i32 arg0 arg1;
       tcg_gen_mov_i32 orig0 orig1 }) }"

text \<open>All bits of \<open>ret\<close> if \<open>arg\<close> holds any taint.\<close>

definition pointer_taint :: "nat \<Rightarrow> (nat \<times> nat) gen" where
  "pointer_taint arg1 = do {
     t0 \<leftarrow> tcg_temp_new_i64;
     t1 \<leftarrow> tcg_temp_new_i64;
     t2 \<leftarrow> tcg_temp_new_i64;
     t_zero \<leftarrow> tcg_temp_new_i64;
     tcg_gen_movi_i64 t_zero 0;
     tcg_gen_setcond_i64 (cond_arg TCG_COND_NE) t2 arg1 t_zero;
     tcg_gen_neg_i64 t0 t2;
     State_Monad.return (t0, t1) }"

definition taint_qemu_ld :: "memop \<Rightarrow> unit gen" where
  "taint_qemu_ld m = do {
     arg0 \<leftarrow> shadow_of_param 3;
     gen_when (arg0 \<noteq> 0) (do {
       State_Monad.update (\<lambda>s. s\<lparr>gen_opc_buf := butlast (gen_opc_buf s) @ [Taint_qemu_ld m]\<rparr>);
       s \<leftarrow> State_Monad.get;
       if taint_load_pointers_enabled s then do {
         arg1 \<leftarrow> shadow_of_param 2;
         if arg1 \<noteq> 0 then do {
           (t0, t1) \<leftarrow> pointer_taint arg1;
           tcg_gen_or_i64 arg0 t0 (tempidx s) }
         else tcg_gen_mov_tl arg0 (tempidx s) }
       else tcg_gen_mov_tl arg0 (tempidx s) }) }"

definition taint_qemu_st :: "memop \<Rightarrow> unit gen" where
  "taint_qemu_st m = do {
     arg0 \<leftarrow> shadow_of_param 3;
     arg1 \<leftarrow> shadow_of_param 2;
     gen_when (arg0 \<noteq> 0) (do {
       mem_index \<leftarrow> opparam 1;
       addr \<leftarrow> opparam 2;
       ret \<leftarrow> opparam 3;
       rewind 3;
       s \<leftarrow> State_Monad.get;
       (if taint_store_pointers_enabled s then
          (if arg1 \<noteq> 0 then do {
             (t0, t1) \<leftarrow> pointer_taint arg1;
             tcg_gen_or_i64 t1 t0 arg0;
             st_cpu t1 off_tempidx }
           else st_cpu arg0 off_tempidx)
        else st_cpu arg0 off_tempidx);
       State_Monad.update (emit (Taint_qemu_st m) [ret, addr, mem_index]) }) }"

section \<open>32-bit arithmetic\<close>

text \<open>
  The rule for \<open>setcond_i32\<close>.  The operation is emitted again through \<open>tcg_gen_setcond_i32\<close>, whose
  first parameter is the condition, with its own parameters in the order of the buffer.
\<close>

definition taint_setcond_i32 :: "unit gen" where
  "taint_setcond_i32 = do {
     arg0 \<leftarrow> shadow_of_param 4;
     gen_when (arg0 \<noteq> 0) (do {
       arg1 \<leftarrow> shadow_of_param 3;
       arg2 \<leftarrow> shadow_of_param 2;
       orig0 \<leftarrow> opparam 4;
       orig1 \<leftarrow> opparam 3;
       orig2 \<leftarrow> opparam 2;
       orig3 \<leftarrow> opparam 1;
       rewind 4;
       if arg1 = 0 \<and> arg2 = 0 then do {
         tcg_gen_mov_i32 arg0 0;
         tcg_gen_setcond_i32 orig0 orig1 orig2 orig3 }
       else do {
         t0 \<leftarrow> tcg_temp_new_i32;
         (if arg1 \<noteq> 0 \<and> arg2 \<noteq> 0 then tcg_gen_or_i32 t0 arg1 arg2
          else if arg1 \<noteq> 0 then tcg_gen_mov_i32 t0 arg1
          else tcg_gen_mov_i32 t0 arg2);
         _ \<leftarrow> tcg_temp_new_i32;
         t2 \<leftarrow> tcg_temp_new_i32;
         t_zero \<leftarrow> tcg_temp_new_i32;
         tcg_gen_movi_i32 t_zero 0;
         tcg_gen_setcond_i32 (cond_arg TCG_COND_NE) t2 t0 t_zero;
         tcg_gen_neg_i32 arg0 t2;
         tcg_gen_setcond_i32 orig0 orig1 orig2 orig3 } }) }"

text \<open>The five shift and rotate rules differ in the operation only.\<close>

definition taint_shift_i32 :: "(nat \<Rightarrow> nat \<Rightarrow> nat \<Rightarrow> unit gen) \<Rightarrow> unit gen" where
  "taint_shift_i32 tcg_gen_shift = do {
     arg0 \<leftarrow> shadow_of_param 3;
     gen_when (arg0 \<noteq> 0) (do {
       arg1 \<leftarrow> shadow_of_param 2;
       arg2 \<leftarrow> shadow_of_param 1;
       orig0 \<leftarrow> opparam 3;
       orig1 \<leftarrow> opparam 2;
       orig2 \<leftarrow> opparam 1;
       rewind 3;
       if arg1 = 0 \<and> arg2 = 0 then do {
         tcg_gen_movi_i32 arg0 0;
         tcg_gen_shift orig0 orig1 orig2 }
       else do {
         t0 \<leftarrow> tcg_temp_new_i32;
         t1 \<leftarrow> tcg_temp_new_i32;
         t2 \<leftarrow> tcg_temp_new_i32;
         (if arg2 \<noteq> 0 then do {
            t_zero \<leftarrow> tcg_temp_new_i32;
            tcg_gen_movi_i32 t_zero 0;
            tcg_gen_setcond_i32 (cond_arg TCG_COND_NE) t1 t_zero arg2;
            tcg_gen_neg_i32 t2 t1 }
          else tcg_gen_movi_i32 t2 0);
         (if arg1 \<noteq> 0 then do {
            tcg_gen_shift t0 arg1 orig2;
            tcg_gen_or_i32 arg0 t0 t2 }
          else tcg_gen_mov_i32 arg0 t2);
         tcg_gen_shift orig0 orig1 orig2 } }) }"

definition taint_shl_i32 :: "unit gen" where
  "taint_shl_i32 = taint_shift_i32 tcg_gen_shl_i32"

definition taint_shr_i32 :: "unit gen" where
  "taint_shr_i32 = taint_shift_i32 tcg_gen_shr_i32"

definition taint_sar_i32 :: "unit gen" where
  "taint_sar_i32 = taint_shift_i32 tcg_gen_sar_i32"

definition taint_rotl_i32 :: "unit gen" where
  "taint_rotl_i32 = taint_shift_i32 tcg_gen_rotl_i32"

definition taint_rotr_i32 :: "unit gen" where
  "taint_rotr_i32 = taint_shift_i32 tcg_gen_rotr_i32"

definition taint_add_i32 :: "unit gen" where
  "taint_add_i32 = do {
     arg0 \<leftarrow> shadow_of_param 3;
     gen_when (arg0 \<noteq> 0) (do {
       arg1 \<leftarrow> shadow_of_param 2;
       arg2 \<leftarrow> shadow_of_param 1;
       orig0 \<leftarrow> opparam 3;
       orig1 \<leftarrow> opparam 2;
       orig2 \<leftarrow> opparam 1;
       rewind 3;
       t0 \<leftarrow> tcg_temp_new_i32;
       t1 \<leftarrow> tcg_temp_new_i32;
       t2 \<leftarrow> tcg_temp_new_i32;
       t3 \<leftarrow> tcg_temp_new_i32;
       t4 \<leftarrow> tcg_temp_new_i32;
       tcg_gen_not_i32 t0 arg1;
       tcg_gen_and_i32 t1 orig1 t0;
       tcg_gen_not_i32 t0 arg2;
       tcg_gen_and_i32 t2 orig2 t0;
       tcg_gen_or_i32 t3 orig1 arg1;
       tcg_gen_or_i32 t4 orig2 arg2;
       tcg_gen_add_i32 t0 t3 t4;
       tcg_gen_add_i32 t3 t1 t2;
       tcg_gen_xor_i32 t1 t0 t3;
       tcg_gen_or_i32 t0 arg1 arg2;
       tcg_gen_or_i32 arg0 t0 t1;
       tcg_gen_add_i32 orig0 orig1 orig2 }) }"

definition taint_sub_i32 :: "unit gen" where
  "taint_sub_i32 = do {
     arg0 \<leftarrow> shadow_of_param 3;
     gen_when (arg0 \<noteq> 0) (do {
       arg1 \<leftarrow> shadow_of_param 2;
       arg2 \<leftarrow> shadow_of_param 1;
       orig0 \<leftarrow> opparam 3;
       orig1 \<leftarrow> opparam 2;
       orig2 \<leftarrow> opparam 1;
       rewind 3;
       t0 \<leftarrow> tcg_temp_new_i32;
       t1 \<leftarrow> tcg_temp_new_i32;
       t2 \<leftarrow> tcg_temp_new_i32;
       t3 \<leftarrow> tcg_temp_new_i32;
       t4 \<leftarrow> tcg_temp_new_i32;
       tcg_gen_not_i32 t0 arg1;
       tcg_gen_and_i32 t1 orig1 t0;
       tcg_gen_not_i32 t0 arg2;
       tcg_gen_and_i32 t2 orig2 t0;
       tcg_gen_or_i32 t3 orig1 arg1;
       tcg_gen_or_i32 t4 orig2 arg2;
       tcg_gen_sub_i32 t0 t1 t4;
       tcg_gen_sub_i32 t4 t3 t2;
       tcg_gen_xor_i32 t1 t0 t4;
       tcg_gen_or_i32 t0 arg1 arg2;
       tcg_gen_or_i32 arg0 t0 t1;
       tcg_gen_sub_i32 orig0 orig1 orig2 }) }"

text \<open>
  The rule for \<open>mul_i32\<close>.  With a shadow for one operand only, \<open>tcg_gen_movi_i32\<close> stores the
  number of the shadow temporary, not its value.
\<close>

definition taint_mul_i32 :: "unit gen" where
  "taint_mul_i32 = do {
     arg0 \<leftarrow> shadow_of_param 3;
     gen_when (arg0 \<noteq> 0) (do {
       arg1 \<leftarrow> shadow_of_param 2;
       arg2 \<leftarrow> shadow_of_param 1;
       orig0 \<leftarrow> opparam 3;
       orig1 \<leftarrow> opparam 2;
       orig2 \<leftarrow> opparam 1;
       rewind 3;
       if arg1 = 0 \<and> arg2 = 0 then do {
         tcg_gen_movi_i32 arg0 0;
         tcg_gen_mul_i32 orig0 orig1 orig2 }
       else do {
         t0 \<leftarrow> tcg_temp_new_i32;
         (if arg1 \<noteq> 0 \<and> arg2 \<noteq> 0 then tcg_gen_or_i32 t0 arg1 arg2
          else if arg1 \<noteq> 0 then tcg_gen_movi_i32 t0 (of_nat arg1)
          else tcg_gen_movi_i32 t0 (of_nat arg2));
         t1 \<leftarrow> tcg_temp_new_i32;
         tcg_gen_neg_i32 t1 t0;
         tcg_gen_or_i32 arg0 t0 t1;
         tcg_gen_mul_i32 orig0 orig1 orig2 } }) }"

definition taint_and_i32 :: "unit gen" where
  "taint_and_i32 = do {
     arg0 \<leftarrow> shadow_of_param 3;
     gen_when (arg0 \<noteq> 0) (do {
       arg1 \<leftarrow> shadow_of_param 2;
       arg2 \<leftarrow> shadow_of_param 1;
       orig0 \<leftarrow> opparam 1;
       orig1 \<leftarrow> opparam 2;
       orig2 \<leftarrow> opparam 3;
       rewind 3;
       t0 \<leftarrow> tcg_temp_new_i32;
       t1 \<leftarrow> tcg_temp_new_i32;
       t2 \<leftarrow> tcg_temp_new_i32;
       t3 \<leftarrow> tcg_temp_new_i32;
       (if arg1 \<noteq> 0 then tcg_gen_not_i32 t0 arg1 else tcg_gen_movi_i32 t0 (- 1));
       (if arg2 \<noteq> 0 then tcg_gen_and_i32 t1 orig1 arg2 else tcg_gen_movi_i32 t1 0);
       tcg_gen_and_i32 t2 t0 t1;
       (if arg2 \<noteq> 0 then tcg_gen_not_i32 t0 arg2 else tcg_gen_movi_i32 t0 (- 1));
       (if arg1 \<noteq> 0 then tcg_gen_and_i32 t1 arg1 orig0 else tcg_gen_movi_i32 t1 0);
       tcg_gen_and_i32 t3 t0 t1;
       (if arg1 \<noteq> 0 \<and> arg2 \<noteq> 0 then tcg_gen_and_i32 t0 arg1 arg2 else tcg_gen_movi_i32 t0 0);
       tcg_gen_or_i32 t1 t2 t3;
       tcg_gen_or_i32 arg0 t0 t1;
       tcg_gen_and_i32 orig2 orig1 orig0 }) }"

definition taint_or_i32 :: "unit gen" where
  "taint_or_i32 = do {
     arg0 \<leftarrow> shadow_of_param 3;
     gen_when (arg0 \<noteq> 0) (do {
       arg1 \<leftarrow> shadow_of_param 2;
       arg2 \<leftarrow> shadow_of_param 1;
       orig0 \<leftarrow> opparam 1;
       orig1 \<leftarrow> opparam 2;
       orig2 \<leftarrow> opparam 3;
       rewind 3;
       t0 \<leftarrow> tcg_temp_new_i32;
       t1 \<leftarrow> tcg_temp_new_i32;
       t2 \<leftarrow> tcg_temp_new_i32;
       t3 \<leftarrow> tcg_temp_new_i32;
       (if arg1 \<noteq> 0 then tcg_gen_not_i32 t0 arg1 else tcg_gen_movi_i32 t0 (- 1));
       tcg_gen_not_i32 t1 orig1;
       tcg_gen_and_i32 t2 t0 t1;
       (if arg2 \<noteq> 0 then tcg_gen_and_i32 t0 t2 arg2 else tcg_gen_movi_i32 t0 0);
       (if arg2 \<noteq> 0 then tcg_gen_not_i32 t1 arg2 else tcg_gen_movi_i32 t1 (- 1));
       tcg_gen_not_i32 t2 orig0;
       tcg_gen_and_i32 t3 t1 t2;
       (if arg1 \<noteq> 0 then tcg_gen_and_i32 t1 t3 arg1 else tcg_gen_movi_i32 t1 0);
       (if arg1 \<noteq> 0 \<and> arg2 \<noteq> 0 then tcg_gen_and_i32 t2 arg1 arg2
        else if arg1 \<noteq> 0 then tcg_gen_mov_i32 t2 arg1
        else gen_when (arg2 \<noteq> 0) (tcg_gen_mov_i32 t2 arg2));
       tcg_gen_or_i32 t3 t0 t1;
       tcg_gen_or_i32 arg0 t2 t3;
       tcg_gen_or_i32 orig2 orig1 orig0 }) }"

definition taint_mulu2_i32 :: "unit gen" where
  "taint_mulu2_i32 = do {
     arg0 \<leftarrow> shadow_of_param 4;
     arg1 \<leftarrow> shadow_of_param 3;
     gen_when (arg0 \<noteq> 0 \<and> arg1 \<noteq> 0) (do {
       arg2 \<leftarrow> shadow_of_param 2;
       arg3 \<leftarrow> shadow_of_param 1;
       if arg2 = 0 \<and> arg3 = 0 then do {
         tcg_gen_movi_i32 arg0 0;
         tcg_gen_movi_i32 arg1 0 }
       else do {
         t0 \<leftarrow> tcg_temp_new_i32;
         (if arg2 \<noteq> 0 \<and> arg3 \<noteq> 0 then tcg_gen_or_i32 t0 arg2 arg3
          else if arg2 \<noteq> 0 then tcg_gen_mov_i32 t0 arg2
          else tcg_gen_mov_i32 t0 arg3);
         _ \<leftarrow> tcg_temp_new_i32;
         t2 \<leftarrow> tcg_temp_new_i32;
         t_zero \<leftarrow> tcg_temp_new_i32;
         tcg_gen_movi_i32 t_zero 0;
         tcg_gen_setcond_i32 (cond_arg TCG_COND_NE) t2 t0 t_zero;
         tcg_gen_neg_i32 arg0 t2;
         tcg_gen_neg_i32 arg1 t2 } }) }"

text \<open>The union of the taint of two halves, of which each may lack a shadow.\<close>

definition union_i32 :: "nat \<Rightarrow> nat \<Rightarrow> nat \<Rightarrow> unit gen" where
  "union_i32 t lo hi =
     (if lo \<noteq> 0 \<and> hi \<noteq> 0 then tcg_gen_or_i32 t lo hi
      else if lo \<noteq> 0 then tcg_gen_mov_i32 t lo
      else if hi \<noteq> 0 then tcg_gen_mov_i32 t hi
      else tcg_gen_movi_i32 t 0)"

definition taint_add2_sub2_i32 :: "unit gen" where
  "taint_add2_sub2_i32 = do {
     arg0 \<leftarrow> shadow_of_param 6;
     arg1 \<leftarrow> shadow_of_param 5;
     gen_when (arg0 \<noteq> 0 \<and> arg1 \<noteq> 0) (do {
       arg2 \<leftarrow> shadow_of_param 4;
       arg3 \<leftarrow> shadow_of_param 3;
       arg4 \<leftarrow> shadow_of_param 2;
       arg5 \<leftarrow> shadow_of_param 1;
       if arg2 = 0 \<and> arg3 = 0 \<and> arg4 = 0 \<and> arg5 = 0 then do {
         tcg_gen_movi_i32 arg0 0;
         tcg_gen_movi_i32 arg1 0 }
       else do {
         t0 \<leftarrow> tcg_temp_new_i32;
         _ \<leftarrow> tcg_temp_new_i32;
         t2 \<leftarrow> tcg_temp_new_i32;
         t3 \<leftarrow> tcg_temp_new_i32;
         union_i32 t2 arg2 arg3;
         union_i32 t3 arg4 arg5;
         tcg_gen_or_i32 t0 t2 t3;
         t_zero \<leftarrow> tcg_temp_new_i32;
         tcg_gen_movi_i32 t_zero 0;
         tcg_gen_setcond_i32 (cond_arg TCG_COND_NE) t2 t0 t_zero;
         tcg_gen_neg_i32 arg0 t2;
         tcg_gen_neg_i32 arg1 t2 } }) }"

definition taint_xor_i32 :: "unit gen" where
  "taint_xor_i32 = do {
     arg0 \<leftarrow> shadow_of_param 3;
     gen_when (arg0 \<noteq> 0) (do {
       arg1 \<leftarrow> shadow_of_param 2;
       arg2 \<leftarrow> shadow_of_param 1;
       union_i32 arg0 arg1 arg2 }) }"

definition taint_div2_i32 :: "unit gen" where
  "taint_div2_i32 = do {
     arg0 \<leftarrow> shadow_of_param 5;
     arg1 \<leftarrow> shadow_of_param 4;
     gen_when (arg0 \<noteq> 0 \<and> arg1 \<noteq> 0) (do {
       arg2 \<leftarrow> shadow_of_param 3;
       arg3 \<leftarrow> shadow_of_param 2;
       arg4 \<leftarrow> shadow_of_param 1;
       if arg2 = 0 \<and> arg3 = 0 \<and> arg4 = 0 then do {
         tcg_gen_movi_i32 arg0 0;
         tcg_gen_movi_i32 arg1 0 }
       else do {
         t0 \<leftarrow> tcg_temp_new_i32;
         _ \<leftarrow> tcg_temp_new_i32;
         t2 \<leftarrow> tcg_temp_new_i32;
         union_i32 t0 arg2 arg3;
         (if arg4 \<noteq> 0 then tcg_gen_or_i32 t2 t0 arg4 else tcg_gen_mov_i32 t2 t0);
         t_zero \<leftarrow> tcg_temp_new_i32;
         tcg_gen_movi_i32 t_zero 0;
         tcg_gen_setcond_i32 (cond_arg TCG_COND_NE) t0 t2 t_zero;
         tcg_gen_neg_i32 arg0 t0;
         tcg_gen_neg_i32 arg1 t0 } }) }"

text \<open>The rules for one-operand operations apply an operation to the shadow or clear it.\<close>

definition taint_unop_i32 :: "(nat \<Rightarrow> nat \<Rightarrow> unit gen) \<Rightarrow> unit gen" where
  "taint_unop_i32 tcg_gen = do {
     arg0 \<leftarrow> shadow_of_param 2;
     gen_when (arg0 \<noteq> 0) (do {
       arg1 \<leftarrow> shadow_of_param 1;
       if arg1 \<noteq> 0 then tcg_gen arg0 arg1 else tcg_gen_movi_i32 arg0 0 }) }"

definition taint_ext8s_i32 :: "unit gen" where
  "taint_ext8s_i32 = taint_unop_i32 tcg_gen_ext8s_i32"

definition taint_ext16s_i32 :: "unit gen" where
  "taint_ext16s_i32 = taint_unop_i32 tcg_gen_ext16s_i32"

definition taint_ext8u_i32 :: "unit gen" where
  "taint_ext8u_i32 = taint_unop_i32 tcg_gen_ext8u_i32"

definition taint_ext16u_i32 :: "unit gen" where
  "taint_ext16u_i32 = taint_unop_i32 tcg_gen_ext16u_i32"

definition taint_bswap16_i32 :: "unit gen" where
  "taint_bswap16_i32 = taint_unop_i32 tcg_gen_bswap16_i32"

definition taint_bswap32_i32 :: "unit gen" where
  "taint_bswap32_i32 = taint_unop_i32 tcg_gen_bswap32_i32"

definition taint_not_i32 :: "unit gen" where
  "taint_not_i32 = taint_unop_i32 tcg_gen_mov_i32"

definition taint_neg_i32 :: "unit gen" where
  "taint_neg_i32 = taint_unop_i32 tcg_gen_mov_i32"

section \<open>64-bit arithmetic\<close>

definition taint_movi_i64 :: "unit gen" where
  "taint_movi_i64 = do {
     arg0 \<leftarrow> shadow_of_param 2;
     gen_when (arg0 \<noteq> 0) (do {
       recognise_helper;
       tcg_gen_movi_i64 arg0 0 }) }"

definition taint_mov_i64 :: "unit gen" where
  "taint_mov_i64 = do {
     arg0 \<leftarrow> shadow_of_param 2;
     arg1 \<leftarrow> shadow_of_param 1;
     gen_when (arg0 \<noteq> 0)
       (if arg1 \<noteq> 0 then tcg_gen_mov_i64 arg0 arg1 else tcg_gen_movi_i64 arg0 0) }"

definition taint_setcond_i64 :: "unit gen" where
  "taint_setcond_i64 = do {
     arg0 \<leftarrow> shadow_of_param 4;
     gen_when (arg0 \<noteq> 0) (do {
       arg1 \<leftarrow> shadow_of_param 3;
       arg2 \<leftarrow> shadow_of_param 2;
       if arg1 = 0 \<and> arg2 = 0 then tcg_gen_mov_i64 arg0 0
       else do {
         t0 \<leftarrow> tcg_temp_new_i64;
         (if arg1 \<noteq> 0 \<and> arg2 \<noteq> 0 then tcg_gen_or_i64 t0 arg1 arg2
          else if arg1 \<noteq> 0 then tcg_gen_mov_i64 t0 arg1
          else tcg_gen_mov_i64 t0 arg2);
         t1 \<leftarrow> tcg_temp_new_i64;
         t2 \<leftarrow> tcg_temp_new_i64;
         tcg_gen_movi_i64 t1 0;
         tcg_gen_setcond_i64 (cond_arg TCG_COND_NE) t2 t0 t1;
         tcg_gen_neg_i64 arg0 t2 } }) }"

text \<open>Unlike the 32-bit rules these run after the operation and read the shift count then.\<close>

definition taint_shift_i64 :: "(nat \<Rightarrow> nat \<Rightarrow> nat \<Rightarrow> unit gen) \<Rightarrow> unit gen" where
  "taint_shift_i64 tcg_gen_shift = do {
     arg0 \<leftarrow> shadow_of_param 3;
     gen_when (arg0 \<noteq> 0) (do {
       arg1 \<leftarrow> shadow_of_param 2;
       arg2 \<leftarrow> shadow_of_param 1;
       orig0 \<leftarrow> opparam 1;
       if arg1 = 0 \<and> arg2 = 0 then tcg_gen_movi_i64 arg0 0
       else do {
         t0 \<leftarrow> tcg_temp_new_i64;
         t1 \<leftarrow> tcg_temp_new_i64;
         t2 \<leftarrow> tcg_temp_new_i64;
         (if arg2 \<noteq> 0 then do {
            tcg_gen_movi_i64 t0 0;
            tcg_gen_setcond_i64 (cond_arg TCG_COND_NE) t1 t0 arg2;
            tcg_gen_neg_i64 t2 t1 }
          else tcg_gen_movi_i64 t2 0);
         (if arg1 \<noteq> 0 then do {
            tcg_gen_shift t0 arg1 orig0;
            tcg_gen_or_i64 arg0 t0 t2 }
          else tcg_gen_mov_i64 arg0 t2) } }) }"

definition taint_shl_i64 :: "unit gen" where
  "taint_shl_i64 = taint_shift_i64 tcg_gen_shl_i64"

definition taint_shr_i64 :: "unit gen" where
  "taint_shr_i64 = taint_shift_i64 tcg_gen_shr_i64"

definition taint_sar_i64 :: "unit gen" where
  "taint_sar_i64 = taint_shift_i64 tcg_gen_sar_i64"

definition taint_rotl_i64 :: "unit gen" where
  "taint_rotl_i64 = taint_shift_i64 tcg_gen_rotl_i64"

definition taint_rotr_i64 :: "unit gen" where
  "taint_rotr_i64 = taint_shift_i64 tcg_gen_rotr_i64"

definition taint_add_i64 :: "unit gen" where
  "taint_add_i64 = do {
     arg0 \<leftarrow> shadow_of_param 3;
     gen_when (arg0 \<noteq> 0) (do {
       arg1 \<leftarrow> shadow_of_param 2;
       arg2 \<leftarrow> shadow_of_param 1;
       orig0 \<leftarrow> opparam 3;
       orig1 \<leftarrow> opparam 2;
       orig2 \<leftarrow> opparam 1;
       rewind 3;
       t0 \<leftarrow> tcg_temp_new_i64;
       t1 \<leftarrow> tcg_temp_new_i64;
       t2 \<leftarrow> tcg_temp_new_i64;
       t3 \<leftarrow> tcg_temp_new_i64;
       t4 \<leftarrow> tcg_temp_new_i64;
       tcg_gen_not_i64 t0 arg1;
       tcg_gen_and_i64 t1 orig1 t0;
       tcg_gen_not_i64 t0 arg2;
       tcg_gen_and_i64 t2 orig2 t0;
       tcg_gen_or_i64 t3 orig1 arg1;
       tcg_gen_or_i64 t4 orig2 arg2;
       tcg_gen_add_i64 t0 t3 t4;
       tcg_gen_add_i64 t3 t1 t2;
       tcg_gen_xor_i64 t1 t0 t3;
       tcg_gen_or_i64 t0 arg1 arg2;
       tcg_gen_or_i64 arg0 t0 t1;
       tcg_gen_add_i64 orig0 orig1 orig2 }) }"

definition taint_sub_i64 :: "unit gen" where
  "taint_sub_i64 = do {
     arg0 \<leftarrow> shadow_of_param 3;
     gen_when (arg0 \<noteq> 0) (do {
       arg1 \<leftarrow> shadow_of_param 2;
       arg2 \<leftarrow> shadow_of_param 1;
       orig0 \<leftarrow> opparam 3;
       orig1 \<leftarrow> opparam 2;
       orig2 \<leftarrow> opparam 1;
       rewind 3;
       t0 \<leftarrow> tcg_temp_new_i64;
       t1 \<leftarrow> tcg_temp_new_i64;
       t2 \<leftarrow> tcg_temp_new_i64;
       t3 \<leftarrow> tcg_temp_new_i64;
       t4 \<leftarrow> tcg_temp_new_i64;
       tcg_gen_not_i64 t0 arg1;
       tcg_gen_and_i64 t1 orig1 t0;
       tcg_gen_not_i64 t0 arg2;
       tcg_gen_and_i64 t2 orig2 t0;
       tcg_gen_or_i64 t3 orig1 arg1;
       tcg_gen_or_i64 t4 orig2 arg2;
       tcg_gen_sub_i64 t0 t1 t4;
       tcg_gen_sub_i64 t4 t3 t2;
       tcg_gen_xor_i64 t1 t0 t4;
       tcg_gen_or_i64 t0 arg1 arg2;
       tcg_gen_or_i64 arg0 t0 t1;
       tcg_gen_sub_i64 orig0 orig1 orig2 }) }"

definition taint_mul_i64 :: "unit gen" where
  "taint_mul_i64 = do {
     arg0 \<leftarrow> shadow_of_param 3;
     gen_when (arg0 \<noteq> 0) (do {
       arg1 \<leftarrow> shadow_of_param 2;
       arg2 \<leftarrow> shadow_of_param 1;
       if arg1 = 0 \<and> arg2 = 0 then tcg_gen_movi_i64 arg0 0
       else do {
         t0 \<leftarrow> tcg_temp_new_i64;
         (if arg1 \<noteq> 0 \<and> arg2 \<noteq> 0 then tcg_gen_or_i64 t0 arg1 arg2
          else if arg1 \<noteq> 0 then tcg_gen_movi_i64 t0 (of_nat arg1)
          else tcg_gen_movi_i64 t0 (of_nat arg2));
         t1 \<leftarrow> tcg_temp_new_i64;
         tcg_gen_neg_i64 t1 t0;
         tcg_gen_or_i64 arg0 t0 t1 } }) }"

definition taint_and_i64 :: "unit gen" where
  "taint_and_i64 = do {
     arg0 \<leftarrow> shadow_of_param 3;
     gen_when (arg0 \<noteq> 0) (do {
       arg1 \<leftarrow> shadow_of_param 2;
       arg2 \<leftarrow> shadow_of_param 1;
       orig0 \<leftarrow> opparam 1;
       orig1 \<leftarrow> opparam 2;
       if arg1 = 0 \<and> arg2 = 0 then tcg_gen_movi_i64 arg0 0
       else do {
         t0 \<leftarrow> tcg_temp_new_i64;
         t1 \<leftarrow> tcg_temp_new_i64;
         t2 \<leftarrow> tcg_temp_new_i64;
         t3 \<leftarrow> tcg_temp_new_i64;
         (if arg1 \<noteq> 0 then tcg_gen_not_i64 t0 arg1 else tcg_gen_movi_i64 t0 (- 1));
         (if arg2 \<noteq> 0 then tcg_gen_and_i64 t1 orig1 arg2 else tcg_gen_movi_i64 t1 0);
         tcg_gen_and_i64 t2 t0 t1;
         (if arg2 \<noteq> 0 then tcg_gen_not_i64 t0 arg2 else tcg_gen_movi_i64 t0 (- 1));
         (if arg1 \<noteq> 0 then tcg_gen_and_i64 t1 arg1 orig0 else tcg_gen_movi_i64 t1 0);
         tcg_gen_and_i64 t3 t0 t1;
         (if arg1 \<noteq> 0 \<and> arg2 \<noteq> 0 then tcg_gen_and_i64 t0 arg1 arg2 else tcg_gen_movi_i64 t0 0);
         tcg_gen_or_i64 t1 t2 t3;
         tcg_gen_or_i64 arg0 t0 t1 } }) }"

definition taint_or_i64 :: "unit gen" where
  "taint_or_i64 = do {
     arg0 \<leftarrow> shadow_of_param 3;
     gen_when (arg0 \<noteq> 0) (do {
       arg1 \<leftarrow> shadow_of_param 2;
       arg2 \<leftarrow> shadow_of_param 1;
       orig0 \<leftarrow> opparam 1;
       orig1 \<leftarrow> opparam 2;
       if arg1 = 0 \<and> arg2 = 0 then tcg_gen_movi_i64 arg0 0
       else do {
         t0 \<leftarrow> tcg_temp_new_i64;
         t1 \<leftarrow> tcg_temp_new_i64;
         t2 \<leftarrow> tcg_temp_new_i64;
         t3 \<leftarrow> tcg_temp_new_i64;
         (if arg1 \<noteq> 0 then tcg_gen_not_i64 t0 arg1 else tcg_gen_movi_i64 t0 (- 1));
         tcg_gen_not_i64 t1 orig1;
         tcg_gen_and_i64 t2 t0 t1;
         (if arg2 \<noteq> 0 then tcg_gen_and_i64 t0 t2 arg2 else tcg_gen_movi_i64 t0 0);
         (if arg2 \<noteq> 0 then tcg_gen_not_i64 t1 arg2 else tcg_gen_movi_i64 t1 (- 1));
         tcg_gen_not_i64 t2 orig0;
         tcg_gen_and_i64 t3 t1 t2;
         (if arg1 \<noteq> 0 then tcg_gen_and_i64 t1 t3 arg1 else tcg_gen_movi_i64 t1 0);
         (if arg1 \<noteq> 0 \<and> arg2 \<noteq> 0 then tcg_gen_and_i64 t2 arg1 arg2
          else if arg1 \<noteq> 0 then tcg_gen_mov_i64 t2 arg1
          else gen_when (arg2 \<noteq> 0) (tcg_gen_mov_i64 t2 arg2));
         tcg_gen_or_i64 t3 t0 t1;
         tcg_gen_or_i64 arg0 t2 t3 } }) }"

definition taint_xor_i64 :: "unit gen" where
  "taint_xor_i64 = do {
     arg0 \<leftarrow> shadow_of_param 3;
     gen_when (arg0 \<noteq> 0) (do {
       arg1 \<leftarrow> shadow_of_param 2;
       arg2 \<leftarrow> shadow_of_param 1;
       if arg1 \<noteq> 0 \<and> arg2 \<noteq> 0 then tcg_gen_or_i64 arg0 arg1 arg2
       else if arg1 \<noteq> 0 then tcg_gen_mov_i64 arg0 arg1
       else if arg2 \<noteq> 0 then tcg_gen_mov_i64 arg0 arg2
       else tcg_gen_movi_i64 arg0 0 }) }"

text \<open>The rule for the 64-bit double-width division works with 32-bit operations throughout.\<close>

definition taint_div2_i64 :: "unit gen" where
  "taint_div2_i64 = do {
     arg0 \<leftarrow> shadow_of_param 5;
     arg1 \<leftarrow> shadow_of_param 4;
     gen_when (arg0 \<noteq> 0 \<and> arg1 \<noteq> 0) (do {
       arg2 \<leftarrow> shadow_of_param 3;
       arg3 \<leftarrow> shadow_of_param 2;
       arg4 \<leftarrow> shadow_of_param 1;
       t0 \<leftarrow> tcg_temp_new_i64;
       t1 \<leftarrow> tcg_temp_new_i64;
       t2 \<leftarrow> tcg_temp_new_i64;
       if arg2 = 0 \<and> arg3 = 0 \<and> arg4 = 0 then do {
         tcg_gen_movi_i64 arg0 0;
         tcg_gen_movi_i64 arg1 0 }
       else do {
         (if arg2 = 0 \<and> arg3 = 0 then tcg_gen_movi_i64 t0 0 else tcg_gen_or_i32 t0 arg2 arg3);
         (if arg4 \<noteq> 0 then tcg_gen_or_i32 t2 t0 arg4 else tcg_gen_mov_i32 t2 t0);
         tcg_gen_movi_i32 t1 0;
         tcg_gen_setcond_i32 (cond_arg TCG_COND_NE) t0 t2 t1;
         tcg_gen_neg_i32 arg0 t0;
         tcg_gen_neg_i32 arg1 t0 } }) }"

definition taint_deposit_i64 :: "unit gen" where
  "taint_deposit_i64 = do {
     arg0 \<leftarrow> shadow_of_param 5;
     gen_when (arg0 \<noteq> 0) (do {
       arg1 \<leftarrow> shadow_of_param 4;
       arg2 \<leftarrow> shadow_of_param 3;
       pos \<leftarrow> opparam 2;
       len \<leftarrow> opparam 1;
       if len = 64 then
         (if arg2 \<noteq> 0 then tcg_gen_mov_i64 arg0 arg2 else tcg_gen_movi_i64 arg0 0)
       else if len = 0 then
         (if arg1 \<noteq> 0 then tcg_gen_mov_i64 arg0 arg1 else tcg_gen_movi_i64 arg0 0)
       else if arg1 \<noteq> 0 \<and> arg2 \<noteq> 0 then tcg_gen_deposit_tl arg0 arg1 arg2 pos len
       else if arg1 \<noteq> 0 then do {
         t0 \<leftarrow> tcg_temp_new_i64;
         tcg_gen_movi_i64 t0 0;
         tcg_gen_deposit_tl arg0 arg1 t0 pos len }
       else gen_when (arg2 \<noteq> 0) (do {
         t0 \<leftarrow> tcg_temp_new_i64;
         tcg_gen_movi_i64 t0 0;
         tcg_gen_deposit_tl arg0 t0 arg2 pos len }) }) }"

definition taint_unop_i64 :: "(nat \<Rightarrow> nat \<Rightarrow> unit gen) \<Rightarrow> unit gen" where
  "taint_unop_i64 tcg_gen = do {
     arg0 \<leftarrow> shadow_of_param 2;
     gen_when (arg0 \<noteq> 0) (do {
       arg1 \<leftarrow> shadow_of_param 1;
       if arg1 \<noteq> 0 then tcg_gen arg0 arg1 else tcg_gen_movi_i64 arg0 0 }) }"

definition taint_ext8s_i64 :: "unit gen" where
  "taint_ext8s_i64 = taint_unop_i64 tcg_gen_ext8s_i64"

definition taint_ext16s_i64 :: "unit gen" where
  "taint_ext16s_i64 = taint_unop_i64 tcg_gen_ext16s_i64"

definition taint_ext32s_i64 :: "unit gen" where
  "taint_ext32s_i64 = taint_unop_i64 tcg_gen_ext32s_i64"

definition taint_ext8u_i64 :: "unit gen" where
  "taint_ext8u_i64 = taint_unop_i64 tcg_gen_ext8u_i64"

definition taint_ext16u_i64 :: "unit gen" where
  "taint_ext16u_i64 = taint_unop_i64 tcg_gen_ext16u_i64"

definition taint_ext32u_i64 :: "unit gen" where
  "taint_ext32u_i64 = taint_unop_i64 tcg_gen_ext32u_i64"

definition taint_bswap16_i64 :: "unit gen" where
  "taint_bswap16_i64 = taint_unop_i64 tcg_gen_bswap16_i64"

definition taint_bswap32_i64 :: "unit gen" where
  "taint_bswap32_i64 = taint_unop_i64 tcg_gen_bswap32_i64"

definition taint_bswap64_i64 :: "unit gen" where
  "taint_bswap64_i64 = taint_unop_i64 tcg_gen_bswap64_i64"

definition taint_not_i64 :: "unit gen" where
  "taint_not_i64 = taint_unop_i64 tcg_gen_mov_i64"

definition taint_neg_i64 :: "unit gen" where
  "taint_neg_i64 = taint_unop_i64 tcg_gen_mov_i64"

section \<open>The switch\<close>

fun taint_binop :: "binop \<Rightarrow> TCGType \<Rightarrow> unit gen" where
  "taint_binop op_add TCG_TYPE_I32 = taint_add_i32"
| "taint_binop op_sub TCG_TYPE_I32 = taint_sub_i32"
| "taint_binop op_mul TCG_TYPE_I32 = taint_mul_i32"
| "taint_binop op_and TCG_TYPE_I32 = taint_and_i32"
| "taint_binop op_or TCG_TYPE_I32 = taint_or_i32"
| "taint_binop op_xor TCG_TYPE_I32 = taint_xor_i32"
| "taint_binop op_shl TCG_TYPE_I32 = taint_shl_i32"
| "taint_binop op_shr TCG_TYPE_I32 = taint_shr_i32"
| "taint_binop op_sar TCG_TYPE_I32 = taint_sar_i32"
| "taint_binop op_rotl TCG_TYPE_I32 = taint_rotl_i32"
| "taint_binop op_rotr TCG_TYPE_I32 = taint_rotr_i32"
| "taint_binop op_add TCG_TYPE_I64 = taint_add_i64"
| "taint_binop op_sub TCG_TYPE_I64 = taint_sub_i64"
| "taint_binop op_mul TCG_TYPE_I64 = taint_mul_i64"
| "taint_binop op_and TCG_TYPE_I64 = taint_and_i64"
| "taint_binop op_or TCG_TYPE_I64 = taint_or_i64"
| "taint_binop op_xor TCG_TYPE_I64 = taint_xor_i64"
| "taint_binop op_shl TCG_TYPE_I64 = taint_shl_i64"
| "taint_binop op_shr TCG_TYPE_I64 = taint_shr_i64"
| "taint_binop op_sar TCG_TYPE_I64 = taint_sar_i64"
| "taint_binop op_rotl TCG_TYPE_I64 = taint_rotl_i64"
| "taint_binop op_rotr TCG_TYPE_I64 = taint_rotr_i64"
| "taint_binop _ _ = tcg_abort"

fun taint_unop :: "unop \<Rightarrow> TCGType \<Rightarrow> unit gen" where
  "taint_unop op_ext8s TCG_TYPE_I32 = taint_ext8s_i32"
| "taint_unop op_ext16s TCG_TYPE_I32 = taint_ext16s_i32"
| "taint_unop op_ext8u TCG_TYPE_I32 = taint_ext8u_i32"
| "taint_unop op_ext16u TCG_TYPE_I32 = taint_ext16u_i32"
| "taint_unop op_bswap16 TCG_TYPE_I32 = taint_bswap16_i32"
| "taint_unop op_bswap32 TCG_TYPE_I32 = taint_bswap32_i32"
| "taint_unop op_not TCG_TYPE_I32 = taint_not_i32"
| "taint_unop op_neg TCG_TYPE_I32 = taint_neg_i32"
| "taint_unop op_ext8s TCG_TYPE_I64 = taint_ext8s_i64"
| "taint_unop op_ext16s TCG_TYPE_I64 = taint_ext16s_i64"
| "taint_unop op_ext32s TCG_TYPE_I64 = taint_ext32s_i64"
| "taint_unop op_ext8u TCG_TYPE_I64 = taint_ext8u_i64"
| "taint_unop op_ext16u TCG_TYPE_I64 = taint_ext16u_i64"
| "taint_unop op_ext32u TCG_TYPE_I64 = taint_ext32u_i64"
| "taint_unop op_bswap16 TCG_TYPE_I64 = taint_bswap16_i64"
| "taint_unop op_bswap32 TCG_TYPE_I64 = taint_bswap32_i64"
| "taint_unop op_bswap64 TCG_TYPE_I64 = taint_bswap64_i64"
| "taint_unop op_not TCG_TYPE_I64 = taint_not_i64"
| "taint_unop op_neg TCG_TYPE_I64 = taint_neg_i64"
| "taint_unop _ _ = tcg_abort"

text \<open>
  The operations without a case, among them the ones this host does not have, reach the default
  case, whose assertion always fails.
\<close>

fun taint_op :: "opcode \<Rightarrow> op_counts \<Rightarrow> unit gen" where
  "taint_op (Control c) n = State_Monad.return ()"
| "taint_op INDEX_op_discard n = taint_discard"
| "taint_op INDEX_op_call n = taint_call (nb_oargs n) (nb_args n)"
| "taint_op INDEX_op_DECAF_checkeip n = taint_checkeip"
| "taint_op (Mov ty) n = (case ty of TCG_TYPE_I32 \<Rightarrow> taint_mov_i32 | TCG_TYPE_I64 \<Rightarrow> taint_mov_i64)"
| "taint_op (Movi ty) n = (case ty of TCG_TYPE_I32 \<Rightarrow> taint_movi_i32 | TCG_TYPE_I64 \<Rightarrow> taint_movi_i64)"
| "taint_op (Setcond ty) n =
     (case ty of TCG_TYPE_I32 \<Rightarrow> taint_setcond_i32 | TCG_TYPE_I64 \<Rightarrow> taint_setcond_i64)"
| "taint_op (Ld m ty) n = DUMMY_TAINT (nb_oargs n) (nb_args n)"
| "taint_op (St m ty) n = DUMMY_TAINT (nb_oargs n) (nb_args n)"
| "taint_op (Binop b ty) n = taint_binop b ty"
| "taint_op (Div2 ty) n = (case ty of TCG_TYPE_I32 \<Rightarrow> taint_div2_i32 | TCG_TYPE_I64 \<Rightarrow> taint_div2_i64)"
| "taint_op (Divu2 ty) n = (case ty of TCG_TYPE_I32 \<Rightarrow> taint_div2_i32 | TCG_TYPE_I64 \<Rightarrow> taint_div2_i64)"
| "taint_op (Deposit ty) n =
     (case ty of TCG_TYPE_I32 \<Rightarrow> taint_deposit_i32 | TCG_TYPE_I64 \<Rightarrow> taint_deposit_i64)"
| "taint_op (Brcond ty) n = State_Monad.return ()"
| "taint_op INDEX_op_add2_i32 n = taint_add2_sub2_i32"
| "taint_op INDEX_op_sub2_i32 n = taint_add2_sub2_i32"
| "taint_op INDEX_op_brcond2_i32 n = tcg_abort"
| "taint_op INDEX_op_mulu2_i32 n = taint_mulu2_i32"
| "taint_op INDEX_op_setcond2_i32 n = tcg_abort"
| "taint_op (Unop u ty) n = taint_unop u ty"
| "taint_op (Qemu_ld m) n =
     (if m = mem_64 then DUMMY_TAINT (nb_oargs n) (nb_args n)
      else if nb_iargs n = 1 then taint_qemu_ld m else tcg_abort)"
| "taint_op (Qemu_st m) n =
     (if m = mem_64 then State_Monad.return ()
      else if nb_iargs n = 2 then taint_qemu_st m else tcg_abort)"
| "taint_op (Taint_qemu_ld m) n = tcg_abort"
| "taint_op (Taint_qemu_st m) n = tcg_abort"

section \<open>The loop over a block\<close>

text \<open>
  One iteration: the metadata of a guest instruction that starts here moves to the index of the
  next operation to be written, the operation is copied, and the rule for it runs.
\<close>

definition copy_meta :: "(nat \<Rightarrow> op_meta) \<Rightarrow> nat \<Rightarrow> int \<Rightarrow> int gen" where
  "copy_meta old opc_index return_lj = do {
     s \<leftarrow> State_Monad.get;
     if opc_instr_start (old opc_index) then do {
       let lj = length (gen_opc_buf s);
       State_Monad.update (\<lambda>s. s\<lparr>gen_opc_meta := (gen_opc_meta s)(lj := old opc_index)\<rparr>);
       State_Monad.return (int lj) }
     else State_Monad.return return_lj }"

definition taint_insn :: "opcode \<Rightarrow> op_counts \<Rightarrow> TCGArg list \<Rightarrow> unit gen" where
  "taint_insn opc n args = do {
     State_Monad.update (emit opc args);
     State_Monad.update (\<lambda>s. s\<lparr>gen_old_opc_ptr := length (gen_opc_buf s)\<rparr>);
     taint_op opc n }"

fun taint_loop ::
    "bool \<Rightarrow> (nat \<Rightarrow> op_meta) \<Rightarrow> nat \<Rightarrow> opcode list \<Rightarrow> TCGArg list \<Rightarrow> int \<Rightarrow> int gen" where
  "taint_loop search_pc old i [] params return_lj = State_Monad.return return_lj"
| "taint_loop search_pc old i (opc # opcs) params return_lj = do {
     lj \<leftarrow> (if search_pc then copy_meta old i return_lj else State_Monad.return return_lj);
     let n = op_arg_counts opc params;
     taint_insn opc n (take (nb_args n) params);
     taint_loop search_pc old (Suc i) opcs (drop (nb_args n) params) lj }"

fun alloc_log_temps :: "nat \<Rightarrow> nat list gen" where
  "alloc_log_temps 0 = State_Monad.return []"
| "alloc_log_temps (Suc n) = do {
     t \<leftarrow> tcg_temp_new_i64;
     ts \<leftarrow> alloc_log_temps n;
     State_Monad.return (t # ts) }"

definition MAX_TAINT_LOG_TEMPS :: nat where
  "MAX_TAINT_LOG_TEMPS = 10"

definition gen_taintcheck_insn :: "bool \<Rightarrow> int gen" where
  "gen_taintcheck_insn search_pc = do {
     s \<leftarrow> State_Monad.get;
     let offset = gen_old_opc_ptr s;
     let old_opcs = drop offset (gen_opc_buf s);
     let old_params = drop (gen_old_opparam_ptr s) (gen_opparam_buf s);
     let old_meta = (\<lambda>i. gen_opc_meta s (offset + i));
     gen_when search_pc (State_Monad.update (\<lambda>s. s\<lparr>gen_opc_meta := (\<lambda>i.
       if offset \<le> i then (gen_opc_meta s i)\<lparr>opc_instr_start := False\<rparr>
       else gen_opc_meta s i)\<rparr>));
     State_Monad.update (\<lambda>s. s\<lparr>gen_opc_buf := take offset (gen_opc_buf s),
       gen_opparam_buf := take (gen_old_opparam_ptr s) (gen_opparam_buf s)\<rparr>);
     ts \<leftarrow> alloc_log_temps MAX_TAINT_LOG_TEMPS;
     State_Monad.update (\<lambda>s. s\<lparr>taint_log_temps := ts\<rparr>);
     taint_loop search_pc old_meta 0 old_opcs old_params (- 1) }"

text \<open>The optimiser of tcg/optimize.c, which may run first, is a parameter.\<close>

definition optimize_taint ::
    "(opcode list \<Rightarrow> TCGArg list \<Rightarrow> opcode list \<times> TCGArg list) \<Rightarrow> bool \<Rightarrow> int gen" where
  "optimize_taint tcg_optimize search_pc = do {
     State_Monad.update (\<lambda>s. case tcg_optimize (gen_opc_buf s) (gen_opparam_buf s) of
       (opcs, params) \<Rightarrow> s\<lparr>gen_opc_buf := opcs, gen_opparam_buf := params\<rparr>);
     gen_taintcheck_insn search_pc }"

end

