(* ===== verification/Tci_Exec.thy ===== *)
theory Tci_Exec
  imports Tcg_Ir
begin

text \<open>
  The meaning of the register operations of the intermediate representation, as the interpreter
  tci.c executes them and tcg/README documents them.  A register file maps each temporary to the
  64 bits of a host register; the 32-bit operations read the low half of their inputs and write a
  zero-extended result (\<open>tci_read_r32\<close>, \<open>tci_write_reg32\<close>).  \<open>None\<close> stands for undefined behaviour
  (a shift by the width or more) and for the operations outside this fragment: control transfer,
  memory accesses and helper calls.
\<close>

type_synonym regs = "nat \<Rightarrow> u64"

section \<open>Values\<close>

fun compare_word :: "'a::len word \<Rightarrow> 'a word \<Rightarrow> TCGCond \<Rightarrow> bool" where
  "compare_word u0 u1 TCG_COND_EQ \<longleftrightarrow> u0 = u1"
| "compare_word u0 u1 TCG_COND_NE \<longleftrightarrow> u0 \<noteq> u1"
| "compare_word u0 u1 TCG_COND_LT \<longleftrightarrow> sint u0 < sint u1"
| "compare_word u0 u1 TCG_COND_GE \<longleftrightarrow> sint u0 \<ge> sint u1"
| "compare_word u0 u1 TCG_COND_LE \<longleftrightarrow> sint u0 \<le> sint u1"
| "compare_word u0 u1 TCG_COND_GT \<longleftrightarrow> sint u0 > sint u1"
| "compare_word u0 u1 TCG_COND_LTU \<longleftrightarrow> u0 < u1"
| "compare_word u0 u1 TCG_COND_GEU \<longleftrightarrow> u0 \<ge> u1"
| "compare_word u0 u1 TCG_COND_LEU \<longleftrightarrow> u0 \<le> u1"
| "compare_word u0 u1 TCG_COND_GTU \<longleftrightarrow> u0 > u1"

definition tci_compare32 :: "u32 \<Rightarrow> u32 \<Rightarrow> TCGCond \<Rightarrow> bool" where
  "tci_compare32 = compare_word"

definition tci_compare64 :: "u64 \<Rightarrow> u64 \<Rightarrow> TCGCond \<Rightarrow> bool" where
  "tci_compare64 = compare_word"

text \<open>
  The two-operand operations.  Division is absent from this host (\<open>TCG_TARGET_HAS_div_i32\<close> and
  \<open>_i64\<close> are not set), as are \<open>andc\<close>, \<open>orc\<close>, \<open>eqv\<close>, \<open>nand\<close> and \<open>nor\<close>.  The interpreter leaves the
  64-bit rotations open; they are those tcg/README documents, like the 32-bit ones.
\<close>

fun binop_val :: "binop \<Rightarrow> 'a::len word \<Rightarrow> 'a word \<Rightarrow> 'a word option" where
  "binop_val op_add t1 t2 = Some (t1 + t2)"
| "binop_val op_sub t1 t2 = Some (t1 - t2)"
| "binop_val op_mul t1 t2 = Some (t1 * t2)"
| "binop_val op_and t1 t2 = Some (t1 AND t2)"
| "binop_val op_or t1 t2 = Some (t1 OR t2)"
| "binop_val op_xor t1 t2 = Some (t1 XOR t2)"
| "binop_val op_shl t1 t2 =
     (if unat t2 < LENGTH('a) then Some (push_bit (unat t2) t1) else None)"
| "binop_val op_shr t1 t2 =
     (if unat t2 < LENGTH('a) then Some (drop_bit (unat t2) t1) else None)"
| "binop_val op_sar t1 t2 =
     (if unat t2 < LENGTH('a) then Some (signed_drop_bit (unat t2) t1) else None)"
| "binop_val op_rotl t1 t2 =
     (if unat t2 < LENGTH('a)
      then Some (push_bit (unat t2) t1 OR drop_bit (LENGTH('a) - unat t2) t1) else None)"
| "binop_val op_rotr t1 t2 =
     (if unat t2 < LENGTH('a)
      then Some (drop_bit (unat t2) t1 OR push_bit (LENGTH('a) - unat t2) t1) else None)"
| "binop_val _ t1 t2 = None"

text \<open>The bytes of the low \<open>n\<close> bytes of a value in reverse order.\<close>

definition bswap :: "nat \<Rightarrow> 'a::len word \<Rightarrow> 'a word" where
  "bswap n v = le_word (rev (le_bytes n v))"

text \<open>The one-operand operations; \<open>ext32s\<close>, \<open>ext32u\<close> and \<open>bswap64\<close> exist at 64 bits only.\<close>

fun unop_val :: "unop \<Rightarrow> 'a::len word \<Rightarrow> 'a word" where
  "unop_val op_ext8s t = signed_take_bit 7 t"
| "unop_val op_ext16s t = signed_take_bit 15 t"
| "unop_val op_ext32s t = signed_take_bit 31 t"
| "unop_val op_ext8u t = take_bit 8 t"
| "unop_val op_ext16u t = take_bit 16 t"
| "unop_val op_ext32u t = take_bit 32 t"
| "unop_val op_bswap16 t = bswap 2 t"
| "unop_val op_bswap32 t = bswap 4 t"
| "unop_val op_bswap64 t = bswap 8 t"
| "unop_val op_not t = NOT t"
| "unop_val op_neg t = - t"

definition unop_exists :: "unop \<Rightarrow> TCGType \<Rightarrow> bool" where
  "unop_exists uop ty \<longleftrightarrow> ty = TCG_TYPE_I64 \<or> uop \<notin> {op_ext32s, op_ext32u, op_bswap64}"

text \<open>
  \<open>dest = (t1 & ~(mask << pos)) | ((t2 << pos) & (mask << pos))\<close>, as tcg/README documents
  \<open>deposit\<close> and \<open>tcg_gen_deposit_i32\<close> expands it on hosts without it.
\<close>

definition deposit_val :: "nat \<Rightarrow> nat \<Rightarrow> 'a::len word \<Rightarrow> 'a word \<Rightarrow> 'a word" where
  "deposit_val pos len t1 t2 =
     (let m = push_bit pos (mask len)
      in (t1 AND NOT m) OR (push_bit pos t2 AND m))"

section \<open>Instructions\<close>

definition tci_read_r32 :: "regs \<Rightarrow> nat \<Rightarrow> u32" where
  "tci_read_r32 r i = ucast (r i)"

definition tci_read_r64 :: "regs \<Rightarrow> nat \<Rightarrow> u64" where
  "tci_read_r64 r i = r i"

definition tci_write_reg32 :: "regs \<Rightarrow> nat \<Rightarrow> u32 \<Rightarrow> regs" where
  "tci_write_reg32 r i v = r(i := ucast v)"

definition tci_write_reg64 :: "regs \<Rightarrow> nat \<Rightarrow> u64 \<Rightarrow> regs" where
  "tci_write_reg64 r i v = r(i := v)"

fun exec_op :: "opcode \<Rightarrow> TCGArg list \<Rightarrow> regs \<Rightarrow> regs option" where
  "exec_op (Control c) args r =
     (if c \<in> {op_end, op_nop, op_nop1, op_nop2, op_nop3, op_nopn, op_debug_insn_start}
      then Some r else None)"
| "exec_op INDEX_op_discard args r = Some r"
| "exec_op (Mov ty) args r = (case args of
     [t0, t1] \<Rightarrow> Some (case ty of
       TCG_TYPE_I32 \<Rightarrow> tci_write_reg32 r t0 (tci_read_r32 r t1)
     | TCG_TYPE_I64 \<Rightarrow> tci_write_reg64 r t0 (tci_read_r64 r t1))
   | _ \<Rightarrow> None)"
| "exec_op (Movi ty) args r = (case args of
     [t0, c] \<Rightarrow> Some (case ty of
       TCG_TYPE_I32 \<Rightarrow> tci_write_reg32 r t0 (of_nat c)
     | TCG_TYPE_I64 \<Rightarrow> tci_write_reg64 r t0 (of_nat c))
   | _ \<Rightarrow> None)"
| "exec_op (Setcond ty) args r = (case args of
     [t0, t1, t2, c] \<Rightarrow> map_option (\<lambda>cond. case ty of
       TCG_TYPE_I32 \<Rightarrow> tci_write_reg32 r t0
         (of_bool (tci_compare32 (tci_read_r32 r t1) (tci_read_r32 r t2) cond))
     | TCG_TYPE_I64 \<Rightarrow> tci_write_reg64 r t0
         (of_bool (tci_compare64 (tci_read_r64 r t1) (tci_read_r64 r t2) cond))) (cond_of_arg c)
   | _ \<Rightarrow> None)"
| "exec_op (Binop b ty) args r = (case args of
     [t0, t1, t2] \<Rightarrow> (case ty of
       TCG_TYPE_I32 \<Rightarrow>
         map_option (tci_write_reg32 r t0) (binop_val b (tci_read_r32 r t1) (tci_read_r32 r t2))
     | TCG_TYPE_I64 \<Rightarrow>
         map_option (tci_write_reg64 r t0) (binop_val b (tci_read_r64 r t1) (tci_read_r64 r t2)))
   | _ \<Rightarrow> None)"
| "exec_op (Unop u ty) args r = (case args of
     [t0, t1] \<Rightarrow> (if unop_exists u ty then Some (case ty of
       TCG_TYPE_I32 \<Rightarrow> tci_write_reg32 r t0 (unop_val u (tci_read_r32 r t1))
     | TCG_TYPE_I64 \<Rightarrow> tci_write_reg64 r t0 (unop_val u (tci_read_r64 r t1))) else None)
   | _ \<Rightarrow> None)"
| "exec_op (Deposit ty) args r = (case args of
     [t0, t1, t2, pos, len] \<Rightarrow> Some (case ty of
       TCG_TYPE_I32 \<Rightarrow>
         tci_write_reg32 r t0 (deposit_val pos len (tci_read_r32 r t1) (tci_read_r32 r t2))
     | TCG_TYPE_I64 \<Rightarrow>
         tci_write_reg64 r t0 (deposit_val pos len (tci_read_r64 r t1) (tci_read_r64 r t2)))
   | _ \<Rightarrow> None)"
| "exec_op _ args r = None"

definition exec_insn :: "insn \<Rightarrow> regs \<Rightarrow> regs option" where
  "exec_insn i r = exec_op (fst i) (snd i) r"

abbreviation exec_code :: "insn list \<Rightarrow> regs \<Rightarrow> regs option" where
  "exec_code \<equiv> foldM exec_insn"

end
