(* ===== verification/Taint_Algebra.thy ===== *)
theory Taint_Algebra
  imports Tci_Exec
begin

text \<open>
  The taint functions that tcg_taint.c intends for each operation, on words of any width, and the
  proof that each of them is sound: two runs whose operands agree outside the taint masks produce
  results that agree outside the computed mask.  The functions take the operand values as well,
  since the rules for \<open>add\<close>, \<open>sub\<close>, \<open>and\<close> and \<open>or\<close> depend on them.
\<close>

section \<open>Carries and borrows\<close>

definition carry :: "nat \<Rightarrow> 'a::len word \<Rightarrow> 'a word \<Rightarrow> bool" where
  "carry i x y \<longleftrightarrow> 2 ^ i \<le> take_bit i (unat x) + take_bit i (unat y)"

definition borrow :: "nat \<Rightarrow> 'a::len word \<Rightarrow> 'a word \<Rightarrow> bool" where
  "borrow i x y \<longleftrightarrow> take_bit i (unat x) < take_bit i (unat y)"

lemma bit_add_nat:
  "bit (m + n :: nat) i \<longleftrightarrow> (bit m i \<noteq> (bit n i \<noteq> (2 ^ i \<le> take_bit i m + take_bit i n)))"
proof -
  let ?p = "2 ^ i :: nat"
  have lt: "take_bit i m < ?p" "take_bit i n < ?p"
    by (simp_all add: take_bit_eq_mod)
  have "(m + n) div ?p = (m div ?p + n div ?p) + (take_bit i m + take_bit i n) div ?p"
    unfolding take_bit_eq_mod by (rule div_add1_eq)
  moreover have "(take_bit i m + take_bit i n) div ?p = of_bool (?p \<le> take_bit i m + take_bit i n)"
  proof (cases "?p \<le> take_bit i m + take_bit i n")
    case True
    then have "(take_bit i m + take_bit i n) div ?p = Suc ((take_bit i m + take_bit i n - ?p) div ?p)"
      by (simp add: le_div_geq)
    moreover have "take_bit i m + take_bit i n - ?p < ?p" using lt by linarith
    ultimately show ?thesis using True by simp
  qed simp
  ultimately show ?thesis by (auto simp: bit_iff_odd)
qed

lemma bit_add_word:
  fixes x y :: "'a::len word"
  assumes "i < LENGTH('a)"
  shows "bit (x + y) i \<longleftrightarrow> (bit x i \<noteq> (bit y i \<noteq> carry i x y))"
proof -
  have "bit (x + y) i \<longleftrightarrow> bit (unat (x + y)) i" by (simp add: bit_unsigned_iff assms)
  also have "\<dots> \<longleftrightarrow> bit (unat x + unat y) i"
    using assms by (simp add: unat_word_ariths bit_take_bit_iff flip: take_bit_eq_mod)
  also have "\<dots> \<longleftrightarrow> (bit (unat x) i \<noteq> (bit (unat y) i \<noteq> carry i x y))"
    by (simp add: bit_add_nat carry_def)
  finally show ?thesis using assms by (simp add: bit_unsigned_iff)
qed

lemma carry_diff:
  fixes x y :: "'a::len word"
  assumes "i \<le> LENGTH('a)"
  shows "carry i (x - y) y \<longleftrightarrow> borrow i x y"
proof -
  let ?p = "2 ^ i :: nat"
  let ?d = "take_bit i (unat (x - y))" and ?y = "take_bit i (unat y)"
  have "take_bit i (unat x) = take_bit i (unat (x - y + y))" by simp
  also have "\<dots> = take_bit i (unat (x - y) + unat y)"
    using assms by (simp only: unat_word_ariths flip: take_bit_eq_mod) (simp add: min_def)
  also have "\<dots> = (?d + ?y) mod ?p" by (simp add: take_bit_eq_mod mod_simps)
  finally have x: "take_bit i (unat x) = (?d + ?y) mod ?p" .
  have lt: "?d < ?p" "?y < ?p" by (simp_all add: take_bit_eq_mod)
  show ?thesis
  proof (cases "?p \<le> ?d + ?y")
    case True
    then have "(?d + ?y) mod ?p = (?d + ?y - ?p) mod ?p" by (rule le_mod_geq)
    also have "\<dots> = ?d + ?y - ?p" using lt by (intro mod_less) linarith
    finally have "(?d + ?y) mod ?p = ?d + ?y - ?p" .
    then show ?thesis using True lt x unfolding carry_def borrow_def by linarith
  next
    case False
    then have "(?d + ?y) mod ?p = ?d + ?y" by simp
    then show ?thesis using False x by (simp add: carry_def borrow_def)
  qed
qed

lemma bit_sub_word:
  fixes x y :: "'a::len word"
  assumes "i < LENGTH('a)"
  shows "bit (x - y) i \<longleftrightarrow> (bit x i \<noteq> (bit y i \<noteq> borrow i x y))"
  using bit_add_word [OF assms, of "x - y" y] carry_diff [of i x y] assms by auto

lemma bit_uminus_word:
  fixes x :: "'a::len word"
  assumes "i < LENGTH('a)"
  shows "bit (- x) i \<longleftrightarrow> (bit x i \<noteq> (take_bit i x \<noteq> 0))"
  using bit_sub_word [OF assms, of 0 x]
  by (auto simp: borrow_def word_unat_eq_iff simp flip: unsigned_take_bit_eq)

lemma take_bit_unat_mono:
  fixes x y :: "'a::len word"
  assumes "\<And>j. bit x j \<Longrightarrow> bit y j"
  shows "take_bit i (unat x) \<le> take_bit i (unat y)"
proof -
  have "take_bit i x = take_bit i x AND take_bit i y"
    by (rule bit_eqI) (auto simp: bit_simps assms)
  then have "take_bit i x \<le> take_bit i y" by (metis word_and_le1)
  then show ?thesis by (simp add: word_le_nat_alt unsigned_take_bit_eq)
qed

lemma carry_mono:
  fixes x y x' y' :: "'a::len word"
  assumes "\<And>j. bit x j \<Longrightarrow> bit x' j" "\<And>j. bit y j \<Longrightarrow> bit y' j" "carry i x y"
  shows "carry i x' y'"
  using take_bit_unat_mono [of x x' i, OF assms(1)] take_bit_unat_mono [of y y' i, OF assms(2)]
    assms(3)
  unfolding carry_def by linarith

lemma borrow_mono:
  fixes x y x' y' :: "'a::len word"
  assumes "\<And>j. bit x' j \<Longrightarrow> bit x j" "\<And>j. bit y j \<Longrightarrow> bit y' j" "borrow i x y"
  shows "borrow i x' y'"
  using take_bit_unat_mono [of x' x i, OF assms(1)] take_bit_unat_mono [of y y' i, OF assms(2)]
    assms(3)
  unfolding borrow_def by linarith

section \<open>Taint functions\<close>

text \<open>All bits if there is any taint: the negated result of the comparison with zero.\<close>

definition taint_any :: "'a::len word \<Rightarrow> 'a word" where
  "taint_any q = - of_bool (q \<noteq> 0)"

text \<open>\<open>(T1 | T2) | ((V1_max + V2_max) ^ (V1_min + V2_min))\<close>.\<close>

definition taint_add :: "'a::len word \<Rightarrow> 'a word \<Rightarrow> 'a word \<Rightarrow> 'a word \<Rightarrow> 'a word" where
  "taint_add v1 v2 q1 q2 = (q1 OR q2) OR
     (((v1 OR q1) + (v2 OR q2)) XOR ((v1 AND NOT q1) + (v2 AND NOT q2)))"

text \<open>\<open>(T1 | T2) | ((V1_min - V2_max) ^ (V1_max - V2_min))\<close>.\<close>

definition taint_sub :: "'a::len word \<Rightarrow> 'a word \<Rightarrow> 'a word \<Rightarrow> 'a word \<Rightarrow> 'a word" where
  "taint_sub v1 v2 q1 q2 = (q1 OR q2) OR
     (((v1 AND NOT q1) - (v2 OR q2)) XOR ((v1 OR q1) - (v2 AND NOT q2)))"

text \<open>Every bit from the lowest tainted one upwards.\<close>

definition taint_left :: "'a::len word \<Rightarrow> 'a word" where
  "taint_left q = q OR (- q)"

definition taint_and :: "'a::len word \<Rightarrow> 'a word \<Rightarrow> 'a word \<Rightarrow> 'a word \<Rightarrow> 'a word" where
  "taint_and v1 v2 q1 q2 =
     (q1 AND q2) OR ((NOT q1 AND (v1 AND q2)) OR (NOT q2 AND (q1 AND v2)))"

definition taint_or :: "'a::len word \<Rightarrow> 'a word \<Rightarrow> 'a word \<Rightarrow> 'a word \<Rightarrow> 'a word" where
  "taint_or v1 v2 q1 q2 =
     (q1 AND q2) OR (((NOT q1 AND NOT v1) AND q2) OR ((NOT q2 AND NOT v2) AND q1))"

fun binop_taint :: "binop \<Rightarrow> 'a::len word \<Rightarrow> 'a word \<Rightarrow> 'a word \<Rightarrow> 'a word \<Rightarrow> 'a word" where
  "binop_taint op_add v1 v2 q1 q2 = taint_add v1 v2 q1 q2"
| "binop_taint op_sub v1 v2 q1 q2 = taint_sub v1 v2 q1 q2"
| "binop_taint op_mul v1 v2 q1 q2 = taint_left (q1 OR q2)"
| "binop_taint op_and v1 v2 q1 q2 = taint_and v1 v2 q1 q2"
| "binop_taint op_or v1 v2 q1 q2 = taint_or v1 v2 q1 q2"
| "binop_taint op_xor v1 v2 q1 q2 = q1 OR q2"
| "binop_taint b v1 v2 q1 q2 = the (binop_val b q1 v2) OR taint_any q2"

fun unop_taint :: "unop \<Rightarrow> 'a::len word \<Rightarrow> 'a word" where
  "unop_taint op_not q = q"
| "unop_taint op_neg q = q"
| "unop_taint u q = unop_val u q"

section \<open>Soundness\<close>

lemma taint_any_eq [simp]: "taint_any 0 = 0" "q \<noteq> 0 \<Longrightarrow> taint_any q = - 1"
  by (simp_all add: taint_any_def)

lemma agree_between:
  assumes "agree q x x'"
  shows "bit (x AND NOT q) j \<Longrightarrow> bit x' j" "bit x' j \<Longrightarrow> bit (x OR q) j"
  using agreeD [OF assms, of j] by (auto simp: bit_simps dest: bit_imp_le_length)

lemma agree_add [agree_intros]:
  assumes q1: "agree q1 a a'" and q2: "agree q2 b b'"
  shows "agree (taint_add a b q1 q2) (a + b) (a' + b')"
proof (rule agreeI)
  fix i
  let ?lo = "carry i (a AND NOT q1) (b AND NOT q2)" and ?hi = "carry i (a OR q1) (b OR q2)"
  assume i: "i < LENGTH('a)" and n: "\<not> bit (taint_add a b q1 q2) i"
  have sq: "?lo \<longrightarrow> carry i x y" "carry i x y \<longrightarrow> ?hi" if "agree q1 a x" "agree q2 b y" for x y
    using carry_mono [of "a AND NOT q1" x "b AND NOT q2" y i]
      carry_mono [of x "a OR q1" y "b OR q2" i] agree_between [OF that(1)] agree_between [OF that(2)]
    by blast+
  from n i have "?lo = ?hi" and nq: "\<not> bit q1 i" "\<not> bit q2 i"
    by (auto simp: taint_add_def bit_or_iff bit_xor_iff bit_add_word bit_and_iff bit_not_iff)
  with sq [OF agree_refl agree_refl] sq [OF q1 q2] have "carry i a b = carry i a' b'" by argo
  with agreeD [OF q1 nq(1)] agreeD [OF q2 nq(2)] i show "bit (a + b) i = bit (a' + b') i"
    by (simp add: bit_add_word)
qed

lemma agree_sub [agree_intros]:
  assumes q1: "agree q1 a a'" and q2: "agree q2 b b'"
  shows "agree (taint_sub a b q1 q2) (a - b) (a' - b')"
proof (rule agreeI)
  fix i
  let ?hi = "borrow i (a AND NOT q1) (b OR q2)" and ?lo = "borrow i (a OR q1) (b AND NOT q2)"
  assume i: "i < LENGTH('a)" and n: "\<not> bit (taint_sub a b q1 q2) i"
  have sq: "?lo \<longrightarrow> borrow i x y" "borrow i x y \<longrightarrow> ?hi" if "agree q1 a x" "agree q2 b y" for x y
    using borrow_mono [of x "a OR q1" "b AND NOT q2" y i]
      borrow_mono [of "a AND NOT q1" x y "b OR q2" i] agree_between [OF that(1)] agree_between [OF that(2)]
    by blast+
  from n i have "?lo = ?hi" and nq: "\<not> bit q1 i" "\<not> bit q2 i"
    by (auto simp: taint_sub_def bit_or_iff bit_xor_iff bit_sub_word bit_and_iff bit_not_iff)
  with sq [OF agree_refl agree_refl] sq [OF q1 q2] have "borrow i a b = borrow i a' b'" by argo
  with agreeD [OF q1 nq(1)] agreeD [OF q2 nq(2)] i show "bit (a - b) i = bit (a' - b') i"
    by (simp add: bit_sub_word)
qed

lemma agree_and [agree_intros]:
  assumes "agree q1 a a'" "agree q2 b b'"
  shows "agree (taint_and a b q1 q2) (a AND b) (a' AND b')"
proof (rule agreeI)
  fix i assume "\<not> bit (taint_and a b q1 q2) i" "i < LENGTH('a)"
  then show "bit (a AND b) i = bit (a' AND b') i"
    using agreeD [OF assms(1), of i] agreeD [OF assms(2), of i] by (auto simp: taint_and_def bit_simps)
qed

lemma agree_or [agree_intros]:
  assumes "agree q1 a a'" "agree q2 b b'"
  shows "agree (taint_or a b q1 q2) (a OR b) (a' OR b')"
proof (rule agreeI)
  fix i assume "\<not> bit (taint_or a b q1 q2) i" "i < LENGTH('a)"
  then show "bit (a OR b) i = bit (a' OR b') i"
    using agreeD [OF assms(1), of i] agreeD [OF assms(2), of i] by (auto simp: taint_or_def bit_simps)
qed

lemma agree_xor [agree_intros]:
  assumes "agree q1 a a'" "agree q2 b b'"
  shows "agree (q1 OR q2) (a XOR b) (a' XOR b')"
proof (rule agreeI)
  fix i assume "\<not> bit (q1 OR q2) i"
  then show "bit (a XOR b) i = bit (a' XOR b') i"
    using agreeD [OF assms(1), of i] agreeD [OF assms(2), of i] by (simp add: bit_simps)
qed

lemma agree_not [agree_intros]: "agree q a a' \<Longrightarrow> agree q (NOT a) (NOT a')"
  by (rule agreeI) (simp add: bit_simps agreeD)

lemma taint_left_clean:
  fixes q :: "'a::len word"
  assumes "\<not> bit (taint_left q) i" "i < LENGTH('a)" "j \<le> i"
  shows "\<not> bit q j"
proof
  assume "bit q j"
  moreover from assms have "\<not> bit q i" and z: "take_bit i q = 0"
    by (auto simp: taint_left_def bit_or_iff bit_uminus_word)
  ultimately have "j < i" using assms(3) by (metis le_neq_implies_less)
  with \<open>bit q j\<close> have "bit (take_bit i q) j" by (simp add: bit_take_bit_iff)
  with z show False by simp
qed

lemma take_bit_mult_word:
  fixes a b :: "'a::len word"
  assumes "n \<le> LENGTH('a)"
  shows "take_bit n (unat (a * b)) = take_bit n (take_bit n (unat a) * take_bit n (unat b))"
proof -
  have "take_bit n (unat (a * b)) = take_bit n (take_bit LENGTH('a) (unat a * unat b))"
    by (simp add: unat_word_ariths take_bit_eq_mod)
  also have "\<dots> = take_bit n (unat a * unat b)" using assms by (simp add: min_def)
  finally show ?thesis by (simp add: take_bit_eq_mod mod_mult_eq)
qed

lemma agree_mult [agree_intros]:
  assumes q1: "agree q1 a a'" and q2: "agree q2 b b'"
  shows "agree (taint_left (q1 OR q2)) (a * b) (a' * b')"
proof (rule agreeI)
  fix i
  assume i: "i < LENGTH('a)" and n: "\<not> bit (taint_left (q1 OR q2)) i"
  have clean: "\<not> bit q1 j" "\<not> bit q2 j" if "j \<le> i" for j
    using taint_left_clean [OF n i that] by (auto simp: bit_or_iff)
  have "take_bit (Suc i) a = take_bit (Suc i) a'" "take_bit (Suc i) b = take_bit (Suc i) b'"
    by (rule bit_word_eqI; auto simp: bit_take_bit_iff less_Suc_eq_le clean agreeD [OF q1] agreeD [OF q2])+
  then have "take_bit (Suc i) (unat a) = take_bit (Suc i) (unat a')"
    "take_bit (Suc i) (unat b) = take_bit (Suc i) (unat b')"
    by (simp_all flip: unsigned_take_bit_eq)
  then have "take_bit (Suc i) (unat (a * b)) = take_bit (Suc i) (unat (a' * b'))"
    using i by (simp add: take_bit_mult_word)
  then have "take_bit (Suc i) (a * b) = take_bit (Suc i) (a' * b')"
    by (simp add: word_unat_eq_iff unsigned_take_bit_eq)
  then show "bit (a * b) i = bit (a' * b') i"
    by (metis bit_take_bit_iff lessI)
qed

lemma agree_shifts:
  assumes "agree q a a'"
  shows agree_push_bit [agree_intros]: "agree (push_bit n q) (push_bit n a) (push_bit n a')"
    and agree_drop_bit [agree_intros]: "agree (drop_bit n q) (drop_bit n a) (drop_bit n a')"
    and agree_signed_drop_bit [agree_intros]:
      "agree (signed_drop_bit n q) (signed_drop_bit n a) (signed_drop_bit n a')"
  by (rule agreeI; auto simp: bit_simps agreeD [OF assms])+

lemma agree_or_plain [agree_intros]:
  assumes "agree q1 a a'" "agree q2 b b'"
  shows "agree (q1 OR q2) (a OR b) (a' OR b')"
  by (rule agreeI) (auto simp: bit_simps agreeD [OF assms(1)] agreeD [OF assms(2)])

lemma agree_signed_take_bit [agree_intros]:
  "agree q a a' \<Longrightarrow> agree (signed_take_bit n q) (signed_take_bit n a) (signed_take_bit n a')"
  by (rule agreeI) (auto simp: bit_simps dest: agreeD)

lemma agree_take_bit [agree_intros]:
  "agree q a a' \<Longrightarrow> agree (take_bit n q) (take_bit n a) (take_bit n a')"
  by (rule agreeI) (auto simp: bit_simps dest: agreeD)

lemma bit_bswap:
  "bit (bswap n v :: 'a::len word) i \<longleftrightarrow>
     i < LENGTH('a) \<and> i div 8 < n \<and> bit v (8 * (n - Suc (i div 8)) + i mod 8)"
  by (auto simp: bswap_def bit_le_word rev_nth bit_simps)

lemma agree_bswap [agree_intros]:
  "agree q a a' \<Longrightarrow> agree (bswap n q) (bswap n a) (bswap n a')"
  by (rule agreeI) (auto simp: bit_bswap dest: agreeD)

lemma agree_deposit [agree_intros]:
  assumes "agree q1 a a'" "agree q2 b b'"
  shows "agree (deposit_val pos len q1 q2) (deposit_val pos len a b) (deposit_val pos len a' b')"
  by (rule agreeI)
    (auto simp: deposit_val_def Let_def bit_simps agreeD [OF assms(1)] agreeD [OF assms(2)])

text \<open>A comparison is tainted throughout if an operand carries any taint.\<close>

lemma agree_compare:
  assumes "agree q1 a a'" "agree q2 b b'"
  shows "agree (taint_any (q1 OR q2)) (of_bool (compare_word a b c)) (of_bool (compare_word a' b' c))"
proof (cases "q1 OR q2 = 0")
  case True
  then have "q1 = 0" "q2 = 0" by (auto simp: or_eq_0_iff)
  then show ?thesis using assms by simp
qed simp

text \<open>The rules that tcg_taint.c has for the two-operand and one-operand operations are sound.\<close>

theorem binop_taint_sound:
  assumes "agree q1 a a'" "agree q2 b b'" "binop_val op a b = Some v" "binop_val op a' b' = Some v'"
  shows "agree (binop_taint op a b q1 q2) v v'"
proof -
  have shift: "agree (the (binop_val op q1 b) OR taint_any q2) v v'"
    if "op \<in> {op_shl, op_shr, op_sar, op_rotl, op_rotr}"
  proof (cases "q2 = 0")
    case True
    then have "taint_any q2 = 0" "b' = b" using assms by simp_all
    with assms(1,3,4) that show ?thesis
      by (auto split: if_splits intro!: agree_intros)
  qed simp
  show ?thesis
    using assms shift by (cases op) (auto intro!: agree_intros)
qed

theorem unop_taint_sound:
  assumes "agree q a a'" "op \<noteq> op_neg"
  shows "agree (unop_taint op q) (unop_val op a) (unop_val op a')"
  using assms by (cases op) (auto intro: agree_intros)

end
