(* ===== verification/Gen_Logic.thy ===== *)
theory Gen_Logic
  imports Taint_Rules Taint_Algebra
begin

text \<open>
  Reasoning about the emitters: what each of them does to the generator state, the invariant of
  the temporaries and their shadows, and the correspondence between the flat buffers and the list
  of instructions they hold.
\<close>

section \<open>Running emitters\<close>

lemma run_if [gen_simps]:
  "run_state (if b then m else m') s = (if b then run_state m s else run_state m' s)"
  by simp

lemma run_gen_when [gen_simps]:
  "run_state (gen_when b m) s = (if b then run_state m s else ((), s))"
  by (simp add: gen_when_def gen_simps)

lemma emit_fields [simp]:
  "nb_globals (emit opc args s) = nb_globals s"
  "nb_temps (emit opc args s) = nb_temps s"
  "temps (emit opc args s) = temps s"
  "first_free_temp (emit opc args s) = first_free_temp s"
  "shadow_arg (emit opc args s) = shadow_arg s"
  "aborted (emit opc args s) = aborted s"
  "taint_tracking_enabled (emit opc args s) = taint_tracking_enabled s"
  "gen_opc_buf (emit opc args s) = gen_opc_buf s @ [opc]"
  "gen_opparam_buf (emit opc args s) = gen_opparam_buf s @ args"
  "gen_opc_meta (emit opc args s) = gen_opc_meta s"
  "helper_addr (emit opc args s) = helper_addr s"
  "hflags (emit opc args s) = hflags s"
  by (simp_all add: emit_def)

text \<open>The emitters as state updates.\<close>

lemmas emitter_defs =
  tcg_gen_op1_i32_def tcg_gen_op2_i32_def tcg_gen_op2_i64_def tcg_gen_op2i_i32_def
  tcg_gen_op2i_i64_def tcg_gen_op3_i32_def tcg_gen_op3_i64_def tcg_gen_op4i_i32_def
  tcg_gen_op4i_i64_def tcg_gen_op5ii_i32_def tcg_gen_ldst_op_i32_def
  tcg_gen_mov_i32_def tcg_gen_movi_i32_def tcg_gen_add_i32_def tcg_gen_sub_i32_def
  tcg_gen_mul_i32_def tcg_gen_shl_i32_def tcg_gen_shr_i32_def tcg_gen_sar_i32_def
  tcg_gen_rotl_i32_def tcg_gen_rotr_i32_def tcg_gen_and_i32_def tcg_gen_or_i32_def
  tcg_gen_xor_i32_def tcg_gen_setcond_i32_def tcg_gen_ext8s_i32_def tcg_gen_ext16s_i32_def
  tcg_gen_ext8u_i32_def tcg_gen_ext16u_i32_def tcg_gen_bswap16_i32_def tcg_gen_bswap32_i32_def
  tcg_gen_neg_i32_def tcg_gen_not_i32_def
  tcg_gen_mov_i64_def tcg_gen_movi_i64_def tcg_gen_add_i64_def tcg_gen_sub_i64_def
  tcg_gen_mul_i64_def tcg_gen_shl_i64_def tcg_gen_shr_i64_def tcg_gen_sar_i64_def
  tcg_gen_rotl_i64_def tcg_gen_rotr_i64_def tcg_gen_and_i64_def tcg_gen_or_i64_def
  tcg_gen_xor_i64_def tcg_gen_setcond_i64_def tcg_gen_ext8s_i64_def tcg_gen_ext16s_i64_def
  tcg_gen_ext32s_i64_def tcg_gen_ext8u_i64_def tcg_gen_ext16u_i64_def tcg_gen_ext32u_i64_def
  tcg_gen_bswap16_i64_def tcg_gen_bswap32_i64_def tcg_gen_bswap64_i64_def
  tcg_gen_neg_i64_def tcg_gen_not_i64_def tcg_gen_discard_i32_def

lemma run_opparam [gen_simps]:
  "run_state (opparam k) s = (gen_opparam_buf s ! (length (gen_opparam_buf s) - k), s)"
  by (simp add: opparam_def gen_simps)

text \<open>Allocation, when the free lists are empty and there is room.\<close>

definition new_temp :: "TCGType \<Rightarrow> bool \<Rightarrow> gen_state \<Rightarrow> gen_state" where
  "new_temp ty loc s = s\<lparr>
     temps := (temps s)(nb_temps s := (temps s (nb_temps s))\<lparr>base_type := ty,
       temp_allocated := True, temp_local := loc\<rparr>),
     nb_temps := Suc (nb_temps s)\<rparr>"

definition no_free_temps :: "gen_state \<Rightarrow> bool" where
  "no_free_temps s \<longleftrightarrow> (\<forall>k < TCG_TYPE_COUNT * 2. first_free_temp s k = - 1)"

lemma free_list_index_less: "free_list_index ty loc < TCG_TYPE_COUNT * 2"
  by (cases ty) (simp_all add: free_list_index_def TCG_TYPE_COUNT_def)

lemma run_temp_new_internal:
  assumes "no_free_temps s" "nb_temps s < TCG_MAX_TEMPS"
  shows "run_state (tcg_temp_new_internal ty loc) s = (nb_temps s, new_temp ty loc s)"
  using assms free_list_index_less
  by (simp add: tcg_temp_new_internal_def gen_simps Let_def no_free_temps_def tcg_temp_alloc_def
      new_temp_def)

lemma run_temp_new [gen_simps]:
  assumes "no_free_temps s" "nb_temps s < TCG_MAX_TEMPS"
  shows "run_state tcg_temp_new_i32 s = (nb_temps s, new_temp TCG_TYPE_I32 False s)"
    and "run_state tcg_temp_new_i64 s = (nb_temps s, new_temp TCG_TYPE_I64 False s)"
    and "run_state tcg_temp_local_new_i64 s = (nb_temps s, new_temp TCG_TYPE_I64 True s)"
  using assms
  by (simp_all add: tcg_temp_new_i32_def tcg_temp_new_i64_def tcg_temp_local_new_i64_def
      run_temp_new_internal)

lemma new_temp_fields [simp]:
  "nb_globals (new_temp ty loc s) = nb_globals s"
  "nb_temps (new_temp ty loc s) = Suc (nb_temps s)"
  "first_free_temp (new_temp ty loc s) = first_free_temp s"
  "shadow_arg (new_temp ty loc s) = shadow_arg s"
  "aborted (new_temp ty loc s) = aborted s"
  "taint_tracking_enabled (new_temp ty loc s) = taint_tracking_enabled s"
  "gen_opc_buf (new_temp ty loc s) = gen_opc_buf s"
  "gen_opparam_buf (new_temp ty loc s) = gen_opparam_buf s"
  "gen_opc_meta (new_temp ty loc s) = gen_opc_meta s"
  "helper_addr (new_temp ty loc s) = helper_addr s"
  "hflags (new_temp ty loc s) = hflags s"
  by (simp_all add: new_temp_def)

lemma no_free_temps_cong [simp]:
  "no_free_temps (emit opc args s) = no_free_temps s"
  "no_free_temps (new_temp ty loc s) = no_free_temps s"
  by (simp_all add: no_free_temps_def)

text \<open>Taking the last operation back.\<close>

definition rewound :: "nat \<Rightarrow> gen_state \<Rightarrow> gen_state" where
  "rewound n s = s\<lparr>gen_opc_buf := butlast (gen_opc_buf s),
     gen_opparam_buf := take (length (gen_opparam_buf s) - n) (gen_opparam_buf s)\<rparr>"

lemma run_rewind [gen_simps]: "run_state (rewind n) s = ((), rewound n s)"
  by (simp add: rewind_def rewound_def gen_simps)

lemma rewound_fields [simp]:
  "nb_globals (rewound n s) = nb_globals s"
  "nb_temps (rewound n s) = nb_temps s"
  "temps (rewound n s) = temps s"
  "first_free_temp (rewound n s) = first_free_temp s"
  "shadow_arg (rewound n s) = shadow_arg s"
  "aborted (rewound n s) = aborted s"
  "taint_tracking_enabled (rewound n s) = taint_tracking_enabled s"
  "gen_opc_buf (rewound n s) = butlast (gen_opc_buf s)"
  "gen_opparam_buf (rewound n s) = take (length (gen_opparam_buf s) - n) (gen_opparam_buf s)"
  "gen_opc_meta (rewound n s) = gen_opc_meta s"
  "helper_addr (rewound n s) = helper_addr s"
  "hflags (rewound n s) = hflags s"
  "no_free_temps (rewound n s) = no_free_temps s"
  by (simp_all add: rewound_def no_free_temps_def)

section \<open>The invariant of temporaries and shadows\<close>

definition wf_gen :: "gen_state \<Rightarrow> bool" where
  "wf_gen s \<longleftrightarrow>
     taint_tracking_enabled s \<and> \<not> aborted s \<and> no_free_temps s \<and>
     0 < nb_globals s \<and> nb_globals s \<le> nb_temps s \<and> nb_temps s \<le> TCG_MAX_TEMPS \<and>
     (\<forall>x < nb_globals s. \<not> temp_allocated (temps s x)) \<and>
     (\<forall>x < nb_temps s. nb_globals s \<le> x \<longrightarrow> temp_allocated (temps s x)) \<and>
     (\<forall>x. shadow_arg s x \<noteq> 0 \<longrightarrow> x < nb_temps s \<and> shadow_arg s x < nb_temps s \<and>
        (x < nb_globals s \<longleftrightarrow> shadow_arg s x < nb_globals s)) \<and>
     (\<forall>x y. shadow_arg s x \<noteq> 0 \<longrightarrow> shadow_arg s x = shadow_arg s y \<longrightarrow> x = y)"

text \<open>The temporaries of the guest program are none of the shadows.\<close>

definition shadow_sep :: "nat set \<Rightarrow> gen_state \<Rightarrow> bool" where
  "shadow_sep P s \<longleftrightarrow> (\<forall>x\<in>P. x < nb_temps s \<and> (\<forall>y. shadow_arg s y \<noteq> x))"

definition can_shadow :: "gen_state \<Rightarrow> nat \<Rightarrow> bool" where
  "can_shadow s x \<longleftrightarrow> (x < nb_globals s \<longrightarrow> shadow_arg s x \<noteq> 0)"

definition grows :: "gen_state \<Rightarrow> gen_state \<Rightarrow> bool" where
  "grows s s' \<longleftrightarrow> nb_globals s' = nb_globals s \<and> nb_temps s \<le> nb_temps s' \<and>
     (\<forall>x. shadow_arg s x \<noteq> 0 \<longrightarrow> shadow_arg s' x = shadow_arg s x)"

lemma grows_refl [simp]: "grows s s"
  by (simp add: grows_def)

lemma grows_trans [trans]: "grows s s' \<Longrightarrow> grows s' s'' \<Longrightarrow> grows s s''"
  unfolding grows_def by (metis le_trans)

lemma grows_shadow: "grows s s' \<Longrightarrow> shadow_arg s x \<noteq> 0 \<Longrightarrow> shadow_arg s' x = shadow_arg s x"
  by (simp add: grows_def)

lemma can_shadow_grows: "can_shadow s x \<Longrightarrow> grows s s' \<Longrightarrow> can_shadow s' x"
  by (auto simp: can_shadow_def grows_def)

lemma wf_gen_emit [simp]: "wf_gen (emit opc args s) = wf_gen s"
  by (simp add: wf_gen_def)

lemma wf_gen_rewound [simp]: "wf_gen (rewound n s) = wf_gen s"
  by (simp add: wf_gen_def)

lemma wf_gen_old_ptr [simp]: "wf_gen (gen_old_opc_ptr_update f s) = wf_gen s"
  by (simp add: wf_gen_def no_free_temps_def)

lemma wf_gen_new_temp:
  assumes "wf_gen s" "nb_temps s < TCG_MAX_TEMPS"
  shows "wf_gen (new_temp ty loc s)"
proof -
  have t: "temp_allocated (temps (new_temp ty loc s) x) \<longleftrightarrow>
      x = nb_temps s \<or> temp_allocated (temps s x)" for x
    by (simp add: new_temp_def)
  show ?thesis
    unfolding wf_gen_def t using assms by (auto simp: wf_gen_def less_Suc_eq)
qed

lemma shadow_sep_simps [simp]:
  "shadow_sep P (emit opc args s) = shadow_sep P s"
  "shadow_sep P (rewound n s) = shadow_sep P s"
  "shadow_sep P (gen_old_opc_ptr_update f s) = shadow_sep P s"
  by (simp_all add: shadow_sep_def)

lemma shadow_sep_new_temp: "shadow_sep P s \<Longrightarrow> shadow_sep P (new_temp ty loc s)"
  by (auto simp: shadow_sep_def)

lemma wf_genD:
  assumes "wf_gen s"
  shows "no_free_temps s" "\<not> aborted s" "taint_tracking_enabled s" "0 < nb_globals s"
    "nb_globals s \<le> nb_temps s" "nb_temps s \<le> TCG_MAX_TEMPS"
    and "x < nb_globals s \<Longrightarrow> \<not> temp_allocated (temps s x)"
    and "nb_globals s \<le> x \<Longrightarrow> x < nb_temps s \<Longrightarrow> temp_allocated (temps s x)"
    and "shadow_arg s x \<noteq> 0 \<Longrightarrow> shadow_arg s x < nb_temps s"
    and "shadow_arg s x \<noteq> 0 \<Longrightarrow> shadow_arg s x = shadow_arg s y \<longleftrightarrow> x = y"
  using assms unfolding wf_gen_def by blast+

lemma shadow_sepD:
  assumes "shadow_sep P s" "x \<in> P"
  shows "x < nb_temps s" "shadow_arg s y \<noteq> x" "x \<noteq> shadow_arg s y"
  using assms by (auto simp: shadow_sep_def)

lemma prog_nonzero:
  assumes "wf_gen s" "shadow_sep P s" "x \<in> P"
  shows "x \<noteq> 0"
proof -
  have "shadow_arg s (nb_temps s) = 0" using assms(1) unfolding wf_gen_def by blast
  with shadow_sepD(2) [OF assms(2,3)] show ?thesis by metis
qed

section \<open>Shadow lookup\<close>

lemma find_shadow_arg_present [gen_simps]:
  assumes "wf_gen s" "shadow_arg s x \<noteq> 0"
  shows "run_state (find_shadow_arg x) s = (shadow_arg s x, s)"
proof (cases "x < nb_globals s")
  case False
  with assms have "temp_allocated (temps s x)" "temp_allocated (temps s (shadow_arg s x))"
    unfolding wf_gen_def by (metis not_le)+
  with False show ?thesis by (simp add: find_shadow_arg_def gen_simps)
qed (simp add: find_shadow_arg_def gen_simps)

text \<open>A new shadow for a temporary of the program that has none.\<close>

definition new_shadow :: "nat \<Rightarrow> gen_state \<Rightarrow> gen_state" where
  "new_shadow x s =
     (let s' = new_temp TCG_TYPE_I64 (temp_local (temps s x)) s; t = nb_temps s
      in s'\<lparr>shadow_arg := (shadow_arg s')(x := t),
            temps := (temps s')(t := (temps s' t)\<lparr>temp_val := 0\<rparr>)\<rparr>)"

lemma new_shadow_fields [simp]:
  "nb_globals (new_shadow x s) = nb_globals s"
  "nb_temps (new_shadow x s) = Suc (nb_temps s)"
  "shadow_arg (new_shadow x s) = (shadow_arg s)(x := nb_temps s)"
  "gen_opc_buf (new_shadow x s) = gen_opc_buf s"
  "gen_opparam_buf (new_shadow x s) = gen_opparam_buf s"
  "gen_opc_meta (new_shadow x s) = gen_opc_meta s"
  "helper_addr (new_shadow x s) = helper_addr s"
  "hflags (new_shadow x s) = hflags s"
  by (simp_all add: new_shadow_def Let_def)

lemma find_shadow_arg_absent:
  assumes wf: "wf_gen s" and "shadow_arg s x = 0" "nb_globals s \<le> x" "x < nb_temps s"
    "nb_temps s < TCG_MAX_TEMPS"
  shows "run_state (find_shadow_arg x) s = (nb_temps s, new_shadow x s)"
proof -
  have "temp_allocated (temps s x)" "\<not> temp_allocated (temps s 0)"
    using assms wf_genD(7,8) [OF wf] wf_genD(4) [OF wf] by simp_all
  with assms wf_genD(1) [OF wf] show ?thesis
    by (simp add: find_shadow_arg_def gen_simps new_shadow_def Let_def)
qed

lemma wf_gen_new_shadow:
  assumes "wf_gen s" "shadow_arg s x = 0" "nb_globals s \<le> x" "x < nb_temps s"
    "nb_temps s < TCG_MAX_TEMPS"
  shows "wf_gen (new_shadow x s)"
proof -
  let ?s = "new_shadow x s"
  have n: "wf_gen (new_temp TCG_TYPE_I64 (temp_local (temps s x)) s)"
    using assms by (simp add: wf_gen_new_temp)
  have t: "temp_allocated (temps ?s y) =
      temp_allocated (temps (new_temp TCG_TYPE_I64 (temp_local (temps s x)) s) y)" for y
    by (simp add: new_shadow_def Let_def)
  have f: "taint_tracking_enabled ?s = taint_tracking_enabled s" "aborted ?s = aborted s"
    "no_free_temps ?s = no_free_temps s"
    by (simp_all add: new_shadow_def Let_def no_free_temps_def)
  have "\<forall>y. shadow_arg s y \<noteq> nb_temps s"
    using assms(1,4) unfolding wf_gen_def by (metis less_irrefl not_gr_zero not_less_zero)
  with n assms show ?thesis
    unfolding wf_gen_def t f by (auto simp: less_Suc_eq)
qed

lemma find_shadow_arg_ok:
  assumes wf: "wf_gen s" and sep: "shadow_sep P s" and x: "x \<in> P" and can: "can_shadow s x"
    and room: "nb_temps s < TCG_MAX_TEMPS"
  obtains s1 where "run_state (find_shadow_arg x) s = (shadow_arg s1 x, s1)" "wf_gen s1"
    "shadow_sep P s1" "shadow_arg s1 x \<noteq> 0" "grows s s1" "nb_temps s1 \<le> Suc (nb_temps s)"
    "gen_opc_buf s1 = gen_opc_buf s" "gen_opparam_buf s1 = gen_opparam_buf s"
    "gen_opc_meta s1 = gen_opc_meta s"
proof (cases "shadow_arg s x = 0")
  case False
  with wf sep show ?thesis by (intro that [of s]) (simp_all add: find_shadow_arg_present)
next
  case True
  with can x sep have g: "nb_globals s \<le> x" "x < nb_temps s"
    by (auto simp: can_shadow_def shadow_sep_def)
  have "shadow_sep P (new_shadow x s)"
    using sep by (auto simp: shadow_sep_def)
  moreover have "grows s (new_shadow x s)"
    using True by (auto simp: grows_def)
  ultimately show ?thesis
    using True g wf room
    by (intro that [of "new_shadow x s"])
      (simp_all add: find_shadow_arg_absent wf_gen_new_shadow)
qed

section \<open>The instructions in the buffers\<close>

definition holds_code :: "gen_state \<Rightarrow> insn list \<Rightarrow> bool" where
  "holds_code s is \<longleftrightarrow> gen_opc_buf s = map fst is \<and> gen_opparam_buf s = concat (map snd is) \<and>
     list_all wf_insn is"

lemma holds_code_emit:
  "holds_code s is \<Longrightarrow> wf_insn (opc, args) \<Longrightarrow> holds_code (emit opc args s) (is @ [(opc, args)])"
  by (simp add: holds_code_def)

lemma holds_code_decode:
  "holds_code s is \<Longrightarrow> decode (gen_opc_buf s) (gen_opparam_buf s) = is"
  by (simp add: holds_code_def decode_encode)

lemma exec_code_append:
  "exec_code (xs @ ys) r = Option.bind (exec_code xs r) (exec_code ys)"
  by (simp add: foldM_append split: option.split)

end
