(* ===== verification/Taint_Sound.thy ===== *)
theory Taint_Sound
  imports Gen_Logic
begin

text \<open>
  Soundness of the instrumentation.  For each operation with a sound rule, the code that
  \<open>gen_taintcheck_insn\<close> leaves in the buffers computes the operation itself, keeps every other
  temporary of the program and every other shadow, and computes a shadow for the result such that
  a second run, whose inputs agree with those of the first outside their taint, produces a result
  that agrees outside the new taint.
\<close>

section \<open>The contract of a rule\<close>

definition emits :: "gen_state \<Rightarrow> gen_state \<Rightarrow> insn list \<Rightarrow> bool" where
  "emits s s' L \<longleftrightarrow> (\<forall>is. holds_code s is \<longrightarrow> holds_code s' (is @ L))"

named_theorems emits_intros "the instructions appended between two generator states"

lemma emits_emit [emits_intros]:
  "emits s s1 L \<Longrightarrow> wf_insn (opc, args) \<Longrightarrow> emits s (emit opc args s1) (L @ [(opc, args)])"
  unfolding emits_def using holds_code_emit by (metis append.assoc)

lemma emits_new_temp [emits_intros]: "emits s s1 L \<Longrightarrow> emits s (new_temp ty loc s1) L"
  unfolding emits_def by (auto simp: holds_code_def)

lemma emits_rewound [emits_intros]:
  "gen_opc_buf s1 = gen_opc_buf s @ [opc] \<Longrightarrow> gen_opparam_buf s1 = gen_opparam_buf s @ args \<Longrightarrow>
    n = length args \<Longrightarrow> emits s (rewound n s1) []"
  by (simp add: emits_def holds_code_def)

lemma emits_copied:
  "gen_opc_buf s1 = gen_opc_buf s @ [opc] \<Longrightarrow> gen_opparam_buf s1 = gen_opparam_buf s @ args \<Longrightarrow>
    wf_insn (opc, args) \<Longrightarrow> emits s s1 [(opc, args)]"
  by (simp add: emits_def holds_code_def)

text \<open>
  \<open>d\<close> is the temporary the operation writes and \<open>ins\<close> the temporaries it reads; \<open>P\<close> is the set
  of the temporaries of the program.
\<close>

definition rule_sound :: "nat set \<Rightarrow> gen_state \<Rightarrow> insn \<Rightarrow> nat list \<Rightarrow> nat \<Rightarrow> gen_state \<Rightarrow> bool" where
  "rule_sound P s i ins d s' \<longleftrightarrow>
     wf_gen s' \<and> shadow_sep P s' \<and> grows s s' \<and> nb_temps s' \<le> nb_temps s + 8 \<and>
     shadow_arg s' d \<noteq> 0 \<and> gen_opc_meta s' = gen_opc_meta s \<and>
     (\<exists>L. L \<noteq> [] \<and> emits s s' L \<and> (\<forall>r ro. exec_insn i r = Some ro \<longrightarrow>
       (\<exists>r'. exec_code L r = Some r' \<and> r' d = ro d \<and>
          (\<forall>y < nb_temps s. y \<noteq> d \<longrightarrow> y \<noteq> shadow_arg s' d \<longrightarrow> r' y = r y) \<and>
          (\<forall>r2 ro2. (\<forall>x\<in>set ins. agree (r (shadow_arg s x)) (r x) (r2 x)) \<longrightarrow>
             exec_insn i r2 = Some ro2 \<longrightarrow> agree (r' (shadow_arg s' d)) (ro d) (ro2 d)))))"

lemma rule_soundI:
  assumes "emits s s' L" "L \<noteq> []" "wf_gen s'" "shadow_sep P s'" "grows s s'"
    "nb_temps s' \<le> nb_temps s + 8" "shadow_arg s' d \<noteq> 0" "gen_opc_meta s' = gen_opc_meta s"
    "\<And>r ro. exec_insn i r = Some ro \<Longrightarrow>
       \<exists>r'. exec_code L r = Some r' \<and> r' d = ro d \<and>
          (\<forall>y < nb_temps s. y \<noteq> d \<longrightarrow> y \<noteq> shadow_arg s' d \<longrightarrow> r' y = r y) \<and>
          (\<forall>r2 ro2. (\<forall>x\<in>set ins. agree (r (shadow_arg s x)) (r x) (r2 x)) \<longrightarrow>
             exec_insn i r2 = Some ro2 \<longrightarrow> agree (r' (shadow_arg s' d)) (ro d) (ro2 d))"
  shows "rule_sound P s i ins d s'"
  using assms unfolding rule_sound_def by blast

lemma grows_simps [simp]:
  "grows s (emit opc args s') = grows s s'"
  "grows s (rewound n s') = grows s s'"
  "grows s (gen_old_opc_ptr_update f s') = grows s s'"
  "grows (emit opc args s) s' = grows s s'"
  "grows (gen_old_opc_ptr_update f s) s' = grows s s'"
  by (simp_all add: grows_def)

lemma grows_new_temp: "grows s s' \<Longrightarrow> grows s (new_temp ty loc s')"
  by (simp add: grows_def)

text \<open>What holds when a rule starts, and after it has looked up the shadow of the result.\<close>

definition insn_ok :: "nat set \<Rightarrow> gen_state \<Rightarrow> nat \<Rightarrow> nat list \<Rightarrow> bool" where
  "insn_ok P s d ins \<longleftrightarrow> wf_gen s \<and> shadow_sep P s \<and> d \<in> P \<and> can_shadow s d \<and>
     (\<forall>x\<in>set ins. x \<in> P \<and> shadow_arg s x \<noteq> 0) \<and> nb_temps s + 8 \<le> TCG_MAX_TEMPS"

definition copied :: "opcode \<Rightarrow> TCGArg list \<Rightarrow> gen_state \<Rightarrow> gen_state" where
  "copied opc args s =
     (emit opc args s)\<lparr>gen_old_opc_ptr := length (gen_opc_buf (emit opc args s))\<rparr>"

lemma run_taint_insn: "run_state (taint_insn opc n args) s = run_state (taint_op opc n) (copied opc args s)"
  by (simp add: taint_insn_def copied_def gen_simps)

lemma copied_fields [simp]:
  "gen_opc_buf (copied opc args s) = gen_opc_buf s @ [opc]"
  "gen_opparam_buf (copied opc args s) = gen_opparam_buf s @ args"
  "nb_temps (copied opc args s) = nb_temps s"
  "shadow_arg (copied opc args s) = shadow_arg s"
  "wf_gen (copied opc args s) = wf_gen s"
  "shadow_sep P (copied opc args s) = shadow_sep P s"
  "grows (copied opc args s) s' = grows s s'"
  "grows s (copied opc args s) = grows s s"
  "gen_opc_meta (copied opc args s) = gen_opc_meta s"
  by (simp_all add: copied_def)

lemma can_shadow_copied [simp]: "can_shadow (copied opc args s) x = can_shadow s x"
  by (simp add: can_shadow_def copied_def)

lemma insn_okD:
  assumes "insn_ok P s d ins"
  obtains s1 where
    "run_state (find_shadow_arg d) (copied opc args s) = (shadow_arg s1 d, s1)"
    "wf_gen s1" "shadow_sep P s1" "shadow_arg s1 d \<noteq> 0" "grows s s1" "no_free_temps s1"
    "nb_temps s \<le> nb_temps s1" "nb_temps s1 + 7 \<le> TCG_MAX_TEMPS" "nb_temps s1 \<le> Suc (nb_temps s)"
    "gen_opc_buf s1 = gen_opc_buf s @ [opc]" "gen_opparam_buf s1 = gen_opparam_buf s @ args"
    "gen_opc_meta s1 = gen_opc_meta s"
    "\<forall>x\<in>set (d # ins). x < nb_temps s1 \<and> shadow_arg s1 x < nb_temps s1 \<and> shadow_arg s1 x \<noteq> 0"
    "\<forall>x\<in>set (d # ins). \<forall>y. x \<noteq> shadow_arg s1 y \<and> shadow_arg s1 y \<noteq> x"
    "\<forall>x\<in>set ins. shadow_arg s x = shadow_arg s1 x"
    "\<forall>x\<in>set (d # ins). \<forall>y\<in>set (d # ins). shadow_arg s1 x = shadow_arg s1 y \<longleftrightarrow> x = y"
proof -
  note a = assms [unfolded insn_ok_def]
  obtain s1 where s1: "run_state (find_shadow_arg d) (copied opc args s) = (shadow_arg s1 d, s1)"
    "wf_gen s1" "shadow_sep P s1" "shadow_arg s1 d \<noteq> 0" "grows (copied opc args s) s1"
    "nb_temps s1 \<le> Suc (nb_temps (copied opc args s))"
    "gen_opc_buf s1 = gen_opc_buf (copied opc args s)"
    "gen_opparam_buf s1 = gen_opparam_buf (copied opc args s)"
    "gen_opc_meta s1 = gen_opc_meta (copied opc args s)"
    using a by (elim conjE) (rule find_shadow_arg_ok [of "copied opc args s" P d]; simp)
  have g: "grows s s1" using s1(5) by simp
  have sh: "\<forall>x\<in>set (d # ins). shadow_arg s1 x \<noteq> 0"
    using grows_shadow [OF g] a s1(4) by auto
  show thesis
  proof (rule that [OF s1(1-4) g])
    show "no_free_temps s1" using wf_genD(1) [OF s1(2)] .
    show "\<forall>x\<in>set (d # ins). x < nb_temps s1 \<and> shadow_arg s1 x < nb_temps s1 \<and> shadow_arg s1 x \<noteq> 0"
      using sh a shadow_sepD(1) [OF s1(3)] wf_genD(9) [OF s1(2)] by simp
    show "\<forall>x\<in>set (d # ins). \<forall>y. x \<noteq> shadow_arg s1 y \<and> shadow_arg s1 y \<noteq> x"
      using a shadow_sepD(2,3) [OF s1(3)] by auto
    show "\<forall>x\<in>set (d # ins). \<forall>y\<in>set (d # ins). shadow_arg s1 x = shadow_arg s1 y \<longleftrightarrow> x = y"
      using sh wf_genD(10) [OF s1(2)] by blast
    show "\<forall>x\<in>set ins. shadow_arg s x = shadow_arg s1 x"
      using grows_shadow [OF g] a by auto
  qed (use s1 a g in \<open>simp_all add: grows_def\<close>)
qed

section \<open>Evaluation of emitted code\<close>

lemma run_shadow_of_param [gen_simps]:
  "run_state (shadow_of_param k) s =
     run_state (find_shadow_arg (gen_opparam_buf s ! (length (gen_opparam_buf s) - k))) s"
  by (simp add: shadow_of_param_def gen_simps)

lemma ucast_down_up [simp]: "ucast (ucast (x :: u32) :: u64) = x"
  by (rule bit_word_eqI) (simp add: bit_simps)

lemma agree_ucast_up:
  fixes q :: u64 and u v :: u32
  assumes "agree (ucast q) u v"
  shows "agree q (ucast u) (ucast v)"
proof (rule agreeI)
  fix n assume "\<not> bit q n"
  then show "bit (ucast u :: u64) n = bit (ucast v :: u64) n"
    using agreeD [OF assms, of n] by (auto simp: bit_simps dest: bit_imp_le_length)
qed

text \<open>\<open>and\<close> and \<open>or\<close> with equal operands are emitted as moves; both forms compute the same.\<close>

definition and_insn :: "TCGType \<Rightarrow> nat \<Rightarrow> nat \<Rightarrow> nat \<Rightarrow> insn" where
  "and_insn ty t a b = (if a = b then (Mov ty, [t, a]) else (Binop op_and ty, [t, a, b]))"

definition or_insn :: "TCGType \<Rightarrow> nat \<Rightarrow> nat \<Rightarrow> nat \<Rightarrow> insn" where
  "or_insn ty t a b = (if a = b then (Mov ty, [t, a]) else (Binop op_or ty, [t, a, b]))"

lemma run_and_or:
  assumes "t \<noteq> a \<or> a \<noteq> b"
  shows "run_state (tcg_gen_and_i32 t a b) s =
      ((), emit (fst (and_insn TCG_TYPE_I32 t a b)) (snd (and_insn TCG_TYPE_I32 t a b)) s)"
    and "run_state (tcg_gen_or_i32 t a b) s =
      ((), emit (fst (or_insn TCG_TYPE_I32 t a b)) (snd (or_insn TCG_TYPE_I32 t a b)) s)"
    and "run_state (tcg_gen_and_i64 t a b) s =
      ((), emit (fst (and_insn TCG_TYPE_I64 t a b)) (snd (and_insn TCG_TYPE_I64 t a b)) s)"
    and "run_state (tcg_gen_or_i64 t a b) s =
      ((), emit (fst (or_insn TCG_TYPE_I64 t a b)) (snd (or_insn TCG_TYPE_I64 t a b)) s)"
  using assms by (auto simp: and_insn_def or_insn_def emitter_defs gen_simps)

lemma wf_insn_simps [simp]:
  "wf_insn (Mov ty, [t, a])" "wf_insn (Movi ty, [t, c])" "wf_insn (Unop u ty, [t, a])"
  "wf_insn (Binop b ty, [t, a, a'])" "wf_insn (Setcond ty, [t, a, a', c])"
  "wf_insn (Deposit ty, [t, a, a', c, c'])"
  by (simp_all add: wf_insn_def)

lemma wf_and_or [simp]: "wf_insn (and_insn ty t a b)" "wf_insn (or_insn ty t a b)"
  by (simp_all add: and_insn_def or_insn_def wf_insn_def)

lemma exec_and_or [simp]:
  "exec_op (fst (and_insn TCG_TYPE_I32 t a b)) (snd (and_insn TCG_TYPE_I32 t a b)) r =
     Some (r(t := ucast (ucast (r a) AND ucast (r b) :: u32)))"
  "exec_op (fst (or_insn TCG_TYPE_I32 t a b)) (snd (or_insn TCG_TYPE_I32 t a b)) r =
     Some (r(t := ucast (ucast (r a) OR ucast (r b) :: u32)))"
  "exec_op (fst (and_insn TCG_TYPE_I64 t a b)) (snd (and_insn TCG_TYPE_I64 t a b)) r =
     Some (r(t := r a AND r b))"
  "exec_op (fst (or_insn TCG_TYPE_I64 t a b)) (snd (or_insn TCG_TYPE_I64 t a b)) r =
     Some (r(t := r a OR r b))"
  by (auto simp: and_insn_def or_insn_def tci_write_reg32_def tci_read_r32_def
      tci_write_reg64_def tci_read_r64_def)

lemmas emitter_rules = run_and_or
  tcg_gen_op1_i32_def tcg_gen_op2_i32_def tcg_gen_op2_i64_def tcg_gen_op2i_i32_def
  tcg_gen_op2i_i64_def tcg_gen_op3_i32_def tcg_gen_op3_i64_def tcg_gen_op4i_i32_def
  tcg_gen_op4i_i64_def tcg_gen_op5ii_i32_def
  tcg_gen_mov_i32_def tcg_gen_movi_i32_def tcg_gen_add_i32_def tcg_gen_sub_i32_def
  tcg_gen_mul_i32_def tcg_gen_xor_i32_def tcg_gen_setcond_i32_def
  tcg_gen_neg_i32_def tcg_gen_not_i32_def
  tcg_gen_mov_i64_def tcg_gen_movi_i64_def tcg_gen_add_i64_def tcg_gen_sub_i64_def
  tcg_gen_mul_i64_def tcg_gen_xor_i64_def tcg_gen_setcond_i64_def
  tcg_gen_neg_i64_def tcg_gen_not_i64_def

lemma hflags_simps [simp]:
  "wf_gen (hflags_update f s) = wf_gen s"
  "shadow_sep P (hflags_update f s) = shadow_sep P s"
  "grows s (hflags_update f s') = grows s s'"
  "no_free_temps (hflags_update f s) = no_free_temps s"
  by (simp_all add: wf_gen_def shadow_sep_def grows_def no_free_temps_def)

lemma emits_rewound_hflags [emits_intros]:
  "emits s (rewound n s1) L \<Longrightarrow> emits s (rewound n (hflags_update f s1)) L"
  "emits s s1 L \<Longrightarrow> emits s (hflags_update f s1) L"
  unfolding emits_def by (auto simp: holds_code_def)

lemma movi_arg_i32 [simp]: "(of_nat (arg_of_i32 c) :: u32) = c"
  unfolding arg_of_i32_def by (rule bit_word_eqI) (simp add: bit_simps of_nat_unat)

lemma movi_arg_i64 [simp]: "(of_nat (arg_of_i64 c) :: u64) = c"
  by (simp add: arg_of_i64_def)

lemma cond_of_arg_NE [simp]: "cond_of_arg (Suc 0) = Some TCG_COND_NE"
  by (simp add: cond_of_arg_def)

text \<open>Shifts and rotations by less than the width, as total functions.\<close>

definition is_shift :: "binop \<Rightarrow> bool" where
  "is_shift b \<longleftrightarrow> b \<in> {op_shl, op_shr, op_sar, op_rotl, op_rotr}"

definition shift_val :: "binop \<Rightarrow> 'a::len word \<Rightarrow> 'a word \<Rightarrow> 'a word" where
  "shift_val b x y = the (binop_val b x y)"

lemma binop_shift:
  fixes x y :: "'a::len word"
  assumes "is_shift b"
  shows "binop_val b x y = (if unat y < LENGTH('a) then Some (shift_val b x y) else None)"
  using assms by (auto simp: is_shift_def shift_val_def)

lemma agree_shift:
  fixes q1 q2 x y x' y' v v' :: "'a::len word"
  assumes "is_shift b" "agree q1 x x'" "agree q2 y y'"
    "unat y < LENGTH('a)" "unat y' < LENGTH('a)"
  shows "agree (shift_val b q1 y OR taint_any q2) (shift_val b x y) (shift_val b x' y')"
  using binop_taint_sound [OF assms(2,3) binop_shift [OF assms(1), THEN trans]
      binop_shift [OF assms(1), THEN trans], of "shift_val b x y" "shift_val b x' y'"] assms
  by (auto simp: is_shift_def shift_val_def)

lemma taint_any_zero: "taint_any 0 = 0"
  by (simp add: taint_any_def)

lemma len_32: "LENGTH(32) = 32"
  by simp

lemma agree_all_bits [simp]: "agree (- 1) u v" "agree (ucast (- 1 :: u32)) (ucast (z :: u32)) (ucast (w :: u32))"
  by (auto simp: agree_def intro!: agree_ucast [unfolded agree_def])

lemma agree_shift_clean:
  "is_shift b \<Longrightarrow> agree q x x' \<Longrightarrow> unat y < 64 \<Longrightarrow>
    agree (shift_val b q y) (shift_val b x y) (shift_val b (x' :: u64) y)"
  using agree_shift [of b q x x' 0 y y] by (simp add: taint_any_def)

lemma agree_shift_clean32:
  fixes q q2 x x' y y' :: u64
  assumes "is_shift b" "agree q x x'" "agree q2 y y'" "(ucast q2 :: u32) = 0"
    "unat (ucast y :: u32) < 32" "unat (ucast y' :: u32) < 32"
  shows "agree (ucast (shift_val b (ucast q) (ucast y) :: u32)) (ucast (shift_val b (ucast x) (ucast y) :: u32))
    (ucast (shift_val b (ucast x') (ucast y') :: u32) :: u64)"
proof (rule agree_ucast)
  have "agree (shift_val b (ucast q) (ucast y) OR taint_any (ucast q2)) (shift_val b (ucast x) (ucast y))
    (shift_val b (ucast x') (ucast y') :: u32)"
    by (rule agree_shift [OF assms(1) agree_ucast [OF assms(2)] agree_ucast [OF assms(3)]])
      (simp_all only: len_32 assms(5,6))
  then show "agree (shift_val b (ucast q) (ucast y)) (shift_val b (ucast x) (ucast y))
    (shift_val b (ucast x') (ucast y') :: u32)"
    by (simp only: assms(4) taint_any_zero or.right_neutral)
qed

lemma agree_setcond:
  fixes q1 q2 :: "'a::len word"
  assumes "agree q1 x x'" "agree q2 y y'" "q1 OR q2 = 0"
  shows "compare_word x y c = compare_word x' y' c"
  using assms by (auto simp: or_eq_0_iff)

lemmas run_rules = run_taint_insn gen_simps emitter_rules nth_append
lemmas state_rules = wf_gen_new_temp shadow_sep_new_temp grows_new_temp
lemmas exec_rules = exec_insn_def tci_read_r32_def tci_write_reg32_def tci_read_r64_def
  tci_write_reg64_def unop_exists_def tci_compare32_def tci_compare64_def
lemmas emits_rules = emits_intros emits_copied
lemmas agree_rules = agree_ucast agree_add [unfolded taint_add_def]
  agree_sub [unfolded taint_sub_def] agree_and [unfolded taint_and_def]
  agree_or [unfolded taint_or_def] agree_mult [unfolded taint_left_def] agree_xor agree_deposit
  agree_compare [unfolded taint_any_def]

lemma agree_unop:
  "u \<noteq> op_neg \<Longrightarrow> u \<noteq> op_not \<Longrightarrow> agree q a a' \<Longrightarrow>
    agree (unop_val u q) (unop_val u a) (unop_val u a')"
  by (cases u) (auto intro: agree_intros)

section \<open>The rules\<close>

lemma taint_add_i32_sound:
  assumes "insn_ok P s d [a, b]"
  shows "rule_sound P s (INDEX_op_add_i32, [d, a, b]) [a, b] d
    (snd (run_state (taint_insn INDEX_op_add_i32 n [d, a, b]) s))"
  apply (rule insn_okD [OF assms, of "INDEX_op_add_i32" "[d, a, b]"])
  apply (simp add: run_rules taint_add_i32_def)
  apply (rule rule_soundI, (rule emits_rules)+, (assumption | (simp; fail))+,
      simp_all add: state_rules exec_rules)
  apply (clarsimp, intro agree_rules; assumption)
  done

lemma taint_sub_i32_sound:
  assumes "insn_ok P s d [a, b]"
  shows "rule_sound P s (INDEX_op_sub_i32, [d, a, b]) [a, b] d
    (snd (run_state (taint_insn INDEX_op_sub_i32 n [d, a, b]) s))"
  apply (rule insn_okD [OF assms, of "INDEX_op_sub_i32" "[d, a, b]"])
  apply (simp add: run_rules taint_sub_i32_def)
  apply (rule rule_soundI, (rule emits_rules)+, (assumption | (simp; fail))+,
      simp_all add: state_rules exec_rules)
  apply (clarsimp, intro agree_rules; assumption)
  done

lemma taint_mul_i32_sound:
  assumes "insn_ok P s d [a, b]"
  shows "rule_sound P s (INDEX_op_mul_i32, [d, a, b]) [a, b] d
    (snd (run_state (taint_insn INDEX_op_mul_i32 n [d, a, b]) s))"
  apply (rule insn_okD [OF assms, of "INDEX_op_mul_i32" "[d, a, b]"])
  apply (simp add: run_rules taint_mul_i32_def)
  apply (rule rule_soundI, (rule emits_rules)+, (assumption | (simp; fail))+,
      simp_all add: state_rules exec_rules)
  apply (clarsimp, intro agree_rules; assumption)
  done

lemma taint_and_i32_sound:
  assumes "insn_ok P s d [a, b]"
    "d \<noteq> a \<or> a \<noteq> b"
  shows "rule_sound P s (INDEX_op_and_i32, [d, a, b]) [a, b] d
    (snd (run_state (taint_insn INDEX_op_and_i32 n [d, a, b]) s))"
  apply (rule insn_okD [OF assms(1), of "INDEX_op_and_i32" "[d, a, b]"])
  using assms(2)
  apply (simp add: run_rules taint_and_i32_def)
  apply (rule rule_soundI, (rule emits_rules)+, (assumption | (simp; fail))+,
      simp_all add: state_rules exec_rules)
  apply (clarsimp, intro agree_rules; assumption)
  done

lemma taint_or_i32_sound:
  assumes "insn_ok P s d [a, b]"
    "d \<noteq> a \<or> a \<noteq> b"
  shows "rule_sound P s (INDEX_op_or_i32, [d, a, b]) [a, b] d
    (snd (run_state (taint_insn INDEX_op_or_i32 n [d, a, b]) s))"
  apply (rule insn_okD [OF assms(1), of "INDEX_op_or_i32" "[d, a, b]"])
  using assms(2)
  apply (simp add: run_rules taint_or_i32_def)
  apply (rule rule_soundI, (rule emits_rules)+, (assumption | (simp; fail))+,
      simp_all add: state_rules exec_rules)
  apply (clarsimp, intro agree_rules; assumption)
  done

lemma taint_xor_i32_sound:
  assumes "insn_ok P s d [a, b]"
    "d \<noteq> a \<or> a \<noteq> b"
  shows "rule_sound P s (INDEX_op_xor_i32, [d, a, b]) [a, b] d
    (snd (run_state (taint_insn INDEX_op_xor_i32 n [d, a, b]) s))"
  apply (rule insn_okD [OF assms(1), of "INDEX_op_xor_i32" "[d, a, b]"])
  using assms(2)
  apply (simp add: run_rules taint_xor_i32_def union_i32_def)
  apply (rule rule_soundI, (rule emits_rules)+, (assumption | (simp; fail))+,
      simp_all add: state_rules exec_rules)
  apply (clarsimp, intro agree_rules; assumption)
  done

lemma taint_add_i64_sound:
  assumes "insn_ok P s d [a, b]"
  shows "rule_sound P s (INDEX_op_add_i64, [d, a, b]) [a, b] d
    (snd (run_state (taint_insn INDEX_op_add_i64 n [d, a, b]) s))"
  apply (rule insn_okD [OF assms, of "INDEX_op_add_i64" "[d, a, b]"])
  apply (simp add: run_rules taint_add_i64_def)
  apply (rule rule_soundI, (rule emits_rules)+, (assumption | (simp; fail))+,
      simp_all add: state_rules exec_rules)
  apply (clarsimp, intro agree_rules; assumption)
  done

lemma taint_sub_i64_sound:
  assumes "insn_ok P s d [a, b]"
  shows "rule_sound P s (INDEX_op_sub_i64, [d, a, b]) [a, b] d
    (snd (run_state (taint_insn INDEX_op_sub_i64 n [d, a, b]) s))"
  apply (rule insn_okD [OF assms, of "INDEX_op_sub_i64" "[d, a, b]"])
  apply (simp add: run_rules taint_sub_i64_def)
  apply (rule rule_soundI, (rule emits_rules)+, (assumption | (simp; fail))+,
      simp_all add: state_rules exec_rules)
  apply (clarsimp, intro agree_rules; assumption)
  done

lemma taint_mul_i64_sound:
  assumes "insn_ok P s d [a, b]"
  shows "rule_sound P s (INDEX_op_mul_i64, [d, a, b]) [a, b] d
    (snd (run_state (taint_insn INDEX_op_mul_i64 n [d, a, b]) s))"
  apply (rule insn_okD [OF assms, of "INDEX_op_mul_i64" "[d, a, b]"])
  apply (simp add: run_rules taint_mul_i64_def)
  apply (rule rule_soundI, (rule emits_rules)+, (assumption | (simp; fail))+,
      simp_all add: state_rules exec_rules)
  apply (clarsimp, intro agree_rules; assumption)
  done

lemma taint_and_i64_sound:
  assumes "insn_ok P s d [a, b]"
    "d \<noteq> a \<and> d \<noteq> b"
  shows "rule_sound P s (INDEX_op_and_i64, [d, a, b]) [a, b] d
    (snd (run_state (taint_insn INDEX_op_and_i64 n [d, a, b]) s))"
  apply (rule insn_okD [OF assms(1), of "INDEX_op_and_i64" "[d, a, b]"])
  using assms(2)
  apply (simp add: run_rules taint_and_i64_def)
  apply (rule rule_soundI, (rule emits_rules)+, (assumption | (simp; fail))+,
      simp_all add: state_rules exec_rules)
  apply (clarsimp, intro agree_rules; assumption)
  done

lemma taint_or_i64_sound:
  assumes "insn_ok P s d [a, b]"
    "d \<noteq> a \<and> d \<noteq> b"
  shows "rule_sound P s (INDEX_op_or_i64, [d, a, b]) [a, b] d
    (snd (run_state (taint_insn INDEX_op_or_i64 n [d, a, b]) s))"
  apply (rule insn_okD [OF assms(1), of "INDEX_op_or_i64" "[d, a, b]"])
  using assms(2)
  apply (simp add: run_rules taint_or_i64_def)
  apply (rule rule_soundI, (rule emits_rules)+, (assumption | (simp; fail))+,
      simp_all add: state_rules exec_rules)
  apply (clarsimp, intro agree_rules; assumption)
  done

lemma taint_xor_i64_sound:
  assumes "insn_ok P s d [a, b]"
    "d \<noteq> a \<or> a \<noteq> b"
  shows "rule_sound P s (INDEX_op_xor_i64, [d, a, b]) [a, b] d
    (snd (run_state (taint_insn INDEX_op_xor_i64 n [d, a, b]) s))"
  apply (rule insn_okD [OF assms(1), of "INDEX_op_xor_i64" "[d, a, b]"])
  using assms(2)
  apply (simp add: run_rules taint_xor_i64_def union_i32_def)
  apply (rule rule_soundI, (rule emits_rules)+, (assumption | (simp; fail))+,
      simp_all add: state_rules exec_rules)
  apply (clarsimp, intro agree_rules; assumption)
  done

lemma taint_mov_i32_sound:
  assumes "insn_ok P s d [a]"
    "d \<noteq> a"
  shows "rule_sound P s (INDEX_op_mov_i32, [d, a]) [a] d
    (snd (run_state (taint_insn INDEX_op_mov_i32 n [d, a]) s))"
  apply (rule insn_okD [OF assms(1), of "INDEX_op_mov_i32" "[d, a]"])
  using assms(2)
  apply (simp add: run_rules taint_mov_i32_def)
  apply (rule rule_soundI, (rule emits_rules)+, (assumption | (simp; fail))+,
      simp_all add: state_rules exec_rules)
  apply (clarsimp, intro agree_rules; assumption)
  done

lemma taint_movi_i32_sound:
  assumes "insn_ok P s d []"
  shows "rule_sound P s (INDEX_op_movi_i32, [d, c]) [] d
    (snd (run_state (taint_insn INDEX_op_movi_i32 n [d, c]) s))"
  apply (rule insn_okD [OF assms, of "INDEX_op_movi_i32" "[d, c]"])
  apply (simp add: run_rules taint_movi_i32_def recognise_helper_def)
  apply (rule rule_soundI, (rule emits_rules)+, (assumption | (simp; fail))+,
      simp_all add: state_rules exec_rules)
  apply (clarsimp?)
  done

lemma taint_mov_i64_sound:
  assumes "insn_ok P s d [a]"
    "d \<noteq> a"
  shows "rule_sound P s (INDEX_op_mov_i64, [d, a]) [a] d
    (snd (run_state (taint_insn INDEX_op_mov_i64 n [d, a]) s))"
  apply (rule insn_okD [OF assms(1), of "INDEX_op_mov_i64" "[d, a]"])
  using assms(2)
  apply (simp add: run_rules taint_mov_i64_def)
  apply (rule rule_soundI, (rule emits_rules)+, (assumption | (simp; fail))+,
      simp_all add: state_rules exec_rules)
  apply (clarsimp)
  done

lemma taint_movi_i64_sound:
  assumes "insn_ok P s d []"
  shows "rule_sound P s (INDEX_op_movi_i64, [d, c]) [] d
    (snd (run_state (taint_insn INDEX_op_movi_i64 n [d, c]) s))"
  apply (rule insn_okD [OF assms, of "INDEX_op_movi_i64" "[d, c]"])
  apply (simp add: run_rules taint_movi_i64_def recognise_helper_def)
  apply (rule rule_soundI, (rule emits_rules)+, (assumption | (simp; fail))+,
      simp_all add: state_rules exec_rules)
  apply (clarsimp?)
  done

lemma taint_setcond_i64_sound:
  assumes "insn_ok P s d [a, b]"
    "cond_of_arg c = Some q"
  shows "rule_sound P s (INDEX_op_setcond_i64, [d, a, b, c]) [a, b] d
    (snd (run_state (taint_insn INDEX_op_setcond_i64 n [d, a, b, c]) s))"
  apply (rule insn_okD [OF assms(1), of "INDEX_op_setcond_i64" "[d, a, b, c]"])
  using assms(2)
  apply (simp add: run_rules taint_setcond_i64_def)
  apply (rule rule_soundI, (rule emits_rules)+, (assumption | (simp; fail))+,
      simp_all add: state_rules exec_rules)
  apply (clarsimp simp: or_eq_0_iff)
  done

lemma taint_deposit_i32_sound:
  assumes "insn_ok P s d [a, b]"
    "deposit_i32_valid pos len \<and> len \<noteq> 0 \<and> len \<noteq> 32"
  shows "rule_sound P s (INDEX_op_deposit_i32, [d, a, b, pos, len]) [a, b] d
    (snd (run_state (taint_insn INDEX_op_deposit_i32 n [d, a, b, pos, len]) s))"
  apply (rule insn_okD [OF assms(1), of "INDEX_op_deposit_i32" "[d, a, b, pos, len]"])
  using assms(2)
  apply (simp add: run_rules taint_deposit_i32_def tcg_gen_deposit_i32_def)
  apply (rule rule_soundI, (rule emits_rules)+, (assumption | (simp; fail))+,
      simp_all add: state_rules exec_rules)
  apply (clarsimp, intro agree_rules; assumption)
  done

lemma taint_shift_i32_sound:
  assumes ok: "insn_ok P s d [a, c]" and b: "is_shift b"
    and t: "taint_binop b TCG_TYPE_I32 = taint_shift_i32 g"
    and g: "\<And>x y z s. run_state (g x y z) s = ((), emit (Binop b TCG_TYPE_I32) [x, y, z] s)"
  shows "rule_sound P s (Binop b TCG_TYPE_I32, [d, a, c]) [a, c] d
    (snd (run_state (taint_insn (Binop b TCG_TYPE_I32) n [d, a, c]) s))"
  apply (rule insn_okD [OF ok, of "Binop b TCG_TYPE_I32" "[d, a, c]"])
  using b
  apply (simp add: run_rules taint_shift_i32_def t g)
  apply (rule rule_soundI, (rule emits_rules)+, (assumption | (simp; fail))+,
      simp_all add: state_rules exec_rules binop_shift comp_def)
  apply (clarsimp split: if_splits)
  apply (rule agree_shift_clean32 agree_shift_clean; assumption)
  done

lemma taint_shift_i64_sound:
  assumes ok: "insn_ok P s d [a, c]" and b: "is_shift b"
    and t: "taint_binop b TCG_TYPE_I64 = taint_shift_i64 g"
    and g: "\<And>x y z s. run_state (g x y z) s = ((), emit (Binop b TCG_TYPE_I64) [x, y, z] s)"
    and ne: "d \<noteq> c"
  shows "rule_sound P s (Binop b TCG_TYPE_I64, [d, a, c]) [a, c] d
    (snd (run_state (taint_insn (Binop b TCG_TYPE_I64) n [d, a, c]) s))"
  apply (rule insn_okD [OF ok, of "Binop b TCG_TYPE_I64" "[d, a, c]"])
  using ne b
  apply (simp add: run_rules taint_shift_i64_def t g)
  apply (rule rule_soundI, (rule emits_rules)+, (assumption | (simp; fail))+,
      simp_all add: state_rules exec_rules binop_shift comp_def)
  apply (clarsimp split: if_splits)
  apply (rule agree_shift_clean32 agree_shift_clean; assumption)
  done

lemma taint_unop_i32_sound:
  assumes ok: "insn_ok P s d [a]" and u: "u \<noteq> op_neg" "u \<noteq> op_not"
    and t: "taint_unop u TCG_TYPE_I32 = taint_unop_i32 g"
    and g: "\<And>x y s. run_state (g x y) s = ((), emit (Unop u TCG_TYPE_I32) [x, y] s)"
  shows "rule_sound P s (Unop u TCG_TYPE_I32, [d, a]) [a] d
    (snd (run_state (taint_insn (Unop u TCG_TYPE_I32) n [d, a]) s))"
  apply (rule insn_okD [OF ok, of "Unop u TCG_TYPE_I32" "[d, a]"])
  using u
  apply (simp add: run_rules taint_unop_i32_def t g)
  apply (rule rule_soundI, (rule emits_rules)+, (assumption | (simp; fail))+,
      simp_all add: state_rules exec_rules)
  apply (clarsimp simp: exec_rules split: if_splits)
  apply (intro agree_ucast agree_unop; assumption)
  done

lemma taint_not_i32_sound:
  assumes ok: "insn_ok P s d [a]"
  shows "rule_sound P s (INDEX_op_not_i32, [d, a]) [a] d
    (snd (run_state (taint_insn INDEX_op_not_i32 n [d, a]) s))"
  apply (rule insn_okD [OF ok, of "INDEX_op_not_i32" "[d, a]"])
  apply (cases "d = a")
   apply (simp add: run_rules taint_unop_i32_def taint_not_i32_def)
   apply (rule rule_soundI, (rule emits_rules)+, (assumption | (simp; fail))+,
      simp_all add: state_rules exec_rules)
   apply (clarsimp, intro agree_not agree_ucast_up agree_ucast; assumption)
  apply (simp add: run_rules taint_unop_i32_def taint_not_i32_def)
  apply (rule rule_soundI, (rule emits_rules)+, (assumption | (simp; fail))+,
      simp_all add: state_rules exec_rules)
  apply (clarsimp, intro agree_not agree_ucast; assumption)
  done

lemma taint_unop_i64_sound:
  assumes ok: "insn_ok P s d [a]" and u: "u \<noteq> op_neg" "u \<noteq> op_not"
    and t: "taint_unop u TCG_TYPE_I64 = taint_unop_i64 g"
    and g: "\<And>x y s. run_state (g x y) s = ((), emit (Unop u TCG_TYPE_I64) [x, y] s)"
  shows "rule_sound P s (Unop u TCG_TYPE_I64, [d, a]) [a] d
    (snd (run_state (taint_insn (Unop u TCG_TYPE_I64) n [d, a]) s))"
  apply (rule insn_okD [OF ok, of "Unop u TCG_TYPE_I64" "[d, a]"])
  using u
  apply (simp add: run_rules taint_unop_i64_def t g)
  apply (rule rule_soundI, (rule emits_rules)+, (assumption | (simp; fail))+,
      simp_all add: state_rules exec_rules)
  apply (clarsimp simp: exec_rules split: if_splits)
  apply (intro agree_ucast agree_unop; assumption)
  done

lemma taint_not_i64_sound:
  assumes ok: "insn_ok P s d [a]"
  shows "rule_sound P s (INDEX_op_not_i64, [d, a]) [a] d
    (snd (run_state (taint_insn INDEX_op_not_i64 n [d, a]) s))"
  apply (rule insn_okD [OF ok, of "INDEX_op_not_i64" "[d, a]"])
  apply (cases "d = a")
   apply (simp add: run_rules taint_unop_i64_def taint_not_i64_def)
   apply (rule rule_soundI, (rule emits_rules)+, (assumption | (simp; fail))+,
      simp_all add: state_rules exec_rules)
   apply (clarsimp, intro agree_not agree_ucast_up agree_ucast; assumption)
  apply (simp add: run_rules taint_unop_i64_def taint_not_i64_def)
  apply (rule rule_soundI, (rule emits_rules)+, (assumption | (simp; fail))+,
      simp_all add: state_rules exec_rules)
  apply (clarsimp, intro agree_not agree_ucast; assumption)
  done

lemmas shift_emitters = tcg_gen_shl_i32_def tcg_gen_shr_i32_def tcg_gen_sar_i32_def
  tcg_gen_rotl_i32_def tcg_gen_rotr_i32_def tcg_gen_shl_i64_def tcg_gen_shr_i64_def
  tcg_gen_sar_i64_def tcg_gen_rotl_i64_def tcg_gen_rotr_i64_def
  tcg_gen_op3_i32_def tcg_gen_op3_i64_def

lemmas shift_rules = taint_shl_i32_def taint_shr_i32_def taint_sar_i32_def taint_rotl_i32_def
  taint_rotr_i32_def taint_shl_i64_def taint_shr_i64_def taint_sar_i64_def taint_rotl_i64_def
  taint_rotr_i64_def

lemmas unop_emitters = tcg_gen_ext8s_i32_def tcg_gen_ext16s_i32_def tcg_gen_ext8u_i32_def
  tcg_gen_ext16u_i32_def tcg_gen_bswap16_i32_def tcg_gen_bswap32_i32_def tcg_gen_ext8s_i64_def
  tcg_gen_ext16s_i64_def tcg_gen_ext32s_i64_def tcg_gen_ext8u_i64_def tcg_gen_ext16u_i64_def
  tcg_gen_ext32u_i64_def tcg_gen_bswap16_i64_def tcg_gen_bswap32_i64_def tcg_gen_bswap64_i64_def
  tcg_gen_op2_i32_def tcg_gen_op2_i64_def

lemmas unop_rules = taint_ext8s_i32_def taint_ext16s_i32_def taint_ext8u_i32_def
  taint_ext16u_i32_def taint_bswap16_i32_def taint_bswap32_i32_def taint_ext8s_i64_def
  taint_ext16s_i64_def taint_ext32s_i64_def taint_ext8u_i64_def taint_ext16u_i64_def
  taint_ext32u_i64_def taint_bswap16_i64_def taint_bswap32_i64_def taint_bswap64_i64_def

lemma taint_shift_sound:
  assumes "insn_ok P s d [a, c]" "is_shift b" "ty = TCG_TYPE_I64 \<longrightarrow> d \<noteq> c"
  shows "rule_sound P s (Binop b ty, [d, a, c]) [a, c] d
    (snd (run_state (taint_insn (Binop b ty) n [d, a, c]) s))"
proof -
  obtain g where "taint_binop b TCG_TYPE_I32 = taint_shift_i32 g"
    "\<And>x y z s. run_state (g x y z) s = ((), emit (Binop b TCG_TYPE_I32) [x, y, z] s)"
    using assms(2) by (auto simp: is_shift_def shift_rules shift_emitters gen_simps)
  moreover obtain g' where "taint_binop b TCG_TYPE_I64 = taint_shift_i64 g'"
    "\<And>x y z s. run_state (g' x y z) s = ((), emit (Binop b TCG_TYPE_I64) [x, y, z] s)"
    using assms(2) by (auto simp: is_shift_def shift_rules shift_emitters gen_simps)
  ultimately show ?thesis
    using assms taint_shift_i32_sound [OF assms(1,2)] taint_shift_i64_sound [OF assms(1,2)]
    by (cases ty) auto
qed

lemma taint_unop_sound:
  assumes "insn_ok P s d [a]" "u \<noteq> op_neg" "unop_exists u ty"
  shows "rule_sound P s (Unop u ty, [d, a]) [a] d
    (snd (run_state (taint_insn (Unop u ty) n [d, a]) s))"
proof (cases "u = op_not")
  case True
  then show ?thesis
    using taint_not_i32_sound [OF assms(1)] taint_not_i64_sound [OF assms(1)] by (cases ty) auto
next
  case False
  show ?thesis
  proof (cases ty)
    case TCG_TYPE_I32
    obtain g where "taint_unop u TCG_TYPE_I32 = taint_unop_i32 g"
      "\<And>x y s. run_state (g x y) s = ((), emit (Unop u TCG_TYPE_I32) [x, y] s)"
      using False assms(2,3) TCG_TYPE_I32
      by (cases u) (auto simp: unop_rules unop_emitters gen_simps unop_exists_def)
    then show ?thesis
      using taint_unop_i32_sound [OF assms(1,2) False] TCG_TYPE_I32 by auto
  next
    case TCG_TYPE_I64
    obtain g where "taint_unop u TCG_TYPE_I64 = taint_unop_i64 g"
      "\<And>x y s. run_state (g x y) s = ((), emit (Unop u TCG_TYPE_I64) [x, y] s)"
      using False assms(2,3)
      by (cases u) (auto simp: unop_rules unop_emitters gen_simps unop_exists_def)
    then show ?thesis
      using taint_unop_i64_sound [OF assms(1,2) False] TCG_TYPE_I64 by auto
  qed
qed

section \<open>Which operations have a sound rule\<close>

text \<open>
  The temporaries an operation reads and the one it writes, for the operations whose rule is
  sound.  The side conditions are those the rules need: several of them read an operand after the
  operation has overwritten it.
\<close>

fun binop_rule_sound :: "binop \<Rightarrow> TCGType \<Rightarrow> nat \<Rightarrow> nat \<Rightarrow> nat \<Rightarrow> bool" where
  "binop_rule_sound op_add ty d a b = True"
| "binop_rule_sound op_sub ty d a b = True"
| "binop_rule_sound op_mul ty d a b = True"
| "binop_rule_sound op_and TCG_TYPE_I32 d a b = (d \<noteq> a \<or> a \<noteq> b)"
| "binop_rule_sound op_or TCG_TYPE_I32 d a b = (d \<noteq> a \<or> a \<noteq> b)"
| "binop_rule_sound op_and TCG_TYPE_I64 d a b = (d \<noteq> a \<and> d \<noteq> b)"
| "binop_rule_sound op_or TCG_TYPE_I64 d a b = (d \<noteq> a \<and> d \<noteq> b)"
| "binop_rule_sound op_xor ty d a b = (d \<noteq> a \<or> a \<noteq> b)"
| "binop_rule_sound op ty d a b = (is_shift op \<and> (ty = TCG_TYPE_I64 \<longrightarrow> d \<noteq> b))"

fun sound_insn :: "insn \<Rightarrow> (nat list \<times> nat) option" where
  "sound_insn (Mov ty, [d, a]) = (if d \<noteq> a then Some ([a], d) else None)"
| "sound_insn (Movi ty, [d, c]) = Some ([], d)"
| "sound_insn (Setcond TCG_TYPE_I64, [d, a, b, c]) =
     (if cond_of_arg c \<noteq> None then Some ([a, b], d) else None)"
| "sound_insn (Binop op ty, [d, a, b]) =
     (if binop_rule_sound op ty d a b then Some ([a, b], d) else None)"
| "sound_insn (Unop u ty, [d, a]) =
     (if u \<noteq> op_neg \<and> unop_exists u ty then Some ([a], d) else None)"
| "sound_insn (Deposit TCG_TYPE_I32, [d, a, b, pos, len]) =
     (if deposit_i32_valid pos len then Some ([a, b], d) else None)"
| "sound_insn _ = None"

lemma deposit_i32_valid_len: "deposit_i32_valid pos len \<Longrightarrow> len \<noteq> 0 \<and> len \<noteq> 32"
  by (auto simp: deposit_i32_valid_def)

lemma taint_binop_sound:
  assumes "insn_ok P s d [a, b]" "binop_rule_sound op ty d a b"
  shows "rule_sound P s (Binop op ty, [d, a, b]) [a, b] d
    (snd (run_state (taint_insn (Binop op ty) n [d, a, b]) s))"
proof (cases "is_shift op")
  case True
  with assms show ?thesis
    by (intro taint_shift_sound) (auto simp: is_shift_def)
next
  case False
  note r = taint_add_i32_sound taint_sub_i32_sound taint_mul_i32_sound taint_and_i32_sound
    taint_or_i32_sound taint_xor_i32_sound taint_add_i64_sound taint_sub_i64_sound
    taint_mul_i64_sound taint_and_i64_sound taint_or_i64_sound taint_xor_i64_sound
  from assms False show ?thesis
    by (cases op; cases ty; simp add: is_shift_def; intro r; simp)
qed

lemma taint_mov_sound:
  assumes "insn_ok P s d [a]" "d \<noteq> a"
  shows "rule_sound P s (Mov ty, [d, a]) [a] d (snd (run_state (taint_insn (Mov ty) n [d, a]) s))"
  using taint_mov_i32_sound [OF assms] taint_mov_i64_sound [OF assms] by (cases ty) simp_all

lemma taint_movi_sound:
  assumes "insn_ok P s d []"
  shows "rule_sound P s (Movi ty, [d, c]) [] d (snd (run_state (taint_insn (Movi ty) n [d, c]) s))"
  using taint_movi_i32_sound [OF assms] taint_movi_i64_sound [OF assms] by (cases ty) simp_all

theorem taint_insn_sound:
  assumes "sound_insn i = Some (ins, d)" "insn_ok P s d ins"
  shows "rule_sound P s i ins d (snd (run_state (taint_insn (fst i) n (snd i)) s))"
  using assms
  by (cases i rule: sound_insn.cases)
    (auto split: if_splits dest: deposit_i32_valid_len
      intro: taint_mov_sound taint_movi_sound
        taint_binop_sound taint_unop_sound
        taint_setcond_i64_sound taint_deposit_i32_sound)

end

