(* ===== verification/I386_Globals.thy ===== *)
theory I386_Globals
  imports Gen_Logic
begin

text \<open>
  The globals of the i386 translator and their shadows (\<open>optimize_flags_init\<close> of
  target-i386/translate.c), the start of the translation of a block (\<open>cpu_gen_code\<close> of
  translate-all.c), and that the state in which a block is translated is well formed.
\<close>

section \<open>Context\<close>

definition zero_temp :: tcg_temp where
  "zero_temp = \<lparr>base_type = TCG_TYPE_I32, temp_local = False, temp_allocated = False,
     next_free_temp = 0, temp_val = 0\<rparr>"

definition tcg_context_init :: "unit gen" where
  "tcg_context_init = State_Monad.update (\<lambda>s. s\<lparr>temps := (\<lambda>_. zero_temp), nb_globals := 0,
     nb_temps := 0, first_free_temp := (\<lambda>_. 0)\<rparr>)"

definition set_shadow :: "nat \<Rightarrow> nat \<Rightarrow> unit gen" where
  "set_shadow x t = State_Monad.update (\<lambda>s. s\<lparr>shadow_arg := (shadow_arg s)(x := t)\<rparr>)"

fun set_shadows :: "nat list \<Rightarrow> nat list \<Rightarrow> unit gen" where
  "set_shadows (x # xs) (t # ts) = do { set_shadow x t; set_shadows xs ts }"
| "set_shadows _ _ = State_Monad.return ()"

fun tcg_globals_new :: "TCGType list \<Rightarrow> nat list gen" where
  "tcg_globals_new [] = State_Monad.return []"
| "tcg_globals_new (ty # tys) = do {
     x \<leftarrow> tcg_global_new ty;
     xs \<leftarrow> tcg_globals_new tys;
     State_Monad.return (x # xs) }"

record i386_globals =
  cpu_cc_op :: nat
  cpu_cc_src :: nat
  cpu_cc_dst :: nat
  cpu_cc_tmp :: nat
  taint_cpu_cc_src :: nat
  taint_cpu_cc_dst :: nat
  taint_cpu_cc_tmp :: nat
  eip_taint :: nat
  cpu_regs :: "nat list"
  taint_cpu_regs :: "nat list"
  tempidx2 :: nat

definition optimize_flags_init :: "i386_globals gen" where
  "optimize_flags_init = do {
     env \<leftarrow> tcg_global_new TCG_TYPE_I64;
     State_Monad.update (\<lambda>s. s\<lparr>cpu_env := env\<rparr>);
     cc_op \<leftarrow> tcg_global_new TCG_TYPE_I32;
     cc_src \<leftarrow> tcg_global_new TCG_TYPE_I32;
     cc_dst \<leftarrow> tcg_global_new TCG_TYPE_I32;
     cc_tmp \<leftarrow> tcg_global_new TCG_TYPE_I32;
     taint_cc_src \<leftarrow> tcg_global_new TCG_TYPE_I32;
     taint_cc_dst \<leftarrow> tcg_global_new TCG_TYPE_I32;
     taint_cc_tmp \<leftarrow> tcg_global_new TCG_TYPE_I32;
     eipt \<leftarrow> tcg_global_new TCG_TYPE_I32;
     set_shadow cc_src taint_cc_src;
     set_shadow cc_dst taint_cc_dst;
     set_shadow cc_tmp taint_cc_tmp;
     regs \<leftarrow> tcg_globals_new (replicate 8 TCG_TYPE_I32);
     taint_regs \<leftarrow> tcg_globals_new (replicate 8 TCG_TYPE_I32);
     set_shadows regs taint_regs;
     idx \<leftarrow> tcg_global_new TCG_TYPE_I32;
     State_Monad.update (\<lambda>s. s\<lparr>tempidx := idx\<rparr>);
     idx2 \<leftarrow> tcg_global_new TCG_TYPE_I32;
     State_Monad.return \<lparr>cpu_cc_op = cc_op, cpu_cc_src = cc_src, cpu_cc_dst = cc_dst,
       cpu_cc_tmp = cc_tmp, taint_cpu_cc_src = taint_cc_src, taint_cpu_cc_dst = taint_cc_dst,
       taint_cpu_cc_tmp = taint_cc_tmp, eip_taint = eipt, cpu_regs = regs,
       taint_cpu_regs = taint_regs, tempidx2 = idx2\<rparr> }"

text \<open>What \<open>cpu_gen_code\<close> does before it calls the translator.\<close>

definition cpu_gen_code_start :: "unit gen" where
  "cpu_gen_code_start = do {
     tcg_func_start;
     s \<leftarrow> State_Monad.get;
     gen_when (taint_tracking_enabled s) clean_shadow_arg }"

lemma run_tcg_global_new:
  "nb_globals s < TCG_MAX_TEMPS \<Longrightarrow> run_state (tcg_global_new ty) s = (nb_globals s,
     s\<lparr>temps := (temps s)(nb_globals s := (temps s (nb_globals s))\<lparr>base_type := ty\<rparr>),
       nb_globals := Suc (nb_globals s)\<rparr>)"
  by (simp add: tcg_global_new_def tcg_temp_alloc_def gen_simps Let_def)

definition i386_start :: "gen_state \<Rightarrow> i386_globals \<times> gen_state" where
  "i386_start = run_state (do { tcg_context_init; g \<leftarrow> optimize_flags_init; cpu_gen_code_start;
     State_Monad.return g })"

lemma replicate_8: "replicate 8 x = [x, x, x, x, x, x, x, x]"
  by (simp add: numeral_eq_Suc)

lemma room: "n < 64 \<Longrightarrow> n < TCG_MAX_TEMPS"
  by (simp add: TCG_MAX_TEMPS_def)

text \<open>The shadow of each global.\<close>

definition i386_shadow :: "nat \<Rightarrow> nat" where
  "i386_shadow x = (if 2 \<le> x \<and> x < 5 then x + 3 else if 9 \<le> x \<and> x < 17 then x + 8 else 0)"

lemmas i386_start_unfold = i386_start_def tcg_context_init_def optimize_flags_init_def gen_simps
  replicate_8 run_tcg_global_new room set_shadow_def cpu_gen_code_start_def tcg_func_start_def
  clean_shadow_arg_def

lemma i386_start_eq:
  assumes "taint_tracking_enabled s" "shadow_arg s = (\<lambda>_. 0)"
  shows "fst (i386_start s) = \<lparr>cpu_cc_op = 1, cpu_cc_src = 2, cpu_cc_dst = 3, cpu_cc_tmp = 4,
     taint_cpu_cc_src = 5, taint_cpu_cc_dst = 6, taint_cpu_cc_tmp = 7, eip_taint = 8,
     cpu_regs = [9, 10, 11, 12, 13, 14, 15, 16], taint_cpu_regs = [17, 18, 19, 20, 21, 22, 23, 24],
     tempidx2 = 26\<rparr>"
    "nb_globals (snd (i386_start s)) = 27" "nb_temps (snd (i386_start s)) = 27"
    "\<not> temp_allocated (temps (snd (i386_start s)) x)"
    "no_free_temps (snd (i386_start s))"
    "gen_opc_buf (snd (i386_start s)) = []" "gen_opparam_buf (snd (i386_start s)) = []"
    "taint_tracking_enabled (snd (i386_start s))" "aborted (snd (i386_start s)) = aborted s"
    "cpu_env (snd (i386_start s)) = 0" "tempidx (snd (i386_start s)) = 25"
  using assms
  by (simp_all add: i386_start_unfold zero_temp_def no_free_temps_def)

lemma i386_start_shadow:
  assumes "taint_tracking_enabled s" "shadow_arg s = (\<lambda>_. 0)"
  shows "shadow_arg (snd (i386_start s)) = i386_shadow"
proof (rule ext)
  fix x
  show "shadow_arg (snd (i386_start s)) x = i386_shadow x"
    using assms by (simp add: i386_start_unfold) (simp add: i386_shadow_def numeral_eq_Suc; arith)
qed

text \<open>The temporaries of the guest program among the globals, and those of them with a shadow.\<close>

definition i386_program :: "nat set" where
  "i386_program = {1, 2, 3, 4, 9, 10, 11, 12, 13, 14, 15, 16}"

lemma i386_shadow_less: "i386_shadow x \<noteq> 0 \<Longrightarrow> x < 27 \<and> i386_shadow x < 27"
  by (auto simp: i386_shadow_def split: if_splits)

lemma i386_shadow_inj: "i386_shadow x \<noteq> 0 \<Longrightarrow> i386_shadow x = i386_shadow y \<Longrightarrow> x = y"
  by (auto simp: i386_shadow_def split: if_splits)

lemma i386_start_wf:
  assumes "taint_tracking_enabled s" "shadow_arg s = (\<lambda>_. 0)" "\<not> aborted s"
  shows "wf_gen (snd (i386_start s))" "shadow_sep i386_program (snd (i386_start s))"
proof -
  note e = i386_start_eq [OF assms(1,2)] i386_start_shadow [OF assms(1,2)]
  show "wf_gen (snd (i386_start s))"
    unfolding wf_gen_def e
    using assms(1,3) i386_shadow_less i386_shadow_inj by (auto simp: e TCG_MAX_TEMPS_def)
  show "shadow_sep i386_program (snd (i386_start s))"
    unfolding shadow_sep_def e
    by (auto simp: i386_program_def i386_shadow_def)
qed

section \<open>An example\<close>

definition blank_gen :: gen_state where
  "blank_gen = \<lparr>taint_tracking_enabled = True, taint_load_pointers_enabled = False,
     taint_store_pointers_enabled = False, eip_check_needed = False, helper_addr = (\<lambda>_. 0),
     cpu_offset = (\<lambda>_. 0), nb_globals = 0, nb_temps = 0, temps = (\<lambda>_. zero_temp),
     first_free_temp = (\<lambda>_. 0), gen_opc_buf = [], gen_opparam_buf = [], gen_old_opc_ptr = 0,
     gen_old_opparam_ptr = 0,
     gen_opc_meta = (\<lambda>i. \<lparr>opc_pc = of_nat i, opc_instr_start = (i = 1), opc_icount = i, opc_cc_op = 0\<rparr>),
     shadow_arg = (\<lambda>_. 0), cpu_env = 0, tempidx = 0, taint_log_temps = [],
     hflags = \<lparr>in_helper_func = False, out_helper_func = False, sysexit_helper_func = False,
       divb_helper_func = False, divw_helper_func = False, divl_helper_func = False,
       clean_eax_after = False, clean_ebx_after = False, clean_ecx_after = False,
       clean_edx_after = False, clean_esp_after = False, clean_tempidx_before = False\<rparr>,
     aborted = False\<rparr>"

text \<open>A state of the i386 translator with one temporary, number 27, and a given block.\<close>

definition example_gen :: "insn list \<Rightarrow> gen_state" where
  "example_gen blk = (new_temp TCG_TYPE_I32 False (snd (i386_start blank_gen)))
     \<lparr>gen_opc_buf := map fst blk, gen_opparam_buf := concat (map snd blk),
      gen_old_opc_ptr := 0, gen_old_opparam_ptr := 0\<rparr>"

lemma blank_ok:
  "taint_tracking_enabled blank_gen" "shadow_arg blank_gen = (\<lambda>_. 0)" "\<not> aborted blank_gen"
  by (simp_all add: blank_gen_def)

lemma example_fields [simp]:
  "nb_globals (example_gen blk) = 27" "nb_temps (example_gen blk) = 28"
  "shadow_arg (example_gen blk) = i386_shadow"
  "gen_old_opc_ptr (example_gen blk) = 0" "gen_old_opparam_ptr (example_gen blk) = 0"
  "gen_opc_buf (example_gen blk) = map fst blk"
  "gen_opparam_buf (example_gen blk) = concat (map snd blk)"
  by (simp_all add: example_gen_def i386_start_eq [OF blank_ok(1,2)]
      i386_start_shadow [OF blank_ok(1,2)])

lemma example_start: "opc_instr_start (gen_opc_meta (example_gen blk) i) = (i = 1)"
  by (simp add: example_gen_def i386_start_unfold blank_gen_def)

lemma example_wf: "wf_gen (example_gen blk)" "shadow_sep (insert 27 i386_program) (example_gen blk)"
proof -
  let ?s = "new_temp TCG_TYPE_I32 False (snd (i386_start blank_gen))"
  have w: "wf_gen ?s"
    using i386_start_wf(1) [OF blank_ok]
    by (simp add: wf_gen_new_temp i386_start_eq [OF blank_ok(1,2)] TCG_MAX_TEMPS_def)
  then show "wf_gen (example_gen blk)"
    by (simp add: example_gen_def wf_gen_def no_free_temps_def)
  show "shadow_sep (insert 27 i386_program) (example_gen blk)"
    by (auto simp: shadow_sep_def i386_program_def i386_shadow_def)
qed

lemma example_holds: "list_all wf_insn blk \<Longrightarrow> holds_code (example_gen blk) blk"
  by (simp add: holds_code_def)

section \<open>What the set-up guarantees\<close>

text \<open>
  C27.  The translator starts in a well-formed state: after \<^verbatim>\<open>optimize_flags_init\<close> and the start of
  \<^verbatim>\<open>cpu_gen_code\<close>, each of the eight registers and of the three lazy flag operands has a shadow
  that is a global of its own and no temporary of the guest program, and no other temporary has
  one; in particular \<^verbatim>\<open>cpu_env\<close> and \<^verbatim>\<open>cpu_cc_op\<close> are not shadowed.
\<close>

theorem i386_start_shadows:
  assumes "taint_tracking_enabled s" "shadow_arg s = (\<lambda>_. 0)" "\<not> aborted s"
    and "i386_start s = (g, s')"
  shows "wf_gen s' \<and>
    shadow_sep ({cpu_cc_op g, cpu_cc_src g, cpu_cc_dst g, cpu_cc_tmp g} \<union> set (cpu_regs g)) s' \<and>
    distinct (cpu_env s' # cpu_cc_op g # cpu_cc_src g # cpu_cc_dst g # cpu_cc_tmp g #
      taint_cpu_cc_src g # taint_cpu_cc_dst g # taint_cpu_cc_tmp g # eip_taint g # tempidx s' #
      tempidx2 g # cpu_regs g @ taint_cpu_regs g) \<and>
    map (shadow_arg s') ([cpu_cc_src g, cpu_cc_dst g, cpu_cc_tmp g] @ cpu_regs g) =
      [taint_cpu_cc_src g, taint_cpu_cc_dst g, taint_cpu_cc_tmp g] @ taint_cpu_regs g \<and>
    (\<forall>x. x \<notin> set ([cpu_cc_src g, cpu_cc_dst g, cpu_cc_tmp g] @ cpu_regs g) \<longrightarrow> shadow_arg s' x = 0)"
proof -
  have gs: "g = fst (i386_start s)" "s' = snd (i386_start s)" using assms(4) by simp_all
  note e = i386_start_eq [OF assms(1,2)] i386_start_shadow [OF assms(1,2)]
  have "shadow_sep i386_program s' \<Longrightarrow>
    shadow_sep ({cpu_cc_op g, cpu_cc_src g, cpu_cc_dst g, cpu_cc_tmp g} \<union> set (cpu_regs g)) s'"
    by (auto simp: shadow_sep_def gs e i386_program_def)
  moreover have "x \<notin> set ([cpu_cc_src g, cpu_cc_dst g, cpu_cc_tmp g] @ cpu_regs g) \<longrightarrow>
      shadow_arg s' x = 0" for x
    by (auto simp: gs e i386_shadow_def)
  ultimately show ?thesis
    using i386_start_wf [OF assms(1-3)] unfolding gs by (simp add: e i386_shadow_def)
qed

theorem i386_start_shadows_witness:
  "wf_gen (snd (i386_start blank_gen)) \<and>
   shadow_arg (snd (i386_start blank_gen)) (cpu_cc_op (fst (i386_start blank_gen))) = 0"
  using i386_start_shadows [OF blank_ok surjective_pairing]
  by (simp add: i386_start_eq [OF blank_ok(1,2)])

text \<open>
  C28.  Between blocks the state stays well formed: whatever temporaries and shadows the translation
  of a block has left, the start of \<^verbatim>\<open>cpu_gen_code\<close> empties the buffers, drops all temporaries and
  their shadows, keeps the shadows of the globals, and yields a state that satisfies the invariant
  of the instrumentation again.
\<close>

theorem cpu_gen_code_start_ok:
  assumes "wf_gen s" "s' = snd (run_state cpu_gen_code_start s)"
  shows "wf_gen s' \<and> nb_temps s' = nb_globals s \<and> nb_globals s' = nb_globals s \<and>
    gen_opc_buf s' = [] \<and> gen_opparam_buf s' = [] \<and>
    shadow_arg s' = (\<lambda>x. if x < nb_globals s then shadow_arg s x else 0)"
proof -
  have z: "shadow_arg s x = 0" if "TCG_MAX_TEMPS \<le> x" for x
    using assms(1) that unfolding wf_gen_def by (meson le_trans not_less)
  have sh: "shadow_arg s' = (\<lambda>x. if x < nb_globals s then shadow_arg s x else 0)"
    using wf_genD(3) [OF assms(1)] z unfolding assms(2)
    by (auto simp: cpu_gen_code_start_def tcg_func_start_def clean_shadow_arg_def gen_simps fun_eq_iff
        not_less)
  have f: "nb_temps s' = nb_globals s" "nb_globals s' = nb_globals s" "gen_opc_buf s' = []"
    "gen_opparam_buf s' = []" "temps s' = temps s" "no_free_temps s'"
    "taint_tracking_enabled s'" "\<not> aborted s'"
    using wf_genD(2,3) [OF assms(1)] unfolding assms(2)
    by (simp_all add: cpu_gen_code_start_def tcg_func_start_def clean_shadow_arg_def gen_simps
        no_free_temps_def)
  have "wf_gen s'"
    unfolding wf_gen_def f sh using f(6-8) assms(1) unfolding wf_gen_def
    by (auto split: if_splits)
  with f sh show ?thesis by simp
qed

theorem cpu_gen_code_start_ok_witness:
  "wf_gen (snd (run_state cpu_gen_code_start (example_gen [(INDEX_op_movi_i32, [27, 5])]))) \<and>
   nb_temps (snd (run_state cpu_gen_code_start (example_gen [(INDEX_op_movi_i32, [27, 5])]))) = 27"
  using cpu_gen_code_start_ok [OF example_wf(1) refl] by simp

end
