(* ===== verification/Taint_Block.thy ===== *)
theory Taint_Block
  imports Taint_Sound I386_Globals
begin

text \<open>
  Soundness of the instrumentation of a block: the rules of \<open>Taint_Sound\<close> compose along the loop of
  \<open>gen_taintcheck_insn\<close>.  The instrumented block computes what the block computes, and the shadows
  it computes cover every dependence of a result on the tainted bits of the inputs.
\<close>

section \<open>Operations of a block\<close>

lemma sound_insn_exec:
  assumes "sound_insn i = Some (ins, d)" "exec_insn i r = Some ro" "\<forall>x\<in>set ins. r' x = r x"
  shows "exec_insn i r' = Some (r'(d := ro d))"
  using assms
  by (cases i rule: sound_insn.cases) (auto split: if_splits TCGType.splits simp: exec_rules)

lemma sound_insn_frame:
  assumes "sound_insn i = Some (ins, d)" "exec_insn i r = Some ro" "y \<noteq> d"
  shows "ro y = r y"
proof -
  have "exec_insn i r = Some (r(d := ro d))" using sound_insn_exec [OF assms(1,2)] by blast
  with assms(2,3) show ?thesis by (metis fun_upd_other option.inject)
qed

lemma exec_code_single: "exec_code [i] r = exec_insn i r"
  by (cases "exec_insn i r") simp_all

lemma sound_insn_wf: "sound_insn i = Some (ins, d) \<Longrightarrow> wf_insn i"
  by (cases i rule: sound_insn.cases) (auto split: if_splits)

fun sound_block :: "nat list \<Rightarrow> insn list \<Rightarrow> bool" where
  "sound_block D [] = True"
| "sound_block D (i # blk) = (case sound_insn i of
     None \<Rightarrow> False
   | Some (ins, d) \<Rightarrow> set ins \<subseteq> set D \<and> sound_block (d # D) blk)"

definition results :: "insn list \<Rightarrow> nat list" where
  "results blk = concat (map (\<lambda>i. case sound_insn i of None \<Rightarrow> [] | Some (ins, d) \<Rightarrow> [d]) blk)"

lemma sound_block_wf: "sound_block D blk \<Longrightarrow> list_all wf_insn blk"
  by (induction D blk rule: sound_block.induct) (auto split: option.splits dest: sound_insn_wf)

section \<open>One iteration of the loop\<close>

definition meta_step :: "bool \<Rightarrow> (nat \<Rightarrow> op_meta) \<Rightarrow> nat \<Rightarrow> gen_state \<Rightarrow> gen_state" where
  "meta_step search_pc old k s =
     (if search_pc \<and> opc_instr_start (old k)
      then s\<lparr>gen_opc_meta := (gen_opc_meta s)(length (gen_opc_buf s) := old k)\<rparr> else s)"

lemma meta_step_simps [simp]:
  "wf_gen (meta_step sp old k s) = wf_gen s"
  "shadow_sep P (meta_step sp old k s) = shadow_sep P s"
  "grows s' (meta_step sp old k s) = grows s' s"
  "grows (meta_step sp old k s) s' = grows s s'"
  "nb_temps (meta_step sp old k s) = nb_temps s"
  "nb_globals (meta_step sp old k s) = nb_globals s"
  "shadow_arg (meta_step sp old k s) = shadow_arg s"
  "gen_opc_buf (meta_step sp old k s) = gen_opc_buf s"
  "gen_opparam_buf (meta_step sp old k s) = gen_opparam_buf s"
  by (simp_all add: meta_step_def wf_gen_def shadow_sep_def grows_def no_free_temps_def)

lemma emits_meta_step [simp]: "emits (meta_step sp old k s) s' L = emits s s' L"
  by (simp add: emits_def holds_code_def)

lemma can_shadow_meta_step [simp]: "can_shadow (meta_step sp old k s) x = can_shadow s x"
  by (simp add: can_shadow_def)

definition meta_lj :: "bool \<Rightarrow> (nat \<Rightarrow> op_meta) \<Rightarrow> nat \<Rightarrow> int \<Rightarrow> gen_state \<Rightarrow> int" where
  "meta_lj search_pc old k lj s =
     (if search_pc \<and> opc_instr_start (old k) then int (length (gen_opc_buf s)) else lj)"

lemma run_copy_meta:
  "run_state (copy_meta old k lj) s = (meta_lj True old k lj s, meta_step True old k s)"
  by (simp add: copy_meta_def meta_step_def meta_lj_def gen_simps Let_def)

lemma meta_off [simp]: "meta_lj False old k lj s = lj" "meta_step False old k s = s"
  by (simp_all add: meta_lj_def meta_step_def)

lemma run_taint_loop_Cons:
  assumes "wf_insn i"
  shows "run_state (taint_loop sp old k (fst i # opcs) (snd i @ params) lj) s =
    run_state (taint_loop sp old (Suc k) opcs params (meta_lj sp old k lj s))
      (snd (run_state (taint_insn (fst i) (op_arg_counts (fst i) (snd i)) (snd i))
        (meta_step sp old k s)))"
proof -
  have n: "op_arg_counts (fst i) (snd i @ params) = op_arg_counts (fst i) (snd i)"
    using assms by (intro op_arg_counts_append) (auto simp: wf_insn_def)
  have l: "nb_args (op_arg_counts (fst i) (snd i)) = length (snd i)"
    using assms by (simp add: wf_insn_def del: op_arg_counts.simps)
  show ?thesis
    by (cases sp)
      (simp_all add: gen_simps run_copy_meta Let_def n l case_prod_beta del: op_arg_counts.simps)
qed

section \<open>The loop\<close>

text \<open>
  \<open>D\<close> lists the temporaries whose value and shadow are defined when the block starts, \<open>P\<close> the
  temporaries of the program.
\<close>

definition loop_ok :: "nat set \<Rightarrow> nat list \<Rightarrow> insn list \<Rightarrow> gen_state \<Rightarrow> bool" where
  "loop_ok P D blk s \<longleftrightarrow> wf_gen s \<and> shadow_sep P s \<and>
     (\<forall>x\<in>set D. x \<in> P \<and> shadow_arg s x \<noteq> 0) \<and>
     (\<forall>x\<in>set (results blk). x \<in> P \<and> can_shadow s x) \<and>
     nb_temps s + 8 * length blk \<le> TCG_MAX_TEMPS \<and> sound_block D blk"

text \<open>
  \<open>r\<close> is a run of the block as it was and \<open>rt\<close> one of the instrumented block, from states that
  agree on the program; \<open>r2\<close> is another run of the block, whose inputs agree with those of \<open>r\<close>
  outside their taint.
\<close>

definition covers :: "nat list \<Rightarrow> gen_state \<Rightarrow> regs \<Rightarrow> regs \<Rightarrow> regs \<Rightarrow> bool" where
  "covers D s rt r r2 \<longleftrightarrow> (\<forall>x\<in>set D. agree (rt (shadow_arg s x)) (r x) (r2 x))"

definition block_sound :: "nat set \<Rightarrow> nat list \<Rightarrow> nat list \<Rightarrow> insn list \<Rightarrow> gen_state \<Rightarrow>
    gen_state \<Rightarrow> insn list \<Rightarrow> bool" where
  "block_sound P D D' blk s s' L \<longleftrightarrow>
     (\<forall>r rt ro. (\<forall>x\<in>P. rt x = r x) \<longrightarrow> exec_code blk r = Some ro \<longrightarrow>
       (\<exists>rt'. exec_code L rt = Some rt' \<and> (\<forall>x\<in>P. rt' x = ro x) \<and>
          (\<forall>r2 ro2. covers D s rt r r2 \<longrightarrow> exec_code blk r2 = Some ro2 \<longrightarrow>
             covers D' s' rt' ro ro2)))"

lemma block_soundD:
  assumes "block_sound P D D' blk s s' L" "\<forall>x\<in>P. rt x = r x" "exec_code blk r = Some ro"
  obtains rt' where "exec_code L rt = Some rt'" "\<forall>x\<in>P. rt' x = ro x"
    "\<forall>r2 ro2. covers D s rt r r2 \<longrightarrow> exec_code blk r2 = Some ro2 \<longrightarrow> covers D' s' rt' ro ro2"
  using assms(1) [unfolded block_sound_def, THEN spec, THEN spec, THEN spec, THEN mp, OF assms(2),
      THEN mp, OF assms(3)] that
  by (elim exE conjE) blast

lemma rule_block_sound:
  assumes rule: "rule_sound P s i ins d s'" and i: "sound_insn i = Some (ins, d)"
    and s: "wf_gen s" "shadow_sep P s" and D: "\<forall>x\<in>set D. x \<in> P \<and> shadow_arg s x \<noteq> 0"
    and ins: "set ins \<subseteq> set D" and d: "d \<in> P"
  shows "\<exists>L. L \<noteq> [] \<and> emits s s' L \<and> block_sound P D (d # D) [i] s s' L"
proof -
  from rule have s': "wf_gen s'" "shadow_sep P s'" "grows s s'" "shadow_arg s' d \<noteq> 0"
    by (simp_all add: rule_sound_def)
  from rule obtain L where L: "emits s s' L" "L \<noteq> []"
    and run: "\<And>r ro. exec_insn i r = Some ro \<Longrightarrow> \<exists>r'. exec_code L r = Some r' \<and> r' d = ro d \<and>
          (\<forall>y < nb_temps s. y \<noteq> d \<longrightarrow> y \<noteq> shadow_arg s' d \<longrightarrow> r' y = r y) \<and>
          (\<forall>r2 ro2. (\<forall>x\<in>set ins. agree (r (shadow_arg s x)) (r x) (r2 x)) \<longrightarrow>
             exec_insn i r2 = Some ro2 \<longrightarrow> agree (r' (shadow_arg s' d)) (ro d) (ro2 d))"
    unfolding rule_sound_def by blast
  have "block_sound P D (d # D) [i] s s' L"
    unfolding block_sound_def
  proof (intro allI impI)
    fix r rt ro
    assume eq: "\<forall>x\<in>P. rt x = r x" and "exec_code [i] r = Some ro"
    then have ex: "exec_insn i r = Some ro" unfolding exec_code_single by blast
    have inP: "\<forall>x\<in>set ins. rt x = r x" using eq D ins by blast
    from sound_insn_exec [OF i ex inP] obtain rt' where
      L': "exec_code L rt = Some rt'" "rt' d = ro d"
      and fr: "\<And>y. y < nb_temps s \<Longrightarrow> y \<noteq> d \<Longrightarrow> y \<noteq> shadow_arg s' d \<Longrightarrow> rt' y = rt y"
      and ag: "\<And>r2 ro2. (\<forall>x\<in>set ins. agree (rt (shadow_arg s x)) (rt x) (r2 x)) \<Longrightarrow>
             exec_insn i r2 = Some ro2 \<Longrightarrow> agree (rt' (shadow_arg s' d)) (ro d) (ro2 d)"
      using run [of rt "rt(d := ro d)"] by auto
    have P': "rt' x = ro x" if "x \<in> P" for x
    proof (cases "x = d")
      case False
      with that fr [of x] shadow_sepD(1,3) [OF s(2) that] shadow_sepD(3) [OF s'(2) that] eq
      show ?thesis by (simp add: sound_insn_frame [OF i ex])
    qed (simp add: L'(2))
    have "covers (d # D) s' rt' ro ro2" if c: "covers D s rt r r2" "exec_code [i] r2 = Some ro2" for r2 ro2
    proof -
      from c(2) have ex2: "exec_insn i r2 = Some ro2" unfolding exec_code_single .
      have "agree (rt' (shadow_arg s' d)) (ro d) (ro2 d)"
        using c(1) ins inP by (intro ag [OF _ ex2]) (auto simp: covers_def)
      moreover have "agree (rt' (shadow_arg s' x)) (ro x) (ro2 x)" if x: "x \<in> set D" "x \<noteq> d" for x
      proof -
        have sh: "shadow_arg s' x = shadow_arg s x" "shadow_arg s x \<noteq> 0"
          using D x(1) grows_shadow [OF s'(3)] by auto
        have "shadow_arg s' x \<noteq> shadow_arg s' d"
          using wf_genD(10) [OF s'(1), of x d] sh x(2) by auto
        then have "rt' (shadow_arg s' x) = rt (shadow_arg s x)"
          using fr [of "shadow_arg s x"] sh wf_genD(9) [OF s(1), of x] shadow_sepD(2) [OF s(2) d]
          by simp
        then show ?thesis
          using c(1) x sound_insn_frame [OF i ex] sound_insn_frame [OF i ex2] by (simp add: covers_def)
      qed
      ultimately show ?thesis by (auto simp: covers_def)
    qed
    with L' P' show "\<exists>rt'. exec_code L rt = Some rt' \<and> (\<forall>x\<in>P. rt' x = ro x) \<and>
        (\<forall>r2 ro2. covers D s rt r r2 \<longrightarrow> exec_code [i] r2 = Some ro2 \<longrightarrow>
           covers (d # D) s' rt' ro ro2)"
      by blast
  qed
  with L show ?thesis by blast
qed

lemma block_sound_append:
  assumes "block_sound P D1 D2 b1 s1 s2 L1" "block_sound P D2 D3 b2 s2 s3 L2"
  shows "block_sound P D1 D3 (b1 @ b2) s1 s3 (L1 @ L2)"
  unfolding block_sound_def
proof (intro allI impI)
  fix r rt ro
  assume eq: "\<forall>x\<in>P. rt x = r x" and "exec_code (b1 @ b2) r = Some ro"
  then obtain ro1 where ro1: "exec_code b1 r = Some ro1" "exec_code b2 ro1 = Some ro"
    unfolding exec_code_append bind_eq_Some_conv by blast
  obtain rt1 where rt1: "exec_code L1 rt = Some rt1" "\<forall>x\<in>P. rt1 x = ro1 x"
    "\<forall>r2 ro2. covers D1 s1 rt r r2 \<longrightarrow> exec_code b1 r2 = Some ro2 \<longrightarrow> covers D2 s2 rt1 ro1 ro2"
    by (rule block_soundD [OF assms(1) eq ro1(1)]) (rule that; assumption)
  obtain rt2 where rt2: "exec_code L2 rt1 = Some rt2" "\<forall>x\<in>P. rt2 x = ro x"
    "\<forall>r2 ro2. covers D2 s2 rt1 ro1 r2 \<longrightarrow> exec_code b2 r2 = Some ro2 \<longrightarrow> covers D3 s3 rt2 ro ro2"
    by (rule block_soundD [OF assms(2) rt1(2) ro1(2)]) (rule that; assumption)
  have "covers D3 s3 rt2 ro ro2"
    if c: "covers D1 s1 rt r r2" "exec_code (b1 @ b2) r2 = Some ro2" for r2 ro2
  proof -
    obtain ro3 where "exec_code b1 r2 = Some ro3" "exec_code b2 ro3 = Some ro2"
      using c(2) unfolding exec_code_append bind_eq_Some_conv by blast
    then show ?thesis using rt1(3) rt2(3) c(1) by blast
  qed
  with rt1(1) rt2(1,2) show "\<exists>rt'. exec_code (L1 @ L2) rt = Some rt' \<and> (\<forall>x\<in>P. rt' x = ro x) \<and>
      (\<forall>r2 ro2. covers D1 s1 rt r r2 \<longrightarrow> exec_code (b1 @ b2) r2 = Some ro2 \<longrightarrow>
         covers D3 s3 rt' ro ro2)"
    unfolding exec_code_append bind_eq_Some_conv by blast
qed

lemma emits_append: "emits s1 s2 L1 \<Longrightarrow> emits s2 s3 L2 \<Longrightarrow> emits s1 s3 (L1 @ L2)"
  unfolding emits_def by (metis append.assoc)

text \<open>The program part of \<open>block_sound\<close>, for prefixes of a block.\<close>

definition prog_eq :: "nat set \<Rightarrow> insn list \<Rightarrow> insn list \<Rightarrow> bool" where
  "prog_eq P blk L \<longleftrightarrow> (\<forall>r rt ro. (\<forall>x\<in>P. rt x = r x) \<longrightarrow> exec_code blk r = Some ro \<longrightarrow>
     (\<exists>rt'. exec_code L rt = Some rt' \<and> (\<forall>x\<in>P. rt' x = ro x)))"

lemma block_sound_prog_eq: "block_sound P D D' blk s s' L \<Longrightarrow> prog_eq P blk L"
  unfolding block_sound_def prog_eq_def by blast

lemma prog_eq_Nil [simp]: "prog_eq P [] []"
  by (simp add: prog_eq_def)

lemma prog_eq_append:
  assumes "prog_eq P b1 L1" "prog_eq P b2 L2"
  shows "prog_eq P (b1 @ b2) (L1 @ L2)"
  unfolding prog_eq_def exec_code_append bind_eq_Some_conv
  using assms unfolding prog_eq_def by blast

text \<open>
  The metadata after the loop, when \<open>Ls\<close> is the code emitted for each operation and the first of
  them starts at index \<open>n\<close> of the buffer; and the value of \<open>return_lj\<close>.
\<close>

fun meta_after :: "(nat \<Rightarrow> op_meta) \<Rightarrow> nat \<Rightarrow> nat \<Rightarrow> insn list list \<Rightarrow> (nat \<Rightarrow> op_meta) \<Rightarrow>
    (nat \<Rightarrow> op_meta)" where
  "meta_after old k n [] m = m"
| "meta_after old k n (L # Ls) m = meta_after old (Suc k) (n + length L) Ls
     (if opc_instr_start (old k) then m(n := old k) else m)"

fun lj_after :: "(nat \<Rightarrow> op_meta) \<Rightarrow> nat \<Rightarrow> nat \<Rightarrow> insn list list \<Rightarrow> int \<Rightarrow> int" where
  "lj_after old k n [] lj = lj"
| "lj_after old k n (L # Ls) lj = lj_after old (Suc k) (n + length L) Ls
     (if opc_instr_start (old k) then int n else lj)"

definition loop_result :: "nat set \<Rightarrow> nat list \<Rightarrow> insn list \<Rightarrow> gen_state \<Rightarrow> gen_state \<Rightarrow>
    insn list list \<Rightarrow> bool" where
  "loop_result P D blk s s' Ls \<longleftrightarrow>
     wf_gen s' \<and> shadow_sep P s' \<and> grows s s' \<and> nb_temps s' \<le> nb_temps s + 8 * length blk \<and>
     (\<forall>x\<in>set (results blk). shadow_arg s' x \<noteq> 0) \<and>
     length Ls = length blk \<and> [] \<notin> set Ls \<and> emits s s' (concat Ls) \<and>
     block_sound P D (rev (results blk) @ D) blk s s' (concat Ls) \<and>
     (\<forall>j. prog_eq P (take j blk) (concat (take j Ls)))"

lemma loop_result_Cons:
  assumes d: "sound_insn i = Some (ins, d)" and s1: "grows s s1" "nb_temps s1 \<le> nb_temps s + 8"
    "shadow_arg s1 d \<noteq> 0" and L: "L \<noteq> []" "emits s s1 L" "block_sound P D (d # D) [i] s s1 L"
    and IH: "loop_result P (d # D) blk s1 s' Ls"
  shows "loop_result P D (i # blk) s s' (L # Ls)"
proof -
  have res: "results (i # blk) = d # results blk" by (simp add: results_def d)
  have b: "block_sound P (d # D) (rev (results blk) @ d # D) blk s1 s' (concat Ls)"
    and g: "grows s1 s'" and e: "emits s1 s' (concat Ls)"
    and pe: "\<And>j. prog_eq P (take j blk) (concat (take j Ls))"
    using IH by (simp_all add: loop_result_def)
  have "prog_eq P (take j (i # blk)) (concat (take j (L # Ls)))" for j
  proof (cases j)
    case (Suc j')
    then show ?thesis
      using prog_eq_append [OF block_sound_prog_eq [OF L(3)] pe [of j']] by simp
  qed simp
  moreover have "block_sound P D (rev (results (i # blk)) @ D) (i # blk) s s' (concat (L # Ls))"
    using block_sound_append [OF L(3) b] by (simp add: res)
  moreover have "shadow_arg s' d \<noteq> 0" using s1(3) grows_shadow [OF g] by simp
  ultimately show ?thesis
    using IH grows_trans [OF s1(1) g] emits_append [OF L(2) e] s1(2) L(1)
    by (simp add: loop_result_def res)
qed

lemma emits_length: "emits s s' L \<Longrightarrow> holds_code s is \<Longrightarrow>
    length (gen_opc_buf s') = length (gen_opc_buf s) + length L"
  unfolding emits_def holds_code_def by auto

lemma taint_loop_sound:
  "loop_ok P D blk s \<Longrightarrow> holds_code s is \<Longrightarrow>
   \<exists>s' Ls. run_state (taint_loop sp old k (map fst blk) (concat (map snd blk)) lj) s =
       ((if sp then lj_after old k (length (gen_opc_buf s)) Ls lj else lj), s') \<and>
     loop_result P D blk s s' Ls \<and>
     gen_opc_meta s' = (if sp then meta_after old k (length (gen_opc_buf s)) Ls (gen_opc_meta s)
       else gen_opc_meta s)"
proof (induction blk arbitrary: D k lj s "is")
  case Nil
  then show ?case
    by (intro exI [of _ s] exI [of _ "[]"])
      (auto simp: loop_ok_def loop_result_def gen_simps results_def emits_def block_sound_def)
next
  case (Cons i blk)
  obtain ins d where i: "sound_insn i = Some (ins, d)" "set ins \<subseteq> set D" "sound_block (d # D) blk"
    using Cons.prems by (auto simp: loop_ok_def split: option.splits)
  have res: "results (i # blk) = d # results blk" by (simp add: results_def i(1))
  let ?m = "meta_step sp old k s"
  let ?n = "op_arg_counts (fst i) (snd i)"
  let ?s1 = "snd (run_state (taint_insn (fst i) ?n (snd i)) ?m)"
  have rule: "rule_sound P ?m i ins d ?s1"
    using Cons.prems i(2) unfolding loop_ok_def res
    by (intro taint_insn_sound [OF i(1)]) (auto simp: insn_ok_def)
  then have s1: "wf_gen ?s1" "shadow_sep P ?s1" "grows s ?s1" "nb_temps ?s1 \<le> nb_temps s + 8"
    "shadow_arg ?s1 d \<noteq> 0" and m1: "gen_opc_meta ?s1 = gen_opc_meta ?m"
    by (simp_all add: rule_sound_def)
  have pre: "wf_gen ?m" "shadow_sep P ?m" "\<forall>x\<in>set D. x \<in> P \<and> shadow_arg ?m x \<noteq> 0" "d \<in> P"
    using Cons.prems unfolding loop_ok_def res by auto
  obtain L where L: "L \<noteq> []" "emits s ?s1 L" "block_sound P D (d # D) [i] ?m ?s1 L"
    using rule_block_sound [OF rule i(1) pre(1-3) i(2) pre(4)] by auto
  have L3: "block_sound P D (d # D) [i] s ?s1 L"
    using L(3) by (simp add: block_sound_def covers_def)
  have h: "holds_code ?s1 (is @ L)" using L(2) Cons.prems(2) by (simp add: emits_def)
  have "loop_ok P (d # D) blk ?s1"
    using Cons.prems s1 i(3) grows_shadow [OF s1(3)] can_shadow_grows [OF _ s1(3)]
    unfolding loop_ok_def res by auto
  from Cons.IH [OF this h, of "Suc k" "meta_lj sp old k lj s"] obtain s' Ls where IH:
    "run_state (taint_loop sp old (Suc k) (map fst blk) (concat (map snd blk))
       (meta_lj sp old k lj s)) ?s1 =
     ((if sp then lj_after old (Suc k) (length (gen_opc_buf ?s1)) Ls (meta_lj sp old k lj s)
       else meta_lj sp old k lj s), s')"
    "loop_result P (d # D) blk ?s1 s' Ls"
    "gen_opc_meta s' = (if sp
       then meta_after old (Suc k) (length (gen_opc_buf ?s1)) Ls (gen_opc_meta ?s1)
       else gen_opc_meta ?s1)"
    by blast
  have len: "length (gen_opc_buf ?s1) = length (gen_opc_buf s) + length L"
    by (rule emits_length [OF L(2) Cons.prems(2)])
  show ?case
  proof (intro exI conjI)
    show "loop_result P D (i # blk) s s' (L # Ls)"
      by (rule loop_result_Cons [OF i(1) s1(3-5) L(1,2) L3 IH(2)])
    show "run_state (taint_loop sp old k (map fst (i # blk)) (concat (map snd (i # blk))) lj) s =
       ((if sp then lj_after old k (length (gen_opc_buf s)) (L # Ls) lj else lj), s')"
      using run_taint_loop_Cons [OF sound_insn_wf [OF i(1)], of sp old k _ _ lj s] IH(1) len
      by (cases sp) (simp_all add: meta_lj_def del: op_arg_counts.simps taint_loop.simps)
    show "gen_opc_meta s' = (if sp
        then meta_after old k (length (gen_opc_buf s)) (L # Ls) (gen_opc_meta s)
        else gen_opc_meta s)"
      unfolding IH(3) len m1 by (simp add: meta_step_def)
  qed
qed

section \<open>The whole routine\<close>

lemma wf_gen_buffers [simp]:
  "wf_gen (gen_opc_buf_update f s) = wf_gen s"
  "wf_gen (gen_opparam_buf_update g s) = wf_gen s"
  "wf_gen (gen_opc_meta_update h s) = wf_gen s"
  "wf_gen (taint_log_temps_update l s) = wf_gen s"
  by (simp_all add: wf_gen_def no_free_temps_def)

lemma no_free_temps_buffers [simp]:
  "no_free_temps (gen_opc_buf_update f s) = no_free_temps s"
  "no_free_temps (gen_opparam_buf_update g s) = no_free_temps s"
  "no_free_temps (gen_opc_meta_update h s) = no_free_temps s"
  by (simp_all add: no_free_temps_def)

lemma shadow_sep_buffers [simp]:
  "shadow_sep P (gen_opc_buf_update f s) = shadow_sep P s"
  "shadow_sep P (gen_opparam_buf_update g s) = shadow_sep P s"
  "shadow_sep P (gen_opc_meta_update h s) = shadow_sep P s"
  "shadow_sep P (taint_log_temps_update l s) = shadow_sep P s"
  by (simp_all add: shadow_sep_def)

fun new_temps :: "nat \<Rightarrow> gen_state \<Rightarrow> gen_state" where
  "new_temps 0 s = s"
| "new_temps (Suc n) s = new_temps n (new_temp TCG_TYPE_I64 False s)"

lemma new_temps_fields [simp]:
  "nb_globals (new_temps n s) = nb_globals s"
  "nb_temps (new_temps n s) = nb_temps s + n"
  "shadow_arg (new_temps n s) = shadow_arg s"
  "gen_opc_buf (new_temps n s) = gen_opc_buf s"
  "gen_opparam_buf (new_temps n s) = gen_opparam_buf s"
  "gen_opc_meta (new_temps n s) = gen_opc_meta s"
  by (induction n arbitrary: s) simp_all

lemma run_alloc_log_temps:
  assumes "no_free_temps s" "nb_temps s + n \<le> TCG_MAX_TEMPS"
  shows "snd (run_state (alloc_log_temps n) s) = new_temps n s"
  using assms
  by (induction n arbitrary: s) (simp_all add: gen_simps case_prod_beta)

lemma wf_gen_new_temps:
  "wf_gen s \<Longrightarrow> nb_temps s + n \<le> TCG_MAX_TEMPS \<Longrightarrow> wf_gen (new_temps n s)"
  by (induction n arbitrary: s) (simp_all add: wf_gen_new_temp)

lemma shadow_sep_new_temps: "shadow_sep P s \<Longrightarrow> shadow_sep P (new_temps n s)"
  by (induction n arbitrary: s) (simp_all add: shadow_sep_new_temp)

text \<open>
  A block in the buffers: the operations before it, the block itself, the temporaries that are
  defined when it starts, and room for the new temporaries.
\<close>

definition block_ok :: "nat set \<Rightarrow> nat list \<Rightarrow> insn list \<Rightarrow> insn list \<Rightarrow> gen_state \<Rightarrow> bool" where
  "block_ok P D pre blk s \<longleftrightarrow> wf_gen s \<and> shadow_sep P s \<and> holds_code s (pre @ blk) \<and>
     gen_old_opc_ptr s = length pre \<and> gen_old_opparam_ptr s = length (concat (map snd pre)) \<and>
     (\<forall>x\<in>set D. x \<in> P \<and> shadow_arg s x \<noteq> 0) \<and>
     (\<forall>x\<in>set (results blk). x \<in> P \<and> can_shadow s x) \<and>
     nb_temps s + MAX_TAINT_LOG_TEMPS + 8 * length blk \<le> TCG_MAX_TEMPS \<and> sound_block D blk"

text \<open>The state in which the loop starts.\<close>

definition loop_start :: "bool \<Rightarrow> insn list \<Rightarrow> gen_state \<Rightarrow> gen_state" where
  "loop_start sp pre s =
     (let s1 = s\<lparr>gen_opc_meta := (\<lambda>i. if sp \<and> length pre \<le> i
                then (gen_opc_meta s i)\<lparr>opc_instr_start := False\<rparr> else gen_opc_meta s i),
            gen_opc_buf := map fst pre, gen_opparam_buf := concat (map snd pre)\<rparr>
      in (new_temps MAX_TAINT_LOG_TEMPS s1)
           \<lparr>taint_log_temps := fst (run_state (alloc_log_temps MAX_TAINT_LOG_TEMPS) s1)\<rparr>)"

lemma loop_start_fields [simp]:
  "nb_globals (loop_start sp pre s) = nb_globals s"
  "nb_temps (loop_start sp pre s) = nb_temps s + MAX_TAINT_LOG_TEMPS"
  "shadow_arg (loop_start sp pre s) = shadow_arg s"
  "gen_opc_buf (loop_start sp pre s) = map fst pre"
  "gen_opparam_buf (loop_start sp pre s) = concat (map snd pre)"
  "gen_opc_meta (loop_start sp pre s) = (\<lambda>i. if sp \<and> length pre \<le> i
     then (gen_opc_meta s i)\<lparr>opc_instr_start := False\<rparr> else gen_opc_meta s i)"
  by (simp_all add: loop_start_def Let_def)

lemma loop_start_ok:
  assumes "block_ok P D pre blk s"
  shows "loop_ok P D blk (loop_start sp pre s)" "holds_code (loop_start sp pre s) pre"
    "grows s (loop_start sp pre s)"
proof -
  have w: "wf_gen (loop_start sp pre s)" "shadow_sep P (loop_start sp pre s)"
    using assms unfolding block_ok_def loop_start_def Let_def
    by (simp_all add: wf_gen_new_temps shadow_sep_new_temps)
  show "loop_ok P D blk (loop_start sp pre s)"
    using assms w by (simp add: block_ok_def loop_ok_def can_shadow_def)
  show "holds_code (loop_start sp pre s) pre"
    using assms by (simp add: block_ok_def holds_code_def)
  show "grows s (loop_start sp pre s)"
    by (simp add: grows_def)
qed

lemma run_gen_taintcheck_insn:
  assumes "block_ok P D pre blk s"
  shows "run_state (gen_taintcheck_insn sp) s =
    run_state (taint_loop sp (\<lambda>i. gen_opc_meta s (length pre + i)) 0 (map fst blk)
      (concat (map snd blk)) (- 1)) (loop_start sp pre s)"
proof -
  have b: "gen_opc_buf s = map fst pre @ map fst blk"
    "gen_opparam_buf s = concat (map snd pre) @ concat (map snd blk)"
    "gen_old_opc_ptr s = length pre" "gen_old_opparam_ptr s = length (concat (map snd pre))"
    and w: "wf_gen s" "nb_temps s + MAX_TAINT_LOG_TEMPS \<le> TCG_MAX_TEMPS"
    using assms by (simp_all add: block_ok_def holds_code_def)
  show ?thesis
    by (cases sp) (simp_all add: gen_taintcheck_insn_def gen_simps Let_def b loop_start_def
        case_prod_beta run_alloc_log_temps w(2) wf_genD(1) [OF w(1)])
qed

definition instrumented :: "bool \<Rightarrow> gen_state \<Rightarrow> insn list" where
  "instrumented search_pc s =
     (let s' = snd (run_state (gen_taintcheck_insn search_pc) s)
      in drop (gen_old_opc_ptr s) (decode (gen_opc_buf s') (gen_opparam_buf s')))"

lemma gen_taintcheck_insn_ok:
  assumes ok: "block_ok P D pre blk s"
    and s': "s' = snd (run_state (gen_taintcheck_insn sp) s)"
  obtains Ls where "wf_gen s'" "shadow_sep P s'" "grows s s'"
    "nb_temps s' \<le> nb_temps s + MAX_TAINT_LOG_TEMPS + 8 * length blk"
    "\<forall>x\<in>set (results blk). shadow_arg s' x \<noteq> 0"
    "length Ls = length blk" "[] \<notin> set Ls" "holds_code s' (pre @ concat Ls)"
    "instrumented sp s = concat Ls"
    "block_sound P D (rev (results blk) @ D) blk s s' (concat Ls)"
    "\<forall>j. prog_eq P (take j blk) (concat (take j Ls))"
    "sp \<Longrightarrow> gen_opc_meta s' = meta_after (\<lambda>i. gen_opc_meta s (length pre + i)) 0 (length pre) Ls
       (gen_opc_meta (loop_start True pre s))"
    "fst (run_state (gen_taintcheck_insn sp) s) = (if sp
       then lj_after (\<lambda>i. gen_opc_meta s (length pre + i)) 0 (length pre) Ls (- 1) else - 1)"
proof -
  let ?old = "\<lambda>i. gen_opc_meta s (length pre + i)"
  let ?s0 = "loop_start sp pre s"
  note run = run_gen_taintcheck_insn [OF ok, of sp]
  obtain t Ls where L: "run_state (taint_loop sp ?old 0 (map fst blk) (concat (map snd blk)) (- 1)) ?s0
      = ((if sp then lj_after ?old 0 (length (gen_opc_buf ?s0)) Ls (- 1) else - 1), t)"
    and res: "loop_result P D blk ?s0 t Ls"
    and meta: "gen_opc_meta t = (if sp
       then meta_after ?old 0 (length (gen_opc_buf ?s0)) Ls (gen_opc_meta ?s0) else gen_opc_meta ?s0)"
    using taint_loop_sound [OF loop_start_ok(1,2) [OF ok]] by blast
  have t: "s' = t" using s' run L by simp
  have h: "holds_code t (pre @ concat Ls)"
    using res loop_start_ok(2) [OF ok] by (simp add: loop_result_def emits_def)
  have i: "instrumented sp s = concat Ls"
    using ok by (simp add: instrumented_def Let_def run L holds_code_decode [OF h] block_ok_def)
  have b: "block_sound P D (rev (results blk) @ D) blk s t (concat Ls)"
    using res by (simp add: loop_result_def block_sound_def covers_def)
  have g: "grows s t"
    using res grows_trans [OF loop_start_ok(3) [OF ok]] unfolding loop_result_def by blast
  show thesis
    using res h i b meta g
    by (intro that [of Ls, unfolded t]) (simp_all add: loop_result_def run L)
qed

section \<open>Restart metadata\<close>







section \<open>An example block\<close>

text \<open>\<open>t = eax; eax = t + ecx; cc_src = eax ^ t\<close>.\<close>

definition example_block :: "insn list" where
  "example_block = [(INDEX_op_mov_i32, [27, 9]), (INDEX_op_add_i32, [9, 27, 10]),
     (INDEX_op_xor_i32, [2, 9, 27])]"

lemma example_results: "results example_block = [27, 9, 2]"
  by (simp add: results_def example_block_def)

lemma example_block_ok:
  "block_ok (insert 27 i386_program) [9, 10] [] example_block (example_gen example_block)"
  unfolding block_ok_def example_results
  using example_wf [of example_block]
  by (auto simp: example_holds example_block_def i386_program_def i386_shadow_def can_shadow_def
      MAX_TAINT_LOG_TEMPS_def TCG_MAX_TEMPS_def)

lemma example_exec:
  "exec_code example_block r = Some (r(27 := ucast (ucast (r 9) :: u32),
     9 := ucast (ucast (r 9) + ucast (r 10) :: u32),
     2 := ucast ((ucast (r 9) + ucast (r 10)) XOR ucast (r 9) :: u32)))"
  by (simp add: example_block_def exec_rules)

section \<open>What the instrumentation guarantees\<close>



text \<open>
  C1.  The taint that the instrumented block computes is sound.  Take a second run of the block
  whose inputs differ from those of the first only in bits that the shadows mark as tainted; then
  every temporary of the block ends with values that differ only in bits that its shadow marks as
  tainted after the first, instrumented run.
\<close>

theorem gen_taintcheck_insn_noninterference:
  assumes "block_ok P D pre blk s" "exec_code blk r = Some ro" "exec_code blk r2 = Some ro2"
    and "covers D s r r r2"
  shows "\<exists>r'. exec_code (instrumented search_pc s) r = Some r' \<and>
    covers (rev (results blk) @ D) (snd (run_state (gen_taintcheck_insn search_pc) s)) r' ro ro2"
proof -
  obtain Ls where L: "instrumented search_pc s = concat Ls"
    "block_sound P D (rev (results blk) @ D) blk s (snd (run_state (gen_taintcheck_insn search_pc) s))
       (concat Ls)"
    by (rule gen_taintcheck_insn_ok [OF assms(1) refl, of search_pc]) (rule that; assumption)
  show ?thesis
    unfolding L(1)
    by (rule block_soundD [OF L(2) _ assms(2), of r]) (use assms(3,4) in blast)+
qed

theorem gen_taintcheck_insn_noninterference_witness:
  "\<exists>r'. exec_code (instrumented False (example_gen example_block)) ((\<lambda>_. 3)(17 := 1, 18 := 0)) = Some r' \<and>
     agree (r' (shadow_arg (snd (run_state (gen_taintcheck_insn False) (example_gen example_block))) 9)) 6 5"
  using gen_taintcheck_insn_noninterference [OF example_block_ok example_exec example_exec,
      of "(\<lambda>_. 3)(17 := 1, 18 := 0)" "(\<lambda>_. 3)(9 := 2)" False]
  by (auto simp: covers_def i386_shadow_def example_results agree_def)





section \<open>Rules without soundness\<close>











end
