(* ===== verification/Counting_Table.thy ===== *)
theory Counting_Table
  imports Decaf_Prelude "HOL-Library.Multiset"
begin

text \<open>
  The hash containers of shared/utils/HashtableWrapper.cpp: sets and maps of addresses, and tables
  that count how often an address, or a pair of addresses, is registered.  A null table is \<open>None\<close>.
  The locale states what the callback registry relies on and relates a counting table to the
  multiset of registrations; it is interpreted for the table and for the two-level map.
\<close>

definition NULL_POINTER_ERROR :: int where
  "NULL_POINTER_ERROR = - 101"

section \<open>Sets and maps\<close>

type_synonym uset = "u32 set"
type_synonym umap = "u32 \<rightharpoonup> uset"

definition Hashtable_new :: "uset option" where
  "Hashtable_new = Some {}"

definition Hashtable_add :: "uset option \<Rightarrow> u32 \<Rightarrow> int \<times> uset option" where
  "Hashtable_add pHash item = (case pHash of
     None \<Rightarrow> (NULL_POINTER_ERROR, None)
   | Some t \<Rightarrow> (if item \<notin> t then 1 else 0, Some (insert item t)))"

definition Hashtable_remove :: "uset option \<Rightarrow> u32 \<Rightarrow> int \<times> uset option" where
  "Hashtable_remove pHash item = (case pHash of
     None \<Rightarrow> (NULL_POINTER_ERROR, None)
   | Some t \<Rightarrow> (1, Some (t - {item})))"

definition Hashtable_exist :: "uset option \<Rightarrow> u32 \<Rightarrow> bool" where
  "Hashtable_exist pHash item = (case pHash of None \<Rightarrow> False | Some t \<Rightarrow> item \<in> t)"

text \<open>\<open>operator[]\<close> of the C++ map creates an empty entry for a new key.\<close>

definition bracket :: "'v \<Rightarrow> (u32 \<rightharpoonup> 'v) \<Rightarrow> u32 \<Rightarrow> 'v" where
  "bracket z m key = (case m key of None \<Rightarrow> z | Some v \<Rightarrow> v)"

definition Hashmap_new :: "umap option" where
  "Hashmap_new = Some Map.empty"

definition Hashmap_add :: "umap option \<Rightarrow> u32 \<Rightarrow> u32 \<Rightarrow> int \<times> umap option" where
  "Hashmap_add pMap key val = (case pMap of
     None \<Rightarrow> (NULL_POINTER_ERROR, None)
   | Some m \<Rightarrow> (let t = bracket {} m key
       in (if val \<notin> t then 1 else 0, Some (m(key \<mapsto> insert val t)))))"

definition Hashmap_remove :: "umap option \<Rightarrow> u32 \<Rightarrow> u32 \<Rightarrow> int \<times> umap option" where
  "Hashmap_remove pMap key val = (case pMap of
     None \<Rightarrow> (NULL_POINTER_ERROR, None)
   | Some m \<Rightarrow> (1, Some (m(key \<mapsto> bracket {} m key - {val}))))"

definition Hashmap_getHashtable :: "umap option \<Rightarrow> u32 \<Rightarrow> uset option" where
  "Hashmap_getHashtable pMap key = (case pMap of None \<Rightarrow> None | Some m \<Rightarrow> m key)"

definition Hashmap_exist :: "umap option \<Rightarrow> u32 \<Rightarrow> u32 \<Rightarrow> bool" where
  "Hashmap_exist pMap from to = Hashtable_exist (Hashmap_getHashtable pMap from) to"

section \<open>Counting tables\<close>

type_synonym cset = "u32 \<rightharpoonup> u32"
type_synonym cmap = "u32 \<rightharpoonup> cset"

definition CountingHashtable_new :: "cset option" where
  "CountingHashtable_new = Some Map.empty"

definition CountingHashtable_add :: "cset option \<Rightarrow> u32 \<Rightarrow> u32 \<times> cset option" where
  "CountingHashtable_add pTable key = (case pTable of
     None \<Rightarrow> (0, None)
   | Some t \<Rightarrow>
       (let val = bracket 0 t key + 1;
            val' = (if t key = None then 1 else val)
        in (val', Some (t(key \<mapsto> val')))))"

definition CountingHashtable_remove :: "cset option \<Rightarrow> u32 \<Rightarrow> u32 \<times> cset option" where
  "CountingHashtable_remove pTable key = (case pTable of
     None \<Rightarrow> (0, None)
   | Some t \<Rightarrow>
       (let val = bracket 0 t key - 1;
            val' = (if t key = None then 0 else val)
        in (val', Some (t(key \<mapsto> val')))))"

definition CountingHashtable_exist :: "cset option \<Rightarrow> u32 \<Rightarrow> bool" where
  "CountingHashtable_exist pTable key = (case pTable of
     None \<Rightarrow> False
   | Some t \<Rightarrow> (case t key of None \<Rightarrow> False | Some v \<Rightarrow> v > 0))"

definition CountingHashtable_count :: "cset option \<Rightarrow> u32 \<Rightarrow> u32" where
  "CountingHashtable_count pTable key = (case pTable of
     None \<Rightarrow> 0
   | Some t \<Rightarrow> (case t key of None \<Rightarrow> 0 | Some v \<Rightarrow> v))"

definition CountingHashmap_new :: "cmap option" where
  "CountingHashmap_new = Some Map.empty"

definition CountingHashmap_add :: "cmap option \<Rightarrow> u32 \<Rightarrow> u32 \<Rightarrow> u32 \<times> cmap option" where
  "CountingHashmap_add pMap key val = (case pMap of
     None \<Rightarrow> (0, None)
   | Some m \<Rightarrow> (case CountingHashtable_add (Some (bracket Map.empty m key)) val of
       (n, t) \<Rightarrow> (n, Some (m(key := t)))))"

definition CountingHashmap_remove :: "cmap option \<Rightarrow> u32 \<Rightarrow> u32 \<Rightarrow> u32 \<times> cmap option" where
  "CountingHashmap_remove pMap key val = (case pMap of
     None \<Rightarrow> (0, None)
   | Some m \<Rightarrow> (case CountingHashtable_remove (Some (bracket Map.empty m key)) val of
       (n, t) \<Rightarrow> (n, Some (m(key := t)))))"

definition CountingHashmap_getCountingHashtable :: "cmap option \<Rightarrow> u32 \<Rightarrow> cset option" where
  "CountingHashmap_getCountingHashtable pMap key = (case pMap of None \<Rightarrow> None | Some m \<Rightarrow> m key)"

definition CountingHashmap_exist :: "cmap option \<Rightarrow> u32 \<Rightarrow> u32 \<Rightarrow> bool" where
  "CountingHashmap_exist pMap from to =
     CountingHashtable_exist (CountingHashmap_getCountingHashtable pMap from) to"

text \<open>Reading a count also creates the entry of a new first key; a null map yields the error.\<close>

definition CountingHashmap_count :: "cmap option \<Rightarrow> u32 \<Rightarrow> u32 \<Rightarrow> u32 \<times> cmap option" where
  "CountingHashmap_count pMap key val = (case pMap of
     None \<Rightarrow> (of_int NULL_POINTER_ERROR, None)
   | Some m \<Rightarrow> (CountingHashtable_count (Some (bracket Map.empty m key)) val,
       Some (m(key \<mapsto> bracket Map.empty m key))))"

section \<open>The contract\<close>

locale counting_table =
  fixes wf :: "'t \<Rightarrow> bool"
    and add :: "'t \<Rightarrow> 'k \<Rightarrow> u32 \<times> 't"
    and remove :: "'t \<Rightarrow> 'k \<Rightarrow> u32 \<times> 't"
    and exist :: "'t \<Rightarrow> 'k \<Rightarrow> bool"
    and cnt :: "'t \<Rightarrow> 'k \<Rightarrow> u32"
  assumes wf_add: "wf t \<Longrightarrow> wf (snd (add t k))"
    and wf_remove: "wf t \<Longrightarrow> wf (snd (remove t k))"
    and add_value: "wf t \<Longrightarrow> fst (add t k) = cnt t k + 1"
    and add_cnt: "wf t \<Longrightarrow> cnt (snd (add t k)) j = (if j = k then cnt t k + 1 else cnt t j)"
    and remove_value: "wf t \<Longrightarrow> cnt t k \<noteq> 0 \<Longrightarrow> fst (remove t k) = cnt t k - 1"
    and remove_cnt: "wf t \<Longrightarrow> cnt t k \<noteq> 0 \<Longrightarrow>
      cnt (snd (remove t k)) j = (if j = k then cnt t k - 1 else cnt t j)"
    and exist_cnt: "wf t \<Longrightarrow> exist t k \<longleftrightarrow> cnt t k \<noteq> 0"
begin

text \<open>The table represents the multiset of keys that are registered.\<close>

definition tracks :: "'t \<Rightarrow> 'k multiset \<Rightarrow> bool" where
  "tracks t M \<longleftrightarrow> wf t \<and> (\<forall>k. unat (cnt t k) = count M k)"

lemma tracks_exist: "tracks t M \<Longrightarrow> exist t k \<longleftrightarrow> k \<in># M"
  using exist_cnt unfolding tracks_def by (metis count_eq_zero_iff unat_eq_zero unat_0)

lemma tracks_add:
  assumes "tracks t M" "size M < 2 ^ 32 - 1"
  shows "tracks (snd (add t k)) (add_mset k M)" "fst (add t k) = 1 \<longleftrightarrow> k \<notin># M"
proof -
  have c: "unat (cnt t k) < 2 ^ 32 - 1"
    using assms count_le_size [of M k] unfolding tracks_def by (metis le_less_trans)
  then have u: "unat (cnt t k + 1) = unat (cnt t k) + 1"
    by (simp add: unat_word_ariths)
  then show "tracks (snd (add t k)) (add_mset k M)"
    using assms(1) unfolding tracks_def by (simp add: wf_add add_cnt)
  have "fst (add t k) = 1 \<longleftrightarrow> cnt t k = 0"
    using assms(1) unfolding tracks_def by (simp add: add_value)
  then have "fst (add t k) = 1 \<longleftrightarrow> unat (cnt t k) = 0"
    by (simp add: unat_eq_zero)
  then show "fst (add t k) = 1 \<longleftrightarrow> k \<notin># M"
    using assms(1) unfolding tracks_def by (simp add: not_in_iff)
qed

lemma tracks_remove:
  assumes "tracks t M" "k \<in># M"
  shows "tracks (snd (remove t k)) (M - {#k#})" "fst (remove t k) = 0 \<longleftrightarrow> k \<notin># M - {#k#}"
proof -
  have n: "unat (cnt t k) = count M k" "cnt t k \<noteq> 0"
    using assms unfolding tracks_def by (auto simp: unat_eq_zero [symmetric])
  then have u: "unat (cnt t k - 1) = count M k - 1"
    by (metis unat_minus_one)
  then show "tracks (snd (remove t k)) (M - {#k#})"
    using assms(1) n unfolding tracks_def by (simp add: wf_remove remove_cnt)
  have "fst (remove t k) = 0 \<longleftrightarrow> unat (cnt t k - 1) = 0"
    using assms(1) n unfolding tracks_def by (simp add: remove_value unat_eq_zero)
  then show "fst (remove t k) = 0 \<longleftrightarrow> k \<notin># M - {#k#}"
    using u by (simp add: not_in_iff)
qed

text \<open>An operation changes whether a key exists only for its own key, and its value tells.\<close>

lemma add_change:
  assumes "tracks t M" "size M < 2 ^ 32 - 1" "add t k = (n, t')"
  shows "tracks t' (add_mset k M)" "exist t' j \<noteq> exist t j \<Longrightarrow> j = k \<and> n = 1"
proof -
  have a: "tracks t' (add_mset k M)" "n = 1 \<longleftrightarrow> k \<notin># M"
    using tracks_add [OF assms(1,2), of k] assms(3) by simp_all
  then show "tracks t' (add_mset k M)" by simp
  show "exist t' j \<noteq> exist t j \<Longrightarrow> j = k \<and> n = 1"
    using a tracks_exist [OF assms(1), of j] tracks_exist [OF a(1), of j] by auto
qed

lemma remove_change:
  assumes "tracks t M" "k \<in># M" "remove t k = (n, t')"
  shows "tracks t' (M - {#k#})" "exist t' j \<noteq> exist t j \<Longrightarrow> j = k \<and> n = 0"
proof -
  have a: "tracks t' (M - {#k#})" "n = 0 \<longleftrightarrow> k \<notin># M - {#k#}"
    using tracks_remove [OF assms(1,2)] assms(3) by simp_all
  then show "tracks t' (M - {#k#})" by simp
  have "j \<noteq> k \<Longrightarrow> j \<in># M - {#k#} \<longleftrightarrow> j \<in># M" by (simp add: in_diff_count)
  then show "exist t' j \<noteq> exist t j \<Longrightarrow> j = k \<and> n = 0"
    using a assms(2) tracks_exist [OF assms(1), of j] tracks_exist [OF a(1), of j] by metis
qed

end

definition not_null :: "'a option \<Rightarrow> bool" where
  "not_null p \<longleftrightarrow> p \<noteq> None"

interpretation ctab: counting_table not_null CountingHashtable_add CountingHashtable_remove
    CountingHashtable_exist CountingHashtable_count
  by unfold_locales
    (auto simp: CountingHashtable_add_def CountingHashtable_remove_def CountingHashtable_exist_def
      CountingHashtable_count_def bracket_def Let_def word_gt_0 not_null_def split: option.splits)

text \<open>The two-level map is a counting table of pairs.\<close>

definition pair_count :: "cmap option \<Rightarrow> u32 \<times> u32 \<Rightarrow> u32" where
  "pair_count pMap p = fst (CountingHashmap_count pMap (fst p) (snd p))"

interpretation cmap: counting_table not_null
    "\<lambda>t p. CountingHashmap_add t (fst p) (snd p)" "\<lambda>t p. CountingHashmap_remove t (fst p) (snd p)"
    "\<lambda>t p. CountingHashmap_exist t (fst p) (snd p)" pair_count
  by unfold_locales
    (auto simp: CountingHashmap_add_def CountingHashmap_remove_def CountingHashmap_exist_def
      CountingHashmap_getCountingHashtable_def CountingHashmap_count_def pair_count_def
      CountingHashtable_add_def CountingHashtable_remove_def CountingHashtable_exist_def
      CountingHashtable_count_def bracket_def Let_def word_gt_0 not_null_def split: option.splits)

lemma tracks_new [simp]: "ctab.tracks CountingHashtable_new {#}" "cmap.tracks CountingHashmap_new {#}"
  by (simp_all add: ctab.tracks_def cmap.tracks_def CountingHashtable_new_def CountingHashmap_new_def
      CountingHashtable_count_def CountingHashmap_count_def pair_count_def bracket_def not_null_def)

section \<open>What the tables guarantee\<close>

text \<open>A run of registrations (\<open>True\<close>) and removals (\<open>False\<close>) of keys.\<close>

fun run_counts :: "(bool \<times> u32) list \<Rightarrow> cset option \<Rightarrow> cset option" where
  "run_counts [] t = t"
| "run_counts ((True, k) # ops) t = run_counts ops (snd (CountingHashtable_add t k))"
| "run_counts ((False, k) # ops) t = run_counts ops (snd (CountingHashtable_remove t k))"

fun balanced :: "(bool \<times> u32) list \<Rightarrow> u32 multiset \<Rightarrow> u32 multiset option" where
  "balanced [] M = Some M"
| "balanced ((True, k) # ops) M = balanced ops (add_mset k M)"
| "balanced ((False, k) # ops) M = (if k \<in># M then balanced ops (M - {#k#}) else None)"

lemma run_counts_tracks:
  "ctab.tracks t M \<Longrightarrow> balanced ops M = Some M' \<Longrightarrow> size M + length ops < 2 ^ 32 \<Longrightarrow>
     ctab.tracks (run_counts ops t) M'"
proof (induction ops M arbitrary: t rule: balanced.induct)
  case (2 k ops M)
  then show ?case using ctab.tracks_add(1) [of t M k] by simp
next
  case (3 k ops M)
  then show ?case
    using ctab.tracks_remove(1) [of t M k] size_Diff1_le [of M k] by (simp split: if_splits)
qed simp

text \<open>
  C19.  A counting table counts: after any sequence of registrations and removals in which nothing
  is removed that is not registered, and which is shorter than \<open>2 ^ 32\<close>, a key exists in the table
  exactly when it was registered more often than removed, and its count is the difference.
\<close>

theorem counting_table_counts:
  assumes "balanced ops {#} = Some M" "length ops < 2 ^ 32"
  shows "(CountingHashtable_exist (run_counts ops CountingHashtable_new) k \<longleftrightarrow> k \<in># M) \<and>
    unat (CountingHashtable_count (run_counts ops CountingHashtable_new) k) = count M k"
proof -
  have t: "ctab.tracks (run_counts ops CountingHashtable_new) M"
    using run_counts_tracks [OF tracks_new(1) assms(1)] assms(2) by simp
  then show ?thesis
    using ctab.tracks_exist [OF t] by (simp add: ctab.tracks_def)
qed

theorem counting_table_counts_witness:
  "CountingHashtable_exist
     (run_counts [(True, 5), (True, 7), (True, 5), (False, 5)] CountingHashtable_new) 5"
  using counting_table_counts [of "[(True, 5), (True, 7), (True, 5), (False, 5)]" "{#5, 7#}" 5]
  by (simp add: add_mset_commute)



end
