(* ===== verification/Callbacks.thy ===== *)
theory Callbacks
  imports Counting_Table
begin

text \<open>
  The callback registry of shared/DECAF_callback.c with the list of pending flushes of
  shared/DECAF_main.c.  Registration and removal keep, besides the lists of callbacks, the tables
  that the translator asks whether a block needs a callback, and queue a flush of the translated
  code that the change affects; at run time the helpers walk the lists and call what matches.

  A callback structure carries its address (\<open>cb_handle\<close>); the structure that \<open>g_malloc\<close> returns is
  an argument of the registration functions, with arbitrary contents.  The condition of a
  callback is a pointer into user memory.  The helpers return the calls they make, in order; the
  callbacks themselves are user code.
\<close>

section \<open>Data\<close>

datatype OCB_t = OCB_CONST | OCB_CONST_NOT | OCB_PAGE | OCB_PAGE_NOT | OCB_ALL

datatype DECAF_callback_type_t =
    DECAF_BLOCK_BEGIN_CB | DECAF_BLOCK_END_CB | DECAF_INSN_BEGIN_CB | DECAF_INSN_END_CB
  | DECAF_EIP_CHECK_CB | DECAF_KEYSTROKE_CB | DECAF_NIC_REC_CB | DECAF_NIC_SEND_CB
  | DECAF_OPCODE_RANGE_CB | DECAF_TLB_EXEC_CB | DECAF_READ_TAINTMEM_CB | DECAF_WRITE_TAINTMEM_CB
  | DECAF_MEM_READ_CB | DECAF_MEM_WRITE_CB | DECAF_BLOCK_TRANS_CB

datatype flush_type = PAGE_LEVEL | BLOCK_LEVEL | ALL_CACHE

record callback_struct =
  cb_handle :: nat
  enabled :: "nat option"
  cb_from :: u32
  cb_to :: u32
  ocb_type :: OCB_t
  callback :: nat

record flush_list =
  flush_head :: "(flush_type \<times> u32) list"
  flush_size :: nat

record cbstate =
  bEnableAllBlockBeginCallbacks :: bool
  enableAllBlockBeginCallbacksCount :: int
  bEnableAllBlockEndCallbacks :: bool
  enableAllBlockEndCallbacksCount :: int
  pOBBTable :: "cset option"
  pOBBPageTable :: "cset option"
  pOBEFromPageTable :: "cset option"
  pOBEToPageTable :: "cset option"
  pOBEPageMap :: "cmap option"
  callback_list_heads :: "DECAF_callback_type_t \<Rightarrow> callback_struct list"
  instructionCallbacks :: "nat \<Rightarrow> nat option"
  flush_list_internal :: flush_list

definition INV_ADDR :: u32 where
  "INV_ADDR = - 1"

text \<open>\<open>addr & TARGET_PAGE_MASK\<close>.\<close>

definition page_of :: "u32 \<Rightarrow> u32" where
  "page_of addr = addr AND NOT (mask 12)"

section \<open>Pending flushes\<close>

fun append_flush :: "(flush_type \<times> u32) list \<Rightarrow> flush_type \<times> u32 \<Rightarrow> (flush_type \<times> u32) list" where
  "append_flush [] x = [x]"
| "append_flush (temp # rest) x = temp # append_flush rest x"

definition flush_list_insert :: "flush_type \<Rightarrow> u32 \<Rightarrow> flush_list \<Rightarrow> flush_list" where
  "flush_list_insert type addr l =
     l\<lparr>flush_size := flush_size l + 1, flush_head := append_flush (flush_head l) (type, addr)\<rparr>"

definition DECAF_flushTranslationCache :: "flush_type \<Rightarrow> u32 \<Rightarrow> cbstate \<Rightarrow> cbstate" where
  "DECAF_flushTranslationCache type addr s =
     s\<lparr>flush_list_internal := flush_list_insert type addr (flush_list_internal s)\<rparr>"

text \<open>The flushes that are carried out, in order, and the emptied list.\<close>

definition DECAF_perform_flush :: "cbstate \<Rightarrow> (flush_type \<times> u32) list \<times> cbstate" where
  "DECAF_perform_flush s =
     (flush_head (flush_list_internal s),
      s\<lparr>flush_list_internal := \<lparr>flush_head = [], flush_size = 0\<rparr>\<rparr>)"

section \<open>Is a callback needed?\<close>

definition DECAF_is_callback_needed :: "DECAF_callback_type_t \<Rightarrow> cbstate \<Rightarrow> bool" where
  "DECAF_is_callback_needed cb_type s \<longleftrightarrow> callback_list_heads s cb_type \<noteq> []"

definition DECAF_is_callback_needed_for_opcode :: "nat \<Rightarrow> cbstate \<Rightarrow> bool" where
  "DECAF_is_callback_needed_for_opcode op s \<longleftrightarrow> op < 0x200 \<and> instructionCallbacks s op \<noteq> None"

definition DECAF_is_BlockBeginCallback_needed :: "u32 \<Rightarrow> cbstate \<Rightarrow> bool" where
  "DECAF_is_BlockBeginCallback_needed pc s \<longleftrightarrow>
     (if bEnableAllBlockBeginCallbacks s then True
      else if CountingHashtable_exist (pOBBPageTable s) (page_of pc) then True
      else if CountingHashtable_exist (pOBBTable s) pc then True
      else False)"

definition DECAF_is_BlockEndCallback_needed :: "u32 \<Rightarrow> u32 \<Rightarrow> cbstate \<Rightarrow> bool" where
  "DECAF_is_BlockEndCallback_needed from to s \<longleftrightarrow>
     (if bEnableAllBlockEndCallbacks s then True
      else if CountingHashtable_exist (pOBEFromPageTable s) (page_of from) then True
      else if to = INV_ADDR then False
      else if CountingHashtable_exist (pOBEToPageTable s) (page_of to) then True
      else CountingHashmap_exist (pOBEPageMap s) (page_of from) (page_of to))"

section \<open>Registration\<close>

definition LIST_INSERT_HEAD :: "DECAF_callback_type_t \<Rightarrow> callback_struct \<Rightarrow> cbstate \<Rightarrow> cbstate" where
  "LIST_INSERT_HEAD cb_type cb s =
     s\<lparr>callback_list_heads := (callback_list_heads s)(cb_type := cb # callback_list_heads s cb_type)\<rparr>"

definition DECAF_registerOptimizedBlockBeginCallback ::
    "callback_struct \<Rightarrow> nat \<Rightarrow> nat option \<Rightarrow> u32 \<Rightarrow> OCB_t \<Rightarrow> cbstate \<Rightarrow> nat option \<times> cbstate" where
  "DECAF_registerOptimizedBlockBeginCallback fresh cb_func cb_cond addr type0 s =
     (let type = (if type0 = OCB_CONST then OCB_ALL else type0);
          cb = fresh\<lparr>callback := cb_func, enabled := cb_cond, cb_from := addr, cb_to := INV_ADDR,
                     ocb_type := type\<rparr>;
          insert_it = (\<lambda>s. (Some (cb_handle cb), LIST_INSERT_HEAD DECAF_BLOCK_BEGIN_CB cb s))
      in case type of
        OCB_ALL \<Rightarrow>
          (let n = enableAllBlockBeginCallbacksCount s + 1;
               s1 = s\<lparr>bEnableAllBlockBeginCallbacks := True, enableAllBlockBeginCallbacksCount := n\<rparr>
           in insert_it (if n = 1 then DECAF_flushTranslationCache ALL_CACHE 0 s1 else s1))
      | OCB_CONST \<Rightarrow>
          (if pOBBTable s = None then (None, s)
           else case CountingHashtable_add (pOBBTable s) addr of (n, t) \<Rightarrow>
             (let s1 = s\<lparr>pOBBTable := t\<rparr>
              in insert_it (if n = 1 then DECAF_flushTranslationCache BLOCK_LEVEL addr s1 else s1)))
      | OCB_CONST_NOT \<Rightarrow> insert_it s
      | OCB_PAGE_NOT \<Rightarrow> insert_it s
      | OCB_PAGE \<Rightarrow>
          (let addr = page_of addr
           in if pOBBPageTable s = None then (None, s)
              else case CountingHashtable_add (pOBBPageTable s) addr of (n, t) \<Rightarrow>
                (let s1 = s\<lparr>pOBBPageTable := t\<rparr>
                 in insert_it (if n = 1 then DECAF_flushTranslationCache PAGE_LEVEL addr s1 else s1))))"

definition DECAF_registerOptimizedBlockEndCallback ::
    "callback_struct \<Rightarrow> nat \<Rightarrow> nat option \<Rightarrow> u32 \<Rightarrow> u32 \<Rightarrow> cbstate \<Rightarrow> nat option \<times> cbstate" where
  "DECAF_registerOptimizedBlockEndCallback fresh cb_func cb_cond from to s =
     (let cb = fresh\<lparr>callback := cb_func, enabled := cb_cond, cb_from := from, cb_to := to,
                     ocb_type := OCB_ALL\<rparr>;
          insert_it = (\<lambda>s. (Some (cb_handle cb), LIST_INSERT_HEAD DECAF_BLOCK_END_CB cb s))
      in if from = INV_ADDR \<and> to = INV_ADDR then
           (let n = enableAllBlockEndCallbacksCount s + 1;
                s1 = s\<lparr>bEnableAllBlockEndCallbacks := True, enableAllBlockEndCallbacksCount := n\<rparr>
            in insert_it (if n = 1 then DECAF_flushTranslationCache ALL_CACHE 0 s1 else s1))
         else if to = INV_ADDR then
           (if pOBEFromPageTable s = None then (None, s)
            else case CountingHashtable_add (pOBEFromPageTable s) (page_of from) of (n, t) \<Rightarrow>
              (let s1 = s\<lparr>pOBEFromPageTable := t\<rparr>
               in insert_it (if n = 1 then DECAF_flushTranslationCache PAGE_LEVEL from s1 else s1)))
         else if from = INV_ADDR then
           (if pOBEToPageTable s = None then (None, s)
            else case CountingHashtable_add (pOBEToPageTable s) (page_of to) of (n, t) \<Rightarrow>
              (let s1 = s\<lparr>pOBEToPageTable := t\<rparr>
               in insert_it (if n = 1 then DECAF_flushTranslationCache ALL_CACHE 0 s1 else s1)))
         else
           (if pOBEPageMap s = None then (None, s)
            else case CountingHashmap_add (pOBEPageMap s) (page_of from) (page_of to) of (n, t) \<Rightarrow>
              (let s1 = s\<lparr>pOBEPageMap := t\<rparr>
               in insert_it (if n = 1 then DECAF_flushTranslationCache PAGE_LEVEL from s1 else s1))))"

text \<open>
  Opcode ranges.  Two-byte opcodes \<open>0x0fxx\<close> are stored at \<open>0x1xx\<close>; other values from \<open>0x200\<close> are
  not excluded, and the table has \<open>0x200\<close> entries: \<open>None\<close> stands for a write outside it.
\<close>

definition serialize_opcode :: "u16 \<Rightarrow> u16" where
  "serialize_opcode op = (if op \<ge> 0x0f00 then 0x100 OR (op AND 0xff) else op)"

definition DECAF_registerOpcodeRangeCallbacks ::
    "callback_struct \<Rightarrow> nat \<Rightarrow> nat option \<Rightarrow> u16 \<Rightarrow> u16 \<Rightarrow> cbstate \<Rightarrow> (nat option \<times> cbstate) option" where
  "DECAF_registerOpcodeRangeCallbacks fresh handler condition start_opcode end_opcode s =
     (if end_opcode < start_opcode then Some (None, s)
      else
        (let start = serialize_opcode start_opcode;
             end_op = serialize_opcode end_opcode;
             cb = fresh\<lparr>callback := handler, cb_from := ucast start, cb_to := ucast end_op,
                        enabled := condition\<rparr>
         in if start \<le> end_op \<and> unat end_op \<ge> 0x200 then None
            else Some (Some (cb_handle cb), DECAF_flushTranslationCache ALL_CACHE 0
              (LIST_INSERT_HEAD DECAF_OPCODE_RANGE_CB cb
                (s\<lparr>instructionCallbacks := (\<lambda>i. if unat start \<le> i \<and> i \<le> unat end_op
                     then Some (cb_handle cb) else instructionCallbacks s i)\<rparr>)))))"

definition DECAF_register_callback ::
    "callback_struct \<Rightarrow> DECAF_callback_type_t \<Rightarrow> nat \<Rightarrow> nat option \<Rightarrow> cbstate \<Rightarrow> nat option \<times> cbstate" where
  "DECAF_register_callback fresh cb_type cb_func cb_cond s =
     (if cb_type = DECAF_BLOCK_BEGIN_CB then
        DECAF_registerOptimizedBlockBeginCallback fresh cb_func cb_cond INV_ADDR OCB_ALL s
      else if cb_type = DECAF_BLOCK_END_CB then
        DECAF_registerOptimizedBlockEndCallback fresh cb_func cb_cond INV_ADDR INV_ADDR s
      else
        (let cb = fresh\<lparr>callback := cb_func, enabled := cb_cond\<rparr>;
             s1 = (if cb_type \<noteq> DECAF_TLB_EXEC_CB \<and> callback_list_heads s cb_type = []
                   then DECAF_flushTranslationCache ALL_CACHE 0 s else s)
         in (Some (cb_handle cb), LIST_INSERT_HEAD cb_type cb s1)))"

section \<open>Removal\<close>

definition find_handle :: "nat \<Rightarrow> callback_struct list \<Rightarrow> callback_struct option" where
  "find_handle h cbs = List.find (\<lambda>cb. cb_handle cb = h) cbs"

fun unlink :: "nat \<Rightarrow> callback_struct list \<Rightarrow> callback_struct list" where
  "unlink h [] = []"
| "unlink h (cb # cbs) = (if cb_handle cb = h then cbs else cb # unlink h cbs)"

definition LIST_REMOVE :: "DECAF_callback_type_t \<Rightarrow> nat \<Rightarrow> cbstate \<Rightarrow> cbstate" where
  "LIST_REMOVE cb_type h s =
     s\<lparr>callback_list_heads := (callback_list_heads s)(cb_type := unlink h (callback_list_heads s cb_type))\<rparr>"

definition DECAF_unregisterOptimizedBlockBeginCallback :: "nat \<Rightarrow> cbstate \<Rightarrow> int \<times> cbstate" where
  "DECAF_unregisterOptimizedBlockBeginCallback h s =
     (case find_handle h (callback_list_heads s DECAF_BLOCK_BEGIN_CB) of
        None \<Rightarrow> (- 1, s)
      | Some cb \<Rightarrow>
          (let remove_it = (\<lambda>s. (0, LIST_REMOVE DECAF_BLOCK_BEGIN_CB h s))
           in if ocb_type cb = OCB_CONST then
                (if pOBBTable s = None then (NULL_POINTER_ERROR, s)
                 else case CountingHashtable_remove (pOBBTable s) (cb_from cb) of (n, t) \<Rightarrow>
                   (let s1 = s\<lparr>pOBBTable := t\<rparr>
                    in remove_it (if n = 0
                         then DECAF_flushTranslationCache BLOCK_LEVEL (cb_from cb) s1 else s1)))
              else if ocb_type cb = OCB_PAGE then
                (if pOBBPageTable s = None then (NULL_POINTER_ERROR, s)
                 else case CountingHashtable_remove (pOBBPageTable s) (cb_from cb) of (n, t) \<Rightarrow>
                   (let s1 = s\<lparr>pOBBPageTable := t\<rparr>
                    in remove_it (if n = 0
                         then DECAF_flushTranslationCache PAGE_LEVEL (cb_from cb) s1 else s1)))
              else
                (let n = enableAllBlockBeginCallbacksCount s - 1;
                     s1 = s\<lparr>enableAllBlockBeginCallbacksCount := n\<rparr>
                 in remove_it (if n = 0
                      then DECAF_flushTranslationCache ALL_CACHE 0
                        (s1\<lparr>bEnableAllBlockBeginCallbacks := False\<rparr>)
                      else if n < 0 then s1\<lparr>enableAllBlockBeginCallbacksCount := 0\<rparr>
                      else s1))))"

definition DECAF_unregisterOptimizedBlockEndCallback :: "nat \<Rightarrow> cbstate \<Rightarrow> int \<times> cbstate" where
  "DECAF_unregisterOptimizedBlockEndCallback h s =
     (case find_handle h (callback_list_heads s DECAF_BLOCK_END_CB) of
        None \<Rightarrow> (- 1, s)
      | Some cb \<Rightarrow>
          (let remove_it = (\<lambda>s. (0, LIST_REMOVE DECAF_BLOCK_END_CB h s))
           in if cb_from cb = INV_ADDR \<and> cb_to cb = INV_ADDR then
                (let n = enableAllBlockEndCallbacksCount s - 1;
                     s1 = s\<lparr>enableAllBlockEndCallbacksCount := n\<rparr>
                 in remove_it (if n = 0
                      then (DECAF_flushTranslationCache ALL_CACHE 0 s1)\<lparr>bEnableAllBlockEndCallbacks := False\<rparr>
                      else if n < 0 then s1\<lparr>enableAllBlockEndCallbacksCount := 0\<rparr>
                      else s1))
              else if cb_to cb = INV_ADDR then
                (case CountingHashtable_remove (pOBEFromPageTable s) (page_of (cb_from cb)) of (n, t) \<Rightarrow>
                   (let s1 = s\<lparr>pOBEFromPageTable := t\<rparr>
                    in remove_it (if n = 0
                         then DECAF_flushTranslationCache PAGE_LEVEL (page_of (cb_from cb)) s1 else s1)))
              else if cb_from cb = INV_ADDR then
                (case CountingHashtable_remove (pOBEToPageTable s) (page_of (cb_to cb)) of (n, t) \<Rightarrow>
                   (let s1 = s\<lparr>pOBEToPageTable := t\<rparr>
                    in remove_it (if n = 0 then DECAF_flushTranslationCache ALL_CACHE 0 s1 else s1)))
              else
                (case CountingHashmap_remove (pOBEPageMap s) (page_of (cb_from cb)) (page_of (cb_to cb)) of
                   (n, t) \<Rightarrow>
                   (let s1 = s\<lparr>pOBEPageMap := t\<rparr>
                    in remove_it (if n = 0
                         then DECAF_flushTranslationCache PAGE_LEVEL (page_of (cb_from cb)) s1 else s1)))))"

definition DECAF_unregisterOpcodeRangeCallbacks :: "nat \<Rightarrow> cbstate \<Rightarrow> int \<times> cbstate" where
  "DECAF_unregisterOpcodeRangeCallbacks h s =
     (case find_handle h (callback_list_heads s DECAF_OPCODE_RANGE_CB) of
        None \<Rightarrow> (- 1, s)
      | Some cb \<Rightarrow>
          (if cb_from cb > 0x1ff \<or> cb_to cb > 0x1ff \<or> cb_from cb > cb_to cb then (- 1, s)
           else (0, LIST_REMOVE DECAF_OPCODE_RANGE_CB h
             (s\<lparr>instructionCallbacks := (\<lambda>i. if unat (cb_from cb) \<le> i \<and> i \<le> unat (cb_to cb)
                  then None else instructionCallbacks s i)\<rparr>))))"

definition DECAF_unregister_callback :: "DECAF_callback_type_t \<Rightarrow> nat \<Rightarrow> cbstate \<Rightarrow> int \<times> cbstate" where
  "DECAF_unregister_callback cb_type h s =
     (if cb_type = DECAF_BLOCK_BEGIN_CB then DECAF_unregisterOptimizedBlockBeginCallback h s
      else if cb_type = DECAF_BLOCK_END_CB then DECAF_unregisterOptimizedBlockEndCallback h s
      else case find_handle h (callback_list_heads s cb_type) of
        None \<Rightarrow> (- 1, s)
      | Some cb \<Rightarrow>
          (let s1 = LIST_REMOVE cb_type h s
           in (0, if cb_type \<noteq> DECAF_TLB_EXEC_CB \<and> callback_list_heads s1 cb_type = []
                  then DECAF_flushTranslationCache ALL_CACHE 0 s1 else s1)))"

definition DECAF_callback_init :: "cbstate \<Rightarrow> cbstate" where
  "DECAF_callback_init s = s\<lparr>callback_list_heads := (\<lambda>_. []),
     pOBBTable := CountingHashtable_new, pOBBPageTable := CountingHashtable_new,
     pOBEFromPageTable := CountingHashtable_new, pOBEToPageTable := CountingHashtable_new,
     pOBEPageMap := CountingHashmap_new,
     bEnableAllBlockBeginCallbacks := False, enableAllBlockBeginCallbacksCount := 0,
     bEnableAllBlockEndCallbacks := False, enableAllBlockEndCallbacksCount := 0\<rparr>"

section \<open>Dispatch\<close>

text \<open>
  A call: the function, the handle passed in \<open>params.cbhandle\<close> when the helper sets it, and the
  parameters.  Pointers to the CPU state, to translation blocks and to buffers are numbers, \<open>None\<close>
  the null pointer.
\<close>

datatype cb_params =
    params_bb nat nat
  | params_be nat "nat option" u32 u32
  | params_ib nat
  | params_ie nat
  | params_ec u32 u32 u32
  | params_ks int nat
  | params_nr nat int int int int
  | params_ns u32 int nat
  | params_op nat u32 u32 u32
  | params_tx nat u32
  | params_rt u32 u32 u32 nat
  | params_wt u32 u32 u32 nat
  | params_mr u32 u32 u64 nat
  | params_mw u32 u32 u64 nat
  | params_bt nat nat

type_synonym invocation = "nat \<times> nat option \<times> cb_params"

text \<open>\<open>!cb_struct->enabled || *cb_struct->enabled\<close>.\<close>

definition is_enabled :: "(nat \<Rightarrow> int) \<Rightarrow> callback_struct \<Rightarrow> bool" where
  "is_enabled mem cb \<longleftrightarrow> (case enabled cb of None \<Rightarrow> True | Some p \<Rightarrow> mem p \<noteq> 0)"

fun invoke_loop ::
    "(nat \<Rightarrow> int) \<Rightarrow> (callback_struct \<Rightarrow> bool) \<Rightarrow> cb_params \<Rightarrow> callback_struct list \<Rightarrow> invocation list" where
  "invoke_loop mem cond params [] = []"
| "invoke_loop mem cond params (cb # cbs) =
     (if is_enabled mem cb \<and> cond cb
      then (callback cb, Some (cb_handle cb), params) # invoke_loop mem cond params cbs
      else invoke_loop mem cond params cbs)"

definition invoke_all ::
    "DECAF_callback_type_t \<Rightarrow> cb_params \<Rightarrow> (nat \<Rightarrow> int) \<Rightarrow> cbstate \<Rightarrow> invocation list" where
  "invoke_all cb_type params mem s =
     invoke_loop mem (\<lambda>_. True) params (callback_list_heads s cb_type)"

definition block_begin_matches :: "u32 \<Rightarrow> callback_struct \<Rightarrow> bool" where
  "block_begin_matches pc cb = (case ocb_type cb of
     OCB_CONST \<Rightarrow> cb_from cb = pc
   | OCB_PAGE \<Rightarrow> page_of (cb_from cb) = page_of pc
   | _ \<Rightarrow> True)"

definition helper_DECAF_invoke_block_begin_callback ::
    "nat option \<Rightarrow> (nat \<times> u32) option \<Rightarrow> (nat \<Rightarrow> int) \<Rightarrow> cbstate \<Rightarrow> invocation list" where
  "helper_DECAF_invoke_block_begin_callback env tb mem s = (case (env, tb) of
     (Some e, Some (t, pc)) \<Rightarrow>
       invoke_loop mem (block_begin_matches pc) (params_bb e t)
         (callback_list_heads s DECAF_BLOCK_BEGIN_CB)
   | _ \<Rightarrow> [])"

definition block_end_matches :: "u32 \<Rightarrow> u32 \<Rightarrow> callback_struct \<Rightarrow> bool" where
  "block_end_matches cur_pc next_pc cb =
     (if cb_to cb = INV_ADDR then True
      else if page_of (cb_to cb) = page_of next_pc then
        (if cb_from cb = INV_ADDR then True
         else page_of (cb_from cb) = page_of cur_pc)
      else False)"

text \<open>\<open>env->eip\<close> and \<open>env->segs[R_CS].base\<close> come with the CPU state.\<close>

definition helper_DECAF_invoke_block_end_callback ::
    "(nat \<times> u32 \<times> u32) option \<Rightarrow> nat option \<Rightarrow> u32 \<Rightarrow> (nat \<Rightarrow> int) \<Rightarrow> cbstate \<Rightarrow> invocation list" where
  "helper_DECAF_invoke_block_end_callback env tb from mem s = (case env of
     None \<Rightarrow> []
   | Some (e, eip, cs_base) \<Rightarrow>
       (let next_pc = eip + cs_base
        in invoke_loop mem (block_end_matches from next_pc) (params_be e tb from next_pc)
             (callback_list_heads s DECAF_BLOCK_END_CB)))"

definition DECAF_invoke_tlb_exec_callback ::
    "nat option \<Rightarrow> u32 \<Rightarrow> (nat \<Rightarrow> int) \<Rightarrow> cbstate \<Rightarrow> invocation list" where
  "DECAF_invoke_tlb_exec_callback env vaddr mem s = (case env of
     None \<Rightarrow> []
   | Some e \<Rightarrow> (if vaddr = 0 then []
       else map (\<lambda>(f, h, p). (f, None, p)) (invoke_all DECAF_TLB_EXEC_CB (params_tx e vaddr) mem s)))"

definition helper_DECAF_invoke_insn_begin_callback ::
    "nat option \<Rightarrow> (nat \<Rightarrow> int) \<Rightarrow> cbstate \<Rightarrow> invocation list" where
  "helper_DECAF_invoke_insn_begin_callback env mem s = (case env of
     None \<Rightarrow> [] | Some e \<Rightarrow> invoke_all DECAF_INSN_BEGIN_CB (params_ib e) mem s)"

definition helper_DECAF_invoke_insn_end_callback ::
    "nat option \<Rightarrow> (nat \<Rightarrow> int) \<Rightarrow> cbstate \<Rightarrow> invocation list" where
  "helper_DECAF_invoke_insn_end_callback env mem s = (case env of
     None \<Rightarrow> [] | Some e \<Rightarrow> invoke_all DECAF_INSN_END_CB (params_ie e) mem s)"

definition helper_DECAF_invoke_eip_check_callback ::
    "u32 \<Rightarrow> u32 \<Rightarrow> u32 \<Rightarrow> (nat \<Rightarrow> int) \<Rightarrow> cbstate \<Rightarrow> invocation list" where
  "helper_DECAF_invoke_eip_check_callback source_eip target_eip target_eip_taint =
     invoke_all DECAF_EIP_CHECK_CB (params_ec source_eip target_eip target_eip_taint)"

definition helper_DECAF_invoke_keystroke_callback ::
    "int \<Rightarrow> nat \<Rightarrow> (nat \<Rightarrow> int) \<Rightarrow> cbstate \<Rightarrow> invocation list" where
  "helper_DECAF_invoke_keystroke_callback keycode taint_mark =
     invoke_all DECAF_KEYSTROKE_CB (params_ks keycode taint_mark)"

definition helper_DECAF_invoke_mem_read_callback ::
    "u32 \<Rightarrow> u32 \<Rightarrow> u64 \<Rightarrow> nat \<Rightarrow> (nat \<Rightarrow> int) \<Rightarrow> cbstate \<Rightarrow> invocation list" where
  "helper_DECAF_invoke_mem_read_callback virt_addr phy_addr val data_type =
     invoke_all DECAF_MEM_READ_CB (params_mr virt_addr phy_addr val data_type)"

definition helper_DECAF_invoke_mem_write_callback ::
    "u32 \<Rightarrow> u32 \<Rightarrow> u64 \<Rightarrow> nat \<Rightarrow> (nat \<Rightarrow> int) \<Rightarrow> cbstate \<Rightarrow> invocation list" where
  "helper_DECAF_invoke_mem_write_callback virt_addr phy_addr val data_type =
     invoke_all DECAF_MEM_WRITE_CB (params_mw virt_addr phy_addr val data_type)"

definition helper_DECAF_invoke_nic_rec_callback ::
    "nat \<Rightarrow> int \<Rightarrow> int \<Rightarrow> int \<Rightarrow> int \<Rightarrow> (nat \<Rightarrow> int) \<Rightarrow> cbstate \<Rightarrow> invocation list" where
  "helper_DECAF_invoke_nic_rec_callback buf nbytes cur_pos start stop =
     invoke_all DECAF_NIC_REC_CB (params_nr buf nbytes cur_pos start stop)"

definition helper_DECAF_invoke_nic_send_callback ::
    "u32 \<Rightarrow> int \<Rightarrow> nat \<Rightarrow> (nat \<Rightarrow> int) \<Rightarrow> cbstate \<Rightarrow> invocation list" where
  "helper_DECAF_invoke_nic_send_callback addr nbytes buf =
     invoke_all DECAF_NIC_SEND_CB (params_ns addr nbytes buf)"

definition helper_DECAF_invoke_read_taint_mem ::
    "u32 \<Rightarrow> u32 \<Rightarrow> u32 \<Rightarrow> nat \<Rightarrow> (nat \<Rightarrow> int) \<Rightarrow> cbstate \<Rightarrow> invocation list" where
  "helper_DECAF_invoke_read_taint_mem vaddr paddr nbytes taint_info =
     invoke_all DECAF_READ_TAINTMEM_CB (params_rt vaddr paddr nbytes taint_info)"

definition helper_DECAF_invoke_write_taint_mem ::
    "u32 \<Rightarrow> u32 \<Rightarrow> u32 \<Rightarrow> nat \<Rightarrow> (nat \<Rightarrow> int) \<Rightarrow> cbstate \<Rightarrow> invocation list" where
  "helper_DECAF_invoke_write_taint_mem vaddr paddr nbytes taint_info =
     invoke_all DECAF_WRITE_TAINTMEM_CB (params_wt vaddr paddr nbytes taint_info)"

definition helper_DECAF_invoke_block_trans_callback ::
    "nat \<Rightarrow> nat \<Rightarrow> (nat \<Rightarrow> int) \<Rightarrow> cbstate \<Rightarrow> invocation list" where
  "helper_DECAF_invoke_block_trans_callback tb tcg_ctx =
     invoke_all DECAF_BLOCK_TRANS_CB (params_bt tb tcg_ctx)"

text \<open>
  The helper of opcode ranges; \<open>None\<close> stands for undefined behaviour: an index outside the table, a
  pointer to a structure that has been freed, or a null condition, which is dereferenced.
\<close>

definition transition_bits :: "u32 \<Rightarrow> u32 \<Rightarrow> int" where
  "transition_bits eip next_eip =
     (let kernel_base = 0x80000000;
          from_kernel = eip > kernel_base;
          to_kernel = next_eip > kernel_base
      in if \<not> from_kernel \<and> \<not> to_kernel then 0x01
         else if \<not> from_kernel \<and> to_kernel then 0x02
         else if from_kernel \<and> \<not> to_kernel then 0x04
         else 0x08)"

definition helper_DECAF_invoke_opcode_range_callback ::
    "nat option \<Rightarrow> u32 \<Rightarrow> u32 \<Rightarrow> u32 \<Rightarrow> (nat \<Rightarrow> int) \<Rightarrow> cbstate \<Rightarrow> invocation list option" where
  "helper_DECAF_invoke_opcode_range_callback env eip next_eip op mem s =
     (if unat op \<ge> 0x200 then None
      else case instructionCallbacks s (unat op) of
        None \<Rightarrow> Some []
      | Some h \<Rightarrow> (case env of
          None \<Rightarrow> Some []
        | Some e \<Rightarrow> (case find_handle h (callback_list_heads s DECAF_OPCODE_RANGE_CB) of
            None \<Rightarrow> None
          | Some cb \<Rightarrow> (case enabled cb of
              None \<Rightarrow> None
            | Some p \<Rightarrow>
                (if mem p \<noteq> 0 \<and>
                    (transition_bits eip next_eip AND (if mem p = 0 then 1 else 0)) \<noteq> 0
                 then Some []
                 else Some [(callback cb, None, params_op e eip next_eip op)])))))"

lemma invoke_loop_eq:
  "invoke_loop mem cond params cbs =
     map (\<lambda>cb. (callback cb, Some (cb_handle cb), params)) (filter (\<lambda>cb. is_enabled mem cb \<and> cond cb) cbs)"
  by (induction cbs) simp_all

end
