(* ===== verification/Callback_Registry.thy ===== *)
theory Callback_Registry
  imports Callbacks
begin

text \<open>
  The invariant of the callback registry and what follows from it: the tables that the translator
  consults agree with the lists that the helpers walk, and every change of what the translator is
  told is accompanied by a flush of the code it affects.
\<close>

section \<open>Lists and flushes\<close>

lemma append_flush_eq [simp]: "append_flush l x = l @ [x]"
  by (induction l) simp_all

definition pending :: "cbstate \<Rightarrow> (flush_type \<times> u32) list" where
  "pending s = flush_head (flush_list_internal s)"

lemma pending_flush [simp]:
  "pending (DECAF_flushTranslationCache ty a s) = pending s @ [(ty, a)]"
  by (simp add: pending_def DECAF_flushTranslationCache_def flush_list_insert_def)

lemma pending_fields [simp]:
  "pending (LIST_INSERT_HEAD t cb s) = pending s"
  "pending (LIST_REMOVE t h s) = pending s"
  "pending (s\<lparr>pOBBTable := x1\<rparr>) = pending s"
  "pending (s\<lparr>pOBBPageTable := x2\<rparr>) = pending s"
  "pending (s\<lparr>pOBEFromPageTable := x3\<rparr>) = pending s"
  "pending (s\<lparr>pOBEToPageTable := x4\<rparr>) = pending s"
  "pending (s\<lparr>pOBEPageMap := x5\<rparr>) = pending s"
  "pending (s\<lparr>bEnableAllBlockBeginCallbacks := x6\<rparr>) = pending s"
  "pending (s\<lparr>enableAllBlockBeginCallbacksCount := x7\<rparr>) = pending s"
  "pending (s\<lparr>bEnableAllBlockEndCallbacks := x8\<rparr>) = pending s"
  "pending (s\<lparr>enableAllBlockEndCallbacksCount := x9\<rparr>) = pending s"
  "pending (s\<lparr>instructionCallbacks := x10\<rparr>) = pending s"
  by (simp_all add: pending_def LIST_INSERT_HEAD_def LIST_REMOVE_def)

lemma flush_fields [simp]:
  "bEnableAllBlockBeginCallbacks (DECAF_flushTranslationCache ty a s) = bEnableAllBlockBeginCallbacks s"
  "enableAllBlockBeginCallbacksCount (DECAF_flushTranslationCache ty a s) = enableAllBlockBeginCallbacksCount s"
  "bEnableAllBlockEndCallbacks (DECAF_flushTranslationCache ty a s) = bEnableAllBlockEndCallbacks s"
  "enableAllBlockEndCallbacksCount (DECAF_flushTranslationCache ty a s) = enableAllBlockEndCallbacksCount s"
  "pOBBTable (DECAF_flushTranslationCache ty a s) = pOBBTable s"
  "pOBBPageTable (DECAF_flushTranslationCache ty a s) = pOBBPageTable s"
  "pOBEFromPageTable (DECAF_flushTranslationCache ty a s) = pOBEFromPageTable s"
  "pOBEToPageTable (DECAF_flushTranslationCache ty a s) = pOBEToPageTable s"
  "pOBEPageMap (DECAF_flushTranslationCache ty a s) = pOBEPageMap s"
  "callback_list_heads (DECAF_flushTranslationCache ty a s) = callback_list_heads s"
  "instructionCallbacks (DECAF_flushTranslationCache ty a s) = instructionCallbacks s"
  by (simp_all add: DECAF_flushTranslationCache_def)

lemma list_op_fields [simp]:
  "bEnableAllBlockBeginCallbacks (LIST_INSERT_HEAD t cb s) = bEnableAllBlockBeginCallbacks s"
  "enableAllBlockBeginCallbacksCount (LIST_INSERT_HEAD t cb s) = enableAllBlockBeginCallbacksCount s"
  "bEnableAllBlockEndCallbacks (LIST_INSERT_HEAD t cb s) = bEnableAllBlockEndCallbacks s"
  "enableAllBlockEndCallbacksCount (LIST_INSERT_HEAD t cb s) = enableAllBlockEndCallbacksCount s"
  "pOBBTable (LIST_INSERT_HEAD t cb s) = pOBBTable s"
  "pOBBPageTable (LIST_INSERT_HEAD t cb s) = pOBBPageTable s"
  "pOBEFromPageTable (LIST_INSERT_HEAD t cb s) = pOBEFromPageTable s"
  "pOBEToPageTable (LIST_INSERT_HEAD t cb s) = pOBEToPageTable s"
  "pOBEPageMap (LIST_INSERT_HEAD t cb s) = pOBEPageMap s"
  "instructionCallbacks (LIST_INSERT_HEAD t cb s) = instructionCallbacks s"
  "callback_list_heads (LIST_INSERT_HEAD t cb s) t' =
     (if t' = t then cb # callback_list_heads s t else callback_list_heads s t')"
  "bEnableAllBlockBeginCallbacks (LIST_REMOVE t h s) = bEnableAllBlockBeginCallbacks s"
  "enableAllBlockBeginCallbacksCount (LIST_REMOVE t h s) = enableAllBlockBeginCallbacksCount s"
  "bEnableAllBlockEndCallbacks (LIST_REMOVE t h s) = bEnableAllBlockEndCallbacks s"
  "enableAllBlockEndCallbacksCount (LIST_REMOVE t h s) = enableAllBlockEndCallbacksCount s"
  "pOBBTable (LIST_REMOVE t h s) = pOBBTable s"
  "pOBBPageTable (LIST_REMOVE t h s) = pOBBPageTable s"
  "pOBEFromPageTable (LIST_REMOVE t h s) = pOBEFromPageTable s"
  "pOBEToPageTable (LIST_REMOVE t h s) = pOBEToPageTable s"
  "pOBEPageMap (LIST_REMOVE t h s) = pOBEPageMap s"
  "instructionCallbacks (LIST_REMOVE t h s) = instructionCallbacks s"
  "callback_list_heads (LIST_REMOVE t h s) t' =
     (if t' = t then unlink h (callback_list_heads s t) else callback_list_heads s t')"
  by (simp_all add: LIST_INSERT_HEAD_def LIST_REMOVE_def)

lemma find_handle_simps [simp]:
  "find_handle h [] = None"
  "find_handle h (cb # cbs) = (if cb_handle cb = h then Some cb else find_handle h cbs)"
  by (simp_all add: find_handle_def)

lemma find_handleE:
  assumes "find_handle h L = Some cb"
  obtains xs ys where "L = xs @ cb # ys" "unlink h L = xs @ ys" "cb_handle cb = h"
proof -
  have "find_handle h L = Some cb \<Longrightarrow>
      \<exists>xs ys. L = xs @ cb # ys \<and> unlink h L = xs @ ys \<and> cb_handle cb = h"
  proof (induction L)
    case (Cons c L)
    show ?case
    proof (cases "cb_handle c = h")
      case True
      with Cons.prems show ?thesis by (intro exI [of _ "[]"] exI [of _ L]) simp
    next
      case False
      with Cons obtain xs ys where "L = xs @ cb # ys" "unlink h L = xs @ ys" "cb_handle cb = h"
        by auto
      with False show ?thesis by (intro exI [of _ "c # xs"] exI [of _ ys]) simp
    qed
  qed simp
  with assms that show thesis by blast
qed

text \<open>The keys under which the callbacks of a list that satisfy a condition are registered.\<close>

definition keys :: "(callback_struct \<Rightarrow> bool) \<Rightarrow> (callback_struct \<Rightarrow> 'k) \<Rightarrow> callback_struct list \<Rightarrow>
    'k multiset" where
  "keys P f L = mset (map f (filter P L))"

lemma keys_simps [simp]:
  "keys P f [] = {#}"
  "keys P f (cb # L) = (if P cb then add_mset (f cb) (keys P f L) else keys P f L)"
  "keys P f (xs @ ys) = keys P f xs + keys P f ys"
  by (simp_all add: keys_def)

lemma in_keys: "k \<in># keys P f L \<longleftrightarrow> (\<exists>cb\<in>set L. P cb \<and> f cb = k)"
  by (induction L) auto

lemma size_keys: "size (keys P f L) \<le> length L"
  by (induction L) auto

section \<open>Block begin\<close>

definition begin_inv :: "cbstate \<Rightarrow> bool" where
  "begin_inv s \<longleftrightarrow> (let L = callback_list_heads s DECAF_BLOCK_BEGIN_CB in
     (\<forall>cb\<in>set L. ocb_type cb = OCB_ALL \<or> ocb_type cb = OCB_PAGE \<and> page_of (cb_from cb) = cb_from cb) \<and>
     enableAllBlockBeginCallbacksCount s = int (length (filter (\<lambda>cb. ocb_type cb = OCB_ALL) L)) \<and>
     (bEnableAllBlockBeginCallbacks s \<longleftrightarrow> 0 < enableAllBlockBeginCallbacksCount s) \<and>
     ctab.tracks (pOBBPageTable s) (keys (\<lambda>cb. ocb_type cb = OCB_PAGE) cb_from L) \<and>
     ctab.tracks (pOBBTable s) {#})"

lemma tracks_null: "ctab.tracks t M \<Longrightarrow> t \<noteq> None" "cmap.tracks m N \<Longrightarrow> m \<noteq> None"
  by (simp_all add: ctab.tracks_def cmap.tracks_def not_null_def)

lemma begin_needed:
  assumes "begin_inv s"
  shows "DECAF_is_BlockBeginCallback_needed pc s \<longleftrightarrow>
    (\<exists>cb\<in>set (callback_list_heads s DECAF_BLOCK_BEGIN_CB). block_begin_matches pc cb)"
proof -
  let ?L = "callback_list_heads s DECAF_BLOCK_BEGIN_CB"
  note inv = assms [unfolded begin_inv_def Let_def]
  have "bEnableAllBlockBeginCallbacks s \<longleftrightarrow> (\<exists>cb\<in>set ?L. ocb_type cb = OCB_ALL)"
    using inv by (auto simp: filter_empty_conv)
  moreover have "CountingHashtable_exist (pOBBPageTable s) (page_of pc) \<longleftrightarrow>
      (\<exists>cb\<in>set ?L. ocb_type cb = OCB_PAGE \<and> cb_from cb = page_of pc)"
    unfolding in_keys [symmetric] using inv by (intro ctab.tracks_exist) simp
  moreover have "\<not> CountingHashtable_exist (pOBBTable s) pc"
    using ctab.tracks_exist [of "pOBBTable s" "{#}"] inv by simp
  moreover have "block_begin_matches pc cb \<longleftrightarrow>
      ocb_type cb = OCB_ALL \<or> ocb_type cb = OCB_PAGE \<and> cb_from cb = page_of pc" if "cb \<in> set ?L" for cb
    using inv that by (auto simp: block_begin_matches_def)
  ultimately show ?thesis
    unfolding DECAF_is_BlockBeginCallback_needed_def by metis
qed

lemma page_of_idem [simp]: "page_of (page_of a) = page_of a"
  by (simp add: page_of_def)

definition flushes_block :: "u32 \<Rightarrow> flush_type \<times> u32 \<Rightarrow> bool" where
  "flushes_block pc f \<longleftrightarrow> (case f of
     (ALL_CACHE, a) \<Rightarrow> True
   | (PAGE_LEVEL, a) \<Rightarrow> page_of a = page_of pc
   | (BLOCK_LEVEL, a) \<Rightarrow> a = pc)"

text \<open>What the translator is told about a block changes only together with a flush of the block.\<close>

definition coherent :: "(cbstate \<Rightarrow> bool) \<Rightarrow> u32 \<Rightarrow> cbstate \<Rightarrow> cbstate \<Rightarrow> bool" where
  "coherent told pc s s' \<longleftrightarrow> (\<exists>fs. pending s' = pending s @ fs \<and>
     (told s \<noteq> told s' \<longrightarrow> (\<exists>f\<in>set fs. flushes_block pc f)))"

lemma coherentI:
  assumes "pending s' = pending s @ fs" "told s \<noteq> told s' \<Longrightarrow> \<exists>f\<in>set fs. flushes_block pc f"
  shows "coherent told pc s s'"
  using assms unfolding coherent_def by blast


lemma register_begin_ok:
  assumes "begin_inv s" "length (callback_list_heads s DECAF_BLOCK_BEGIN_CB) < 2 ^ 32 - 1"
    and ty: "ty \<in> {OCB_ALL, OCB_CONST, OCB_PAGE}" "ty = OCB_PAGE \<longrightarrow> page_of addr = addr"
    and s': "s' = snd (DECAF_registerOptimizedBlockBeginCallback fresh f c addr ty s)"
  shows "begin_inv s' \<and> coherent (DECAF_is_BlockBeginCallback_needed pc) pc s s'"
proof (cases "ty = OCB_PAGE")
  case False
  note inv = assms(1) [unfolded begin_inv_def Let_def]
  have i: "begin_inv s'"
    using inv ty False unfolding s' begin_inv_def
    by (auto simp: DECAF_registerOptimizedBlockBeginCallback_def Let_def)
  have "coherent (DECAF_is_BlockBeginCallback_needed pc) pc s s'"
    using inv ty False unfolding s' coherent_def
    by (auto simp: DECAF_registerOptimizedBlockBeginCallback_def Let_def flushes_block_def
        DECAF_is_BlockBeginCallback_needed_def)
  with i show ?thesis ..
next
  case True
  note inv = assms(1) [unfolded begin_inv_def Let_def]
  let ?L = "callback_list_heads s DECAF_BLOCK_BEGIN_CB"
  let ?M = "keys (\<lambda>cb. ocb_type cb = OCB_PAGE) cb_from ?L"
  have sz: "size ?M < 2 ^ 32 - 1"
    using assms(2) size_keys [of _ cb_from ?L] le_less_trans by blast
  have t: "ctab.tracks (pOBBPageTable s) ?M" using inv by simp
  obtain n t' where add: "CountingHashtable_add (pOBBPageTable s) addr = (n, t')" by fastforce
  note t' = ctab.add_change [OF t sz add]
  have a: "page_of addr = addr" using ty True by simp
  have i: "begin_inv s'"
    using inv t' a True unfolding s' begin_inv_def
    by (auto simp: DECAF_registerOptimizedBlockBeginCallback_def Let_def add tracks_null)
  have "coherent (DECAF_is_BlockBeginCallback_needed pc) pc s s'"
  proof (rule coherentI)
    show "pending s' = pending s @ (if n = 1 then [(PAGE_LEVEL, addr)] else [])"
      using tracks_null(1) [OF t] a True unfolding s'
      by (auto simp: DECAF_registerOptimizedBlockBeginCallback_def Let_def add)
    have "bEnableAllBlockBeginCallbacks s' = bEnableAllBlockBeginCallbacks s"
      "pOBBTable s' = pOBBTable s" "pOBBPageTable s' = t'"
      using tracks_null(1) [OF t] a True unfolding s'
      by (auto simp: DECAF_registerOptimizedBlockBeginCallback_def Let_def add)
    then show "\<exists>f\<in>set (if n = 1 then [(PAGE_LEVEL, addr)] else []). flushes_block pc f"
      if "DECAF_is_BlockBeginCallback_needed pc s \<noteq> DECAF_is_BlockBeginCallback_needed pc s'"
      using that t'(2) [of "page_of pc"] a unfolding DECAF_is_BlockBeginCallback_needed_def
      by (auto simp: flushes_block_def split: if_splits)
  qed
  with i show ?thesis ..
qed

lemma unregister_begin_ok:
  assumes "begin_inv s" and s': "s' = snd (DECAF_unregisterOptimizedBlockBeginCallback h s)"
  shows "begin_inv s' \<and> coherent (DECAF_is_BlockBeginCallback_needed pc) pc s s'"
proof (cases "find_handle h (callback_list_heads s DECAF_BLOCK_BEGIN_CB)")
  case None
  then show ?thesis
    using assms by (simp add: DECAF_unregisterOptimizedBlockBeginCallback_def coherent_def)
next
  case (Some cb)
  note inv = assms(1) [unfolded begin_inv_def Let_def]
  obtain xs ys where L: "callback_list_heads s DECAF_BLOCK_BEGIN_CB = xs @ cb # ys"
    "unlink h (callback_list_heads s DECAF_BLOCK_BEGIN_CB) = xs @ ys"
    using find_handleE [OF Some] .
  show ?thesis
  proof (cases "ocb_type cb = OCB_ALL")
    case True
    have i: "begin_inv s'"
      using inv True L Some unfolding s' begin_inv_def
      by (auto simp: DECAF_unregisterOptimizedBlockBeginCallback_def Let_def)
    have "coherent (DECAF_is_BlockBeginCallback_needed pc) pc s s'"
      using inv True L Some unfolding s' coherent_def
      by (auto simp: DECAF_unregisterOptimizedBlockBeginCallback_def Let_def flushes_block_def
          DECAF_is_BlockBeginCallback_needed_def)
    with i show ?thesis ..
  next
    case False
    then have ty: "ocb_type cb = OCB_PAGE" "page_of (cb_from cb) = cb_from cb"
      using inv L by auto
    let ?M = "keys (\<lambda>cb. ocb_type cb = OCB_PAGE) cb_from (xs @ cb # ys)"
    have t: "ctab.tracks (pOBBPageTable s) ?M" using inv L by simp
    obtain n t' where rem: "CountingHashtable_remove (pOBBPageTable s) (cb_from cb) = (n, t')"
      by fastforce
    have "cb_from cb \<in># ?M" using ty by simp
    note t' = ctab.remove_change [OF t this rem]
    have i: "begin_inv s'"
      using inv t' ty L Some tracks_null(1) [OF t] unfolding s' begin_inv_def
      by (auto simp: DECAF_unregisterOptimizedBlockBeginCallback_def Let_def rem)
    have "coherent (DECAF_is_BlockBeginCallback_needed pc) pc s s'"
    proof (rule coherentI)
      show "pending s' = pending s @ (if n = 0 then [(PAGE_LEVEL, cb_from cb)] else [])"
        using tracks_null(1) [OF t] ty Some unfolding s'
        by (auto simp: DECAF_unregisterOptimizedBlockBeginCallback_def Let_def rem)
      have "bEnableAllBlockBeginCallbacks s' = bEnableAllBlockBeginCallbacks s"
        "pOBBTable s' = pOBBTable s" "pOBBPageTable s' = t'"
        using tracks_null(1) [OF t] ty Some unfolding s'
        by (auto simp: DECAF_unregisterOptimizedBlockBeginCallback_def Let_def rem)
      then show "\<exists>f\<in>set (if n = 0 then [(PAGE_LEVEL, cb_from cb)] else []). flushes_block pc f"
        if "DECAF_is_BlockBeginCallback_needed pc s \<noteq> DECAF_is_BlockBeginCallback_needed pc s'"
        using that t'(2) [of "page_of pc"] ty unfolding DECAF_is_BlockBeginCallback_needed_def
        by (auto simp: flushes_block_def split: if_splits)
    qed
    with i show ?thesis ..
  qed
qed

section \<open>Block end\<close>

text \<open>The four kinds of block end callbacks: every transition, by source, by target, by both.\<close>

definition end_all :: "callback_struct \<Rightarrow> bool" where
  "end_all cb \<longleftrightarrow> cb_from cb = INV_ADDR \<and> cb_to cb = INV_ADDR"

definition end_from :: "callback_struct \<Rightarrow> bool" where
  "end_from cb \<longleftrightarrow> cb_from cb \<noteq> INV_ADDR \<and> cb_to cb = INV_ADDR"

definition end_to :: "callback_struct \<Rightarrow> bool" where
  "end_to cb \<longleftrightarrow> cb_from cb = INV_ADDR \<and> cb_to cb \<noteq> INV_ADDR"

definition end_both :: "callback_struct \<Rightarrow> bool" where
  "end_both cb \<longleftrightarrow> cb_from cb \<noteq> INV_ADDR \<and> cb_to cb \<noteq> INV_ADDR"

definition from_key :: "callback_struct \<Rightarrow> u32" where
  "from_key cb = page_of (cb_from cb)"

definition to_key :: "callback_struct \<Rightarrow> u32" where
  "to_key cb = page_of (cb_to cb)"

definition pair_key :: "callback_struct \<Rightarrow> u32 \<times> u32" where
  "pair_key cb = (page_of (cb_from cb), page_of (cb_to cb))"

definition end_inv :: "cbstate \<Rightarrow> bool" where
  "end_inv s \<longleftrightarrow> (let L = callback_list_heads s DECAF_BLOCK_END_CB in
     enableAllBlockEndCallbacksCount s = int (length (filter end_all L)) \<and>
     (bEnableAllBlockEndCallbacks s \<longleftrightarrow> 0 < enableAllBlockEndCallbacksCount s) \<and>
     ctab.tracks (pOBEFromPageTable s) (keys end_from from_key L) \<and>
     ctab.tracks (pOBEToPageTable s) (keys end_to to_key L) \<and>
     cmap.tracks (pOBEPageMap s) (keys end_both pair_key L))"

text \<open>What a block end callback asks for.\<close>

definition wants_end :: "u32 \<Rightarrow> u32 \<Rightarrow> callback_struct \<Rightarrow> bool" where
  "wants_end from to cb \<longleftrightarrow> (cb_from cb = INV_ADDR \<or> page_of (cb_from cb) = page_of from) \<and>
     (cb_to cb = INV_ADDR \<or> to \<noteq> INV_ADDR \<and> page_of (cb_to cb) = page_of to)"

lemma end_needed:
  assumes "end_inv s"
  shows "DECAF_is_BlockEndCallback_needed from to s \<longleftrightarrow>
    (\<exists>cb\<in>set (callback_list_heads s DECAF_BLOCK_END_CB). wants_end from to cb)"
proof -
  let ?L = "callback_list_heads s DECAF_BLOCK_END_CB"
  note inv = assms [unfolded end_inv_def Let_def]
  have "bEnableAllBlockEndCallbacks s \<longleftrightarrow> (\<exists>cb\<in>set ?L. end_all cb)"
    using inv by (auto simp: filter_empty_conv)
  moreover have "CountingHashtable_exist (pOBEFromPageTable s) (page_of from) \<longleftrightarrow>
      (\<exists>cb\<in>set ?L. end_from cb \<and> from_key cb = page_of from)"
    unfolding in_keys [symmetric] using inv by (intro ctab.tracks_exist) simp
  moreover have "CountingHashtable_exist (pOBEToPageTable s) (page_of to) \<longleftrightarrow>
      (\<exists>cb\<in>set ?L. end_to cb \<and> to_key cb = page_of to)"
    unfolding in_keys [symmetric] using inv by (intro ctab.tracks_exist) simp
  moreover have "CountingHashmap_exist (pOBEPageMap s) (page_of from) (page_of to) \<longleftrightarrow>
      (\<exists>cb\<in>set ?L. end_both cb \<and> pair_key cb = (page_of from, page_of to))"
    unfolding in_keys [symmetric]
    using inv cmap.tracks_exist [of "pOBEPageMap s" _ "(page_of from, page_of to)"] by simp
  moreover have w: "wants_end from to cb \<longleftrightarrow> end_all cb \<or> end_from cb \<and> from_key cb = page_of from \<or>
      to \<noteq> INV_ADDR \<and> (end_to cb \<and> to_key cb = page_of to \<or>
        end_both cb \<and> pair_key cb = (page_of from, page_of to))" for cb
    by (auto simp: wants_end_def end_all_def end_from_def end_to_def end_both_def from_key_def
        to_key_def pair_key_def)
  ultimately show ?thesis
    unfolding w bex_disj_distrib DECAF_is_BlockEndCallback_needed_def by auto
qed

lemmas end_kinds = end_all_def end_from_def end_to_def end_both_def from_key_def to_key_def pair_key_def

lemma register_end_all:
  assumes "end_inv s" and k: "from' = INV_ADDR" "to' = INV_ADDR"
    and s': "s' = snd (DECAF_registerOptimizedBlockEndCallback fresh f c from' to' s)"
  shows "end_inv s' \<and> coherent (DECAF_is_BlockEndCallback_needed from to) from s s'"
proof
  note inv = assms(1) [unfolded end_inv_def Let_def]
  show "end_inv s'"
    using inv k unfolding s' end_inv_def
    by (simp add: DECAF_registerOptimizedBlockEndCallback_def Let_def end_kinds)
  show "coherent (DECAF_is_BlockEndCallback_needed from to) from s s'"
    using inv k unfolding s' coherent_def
    by (auto simp: DECAF_registerOptimizedBlockEndCallback_def
        DECAF_is_BlockEndCallback_needed_def Let_def flushes_block_def)
qed

lemma register_end_src:
  assumes "end_inv s" "length (callback_list_heads s DECAF_BLOCK_END_CB) < 2 ^ 32 - 1"
    and k: "from' \<noteq> INV_ADDR" "to' = INV_ADDR"
    and s': "s' = snd (DECAF_registerOptimizedBlockEndCallback fresh f c from' to' s)"
  shows "end_inv s' \<and> coherent (DECAF_is_BlockEndCallback_needed from to) from s s'"
proof -
  note inv = assms(1) [unfolded end_inv_def Let_def]
  let ?L = "callback_list_heads s DECAF_BLOCK_END_CB"
  have t: "ctab.tracks (pOBEFromPageTable s) (keys end_from from_key ?L)" using inv by simp
  have sz: "size (keys end_from from_key ?L) < 2 ^ 32 - 1"
    using assms(2) size_keys [of _ _ ?L] le_less_trans by blast
  obtain n t' where op: "CountingHashtable_add (pOBEFromPageTable s) (page_of from') = (n, t')" by fastforce
  note t' = ctab.add_change [OF t sz op]
  have eq: "s' = LIST_INSERT_HEAD DECAF_BLOCK_END_CB (fresh\<lparr>callback := f, enabled := c,
      cb_from := from', cb_to := to', ocb_type := OCB_ALL\<rparr>)
      (if n = 1 then DECAF_flushTranslationCache PAGE_LEVEL from' (s\<lparr>pOBEFromPageTable := t'\<rparr>) else s\<lparr>pOBEFromPageTable := t'\<rparr>)"
    using k tracks_null(1) [OF t] unfolding s'
    by (auto simp: DECAF_registerOptimizedBlockEndCallback_def Let_def op)
  have "end_inv s'"
    using inv t'(1) k unfolding eq end_inv_def by (simp add: Let_def end_kinds)
  moreover have "coherent (DECAF_is_BlockEndCallback_needed from to) from s s'"
    using t'(2) [of "page_of from"] unfolding eq
    by (intro coherentI [of _ _ "if n = 1 then [(PAGE_LEVEL, from')] else []"])
      (auto simp: DECAF_is_BlockEndCallback_needed_def flushes_block_def split: if_splits)
  ultimately show ?thesis ..
qed

lemma register_end_dst:
  assumes "end_inv s" "length (callback_list_heads s DECAF_BLOCK_END_CB) < 2 ^ 32 - 1"
    and k: "from' = INV_ADDR" "to' \<noteq> INV_ADDR"
    and s': "s' = snd (DECAF_registerOptimizedBlockEndCallback fresh f c from' to' s)"
  shows "end_inv s' \<and> coherent (DECAF_is_BlockEndCallback_needed from to) from s s'"
proof -
  note inv = assms(1) [unfolded end_inv_def Let_def]
  let ?L = "callback_list_heads s DECAF_BLOCK_END_CB"
  have t: "ctab.tracks (pOBEToPageTable s) (keys end_to to_key ?L)" using inv by simp
  have sz: "size (keys end_to to_key ?L) < 2 ^ 32 - 1"
    using assms(2) size_keys [of _ _ ?L] le_less_trans by blast
  obtain n t' where op: "CountingHashtable_add (pOBEToPageTable s) (page_of to') = (n, t')" by fastforce
  note t' = ctab.add_change [OF t sz op]
  have eq: "s' = LIST_INSERT_HEAD DECAF_BLOCK_END_CB (fresh\<lparr>callback := f, enabled := c,
      cb_from := from', cb_to := to', ocb_type := OCB_ALL\<rparr>)
      (if n = 1 then DECAF_flushTranslationCache ALL_CACHE 0 (s\<lparr>pOBEToPageTable := t'\<rparr>) else s\<lparr>pOBEToPageTable := t'\<rparr>)"
    using k tracks_null(1) [OF t] unfolding s'
    by (auto simp: DECAF_registerOptimizedBlockEndCallback_def Let_def op)
  have "end_inv s'"
    using inv t'(1) k unfolding eq end_inv_def by (simp add: Let_def end_kinds)
  moreover have "coherent (DECAF_is_BlockEndCallback_needed from to) from s s'"
    using t'(2) [of "page_of to"] unfolding eq
    by (intro coherentI [of _ _ "if n = 1 then [(ALL_CACHE, 0)] else []"])
      (auto simp: DECAF_is_BlockEndCallback_needed_def flushes_block_def split: if_splits)
  ultimately show ?thesis ..
qed

lemma register_end_both:
  assumes "end_inv s" "length (callback_list_heads s DECAF_BLOCK_END_CB) < 2 ^ 32 - 1"
    and k: "from' \<noteq> INV_ADDR" "to' \<noteq> INV_ADDR"
    and s': "s' = snd (DECAF_registerOptimizedBlockEndCallback fresh f c from' to' s)"
  shows "end_inv s' \<and> coherent (DECAF_is_BlockEndCallback_needed from to) from s s'"
proof -
  note inv = assms(1) [unfolded end_inv_def Let_def]
  let ?L = "callback_list_heads s DECAF_BLOCK_END_CB"
  have t: "cmap.tracks (pOBEPageMap s) (keys end_both pair_key ?L)" using inv by simp
  have sz: "size (keys end_both pair_key ?L) < 2 ^ 32 - 1"
    using assms(2) size_keys [of _ _ ?L] le_less_trans by blast
  obtain n t' where op: "CountingHashmap_add (pOBEPageMap s) (page_of from') (page_of to') = (n, t')" by fastforce
  note t' = cmap.add_change [OF t sz, of "(page_of from', page_of to')", unfolded fst_conv snd_conv, OF op]
  have eq: "s' = LIST_INSERT_HEAD DECAF_BLOCK_END_CB (fresh\<lparr>callback := f, enabled := c,
      cb_from := from', cb_to := to', ocb_type := OCB_ALL\<rparr>)
      (if n = 1 then DECAF_flushTranslationCache PAGE_LEVEL from' (s\<lparr>pOBEPageMap := t'\<rparr>) else s\<lparr>pOBEPageMap := t'\<rparr>)"
    using k tracks_null(2) [OF t] unfolding s'
    by (auto simp: DECAF_registerOptimizedBlockEndCallback_def Let_def op)
  have "end_inv s'"
    using inv t'(1) k unfolding eq end_inv_def by (simp add: Let_def end_kinds)
  moreover have "coherent (DECAF_is_BlockEndCallback_needed from to) from s s'"
  proof (rule coherentI [of _ _ "if n = 1 then [(PAGE_LEVEL, from')] else []"])
    assume "DECAF_is_BlockEndCallback_needed from to s \<noteq> DECAF_is_BlockEndCallback_needed from to s'"
    then have "CountingHashmap_exist t' (page_of from) (page_of to) \<noteq>
        CountingHashmap_exist (pOBEPageMap s) (page_of from) (page_of to)"
      unfolding eq by (simp add: DECAF_is_BlockEndCallback_needed_def split: if_splits)
    from t'(2) [of "(page_of from, page_of to)", unfolded fst_conv snd_conv, OF this]
    show "\<exists>f\<in>set (if n = 1 then [(PAGE_LEVEL, from')] else []). flushes_block from f"
      by (simp add: flushes_block_def)
  qed (simp add: eq)
  ultimately show ?thesis ..
qed

lemma register_end_ok:
  assumes "end_inv s" "length (callback_list_heads s DECAF_BLOCK_END_CB) < 2 ^ 32 - 1"
    and s': "s' = snd (DECAF_registerOptimizedBlockEndCallback fresh f c from' to' s)"
  shows "end_inv s' \<and> coherent (DECAF_is_BlockEndCallback_needed from to) from s s'"
  using register_end_all [OF assms(1) _ _ s'] register_end_src [OF assms(1,2) _ _ s']
    register_end_dst [OF assms(1,2) _ _ s'] register_end_both [OF assms(1,2) _ _ s']
  by blast

lemma unregister_end_all:
  assumes "end_inv s" and L: "callback_list_heads s DECAF_BLOCK_END_CB = xs @ cb # ys"
    "unlink h (callback_list_heads s DECAF_BLOCK_END_CB) = xs @ ys"
    "find_handle h (callback_list_heads s DECAF_BLOCK_END_CB) = Some cb"
    and k: "cb_from cb = INV_ADDR" "cb_to cb = INV_ADDR"
    and s': "s' = snd (DECAF_unregisterOptimizedBlockEndCallback h s)"
  shows "end_inv s' \<and> coherent (DECAF_is_BlockEndCallback_needed from to) from s s'"
proof
  note inv = assms(1) [unfolded end_inv_def Let_def]
  show "end_inv s'"
    using inv k L unfolding s' end_inv_def
    by (auto simp: DECAF_unregisterOptimizedBlockEndCallback_def Let_def end_kinds)
  show "coherent (DECAF_is_BlockEndCallback_needed from to) from s s'"
    using inv k L unfolding s' coherent_def
    by (auto simp: DECAF_unregisterOptimizedBlockEndCallback_def end_kinds
        DECAF_is_BlockEndCallback_needed_def Let_def flushes_block_def)
qed

lemma unregister_end_src:
  assumes "end_inv s" and L: "callback_list_heads s DECAF_BLOCK_END_CB = xs @ cb # ys"
    "unlink h (callback_list_heads s DECAF_BLOCK_END_CB) = xs @ ys"
    "find_handle h (callback_list_heads s DECAF_BLOCK_END_CB) = Some cb"
    and k: "cb_from cb \<noteq> INV_ADDR" "cb_to cb = INV_ADDR"
    and s': "s' = snd (DECAF_unregisterOptimizedBlockEndCallback h s)"
  shows "end_inv s' \<and> coherent (DECAF_is_BlockEndCallback_needed from to) from s s'"
proof -
  note inv = assms(1) [unfolded end_inv_def Let_def]
  have t: "ctab.tracks (pOBEFromPageTable s) (keys end_from from_key (xs @ cb # ys))" using inv L(1) by simp
  have m: "page_of (cb_from cb) \<in># keys end_from from_key (xs @ cb # ys)" using k by (simp add: end_kinds)
  obtain n t' where op: "CountingHashtable_remove (pOBEFromPageTable s) (page_of (cb_from cb)) = (n, t')" by fastforce
  note t' = ctab.remove_change [OF t m op]
  have eq: "s' = LIST_REMOVE DECAF_BLOCK_END_CB h
      (if n = 0 then DECAF_flushTranslationCache PAGE_LEVEL (page_of (cb_from cb)) (s\<lparr>pOBEFromPageTable := t'\<rparr>) else s\<lparr>pOBEFromPageTable := t'\<rparr>)"
    using k L(3) unfolding s'
    by (auto simp: DECAF_unregisterOptimizedBlockEndCallback_def Let_def op)
  have "end_inv s'"
    using inv t'(1) k L unfolding eq end_inv_def by (simp add: Let_def end_kinds)
  moreover have "coherent (DECAF_is_BlockEndCallback_needed from to) from s s'"
    using t'(2) [of "page_of from"] unfolding eq
    by (intro coherentI [of _ _ "if n = 0 then [(PAGE_LEVEL, page_of (cb_from cb))] else []"])
      (auto simp: DECAF_is_BlockEndCallback_needed_def flushes_block_def split: if_splits)
  ultimately show ?thesis ..
qed

lemma unregister_end_dst:
  assumes "end_inv s" and L: "callback_list_heads s DECAF_BLOCK_END_CB = xs @ cb # ys"
    "unlink h (callback_list_heads s DECAF_BLOCK_END_CB) = xs @ ys"
    "find_handle h (callback_list_heads s DECAF_BLOCK_END_CB) = Some cb"
    and k: "cb_from cb = INV_ADDR" "cb_to cb \<noteq> INV_ADDR"
    and s': "s' = snd (DECAF_unregisterOptimizedBlockEndCallback h s)"
  shows "end_inv s' \<and> coherent (DECAF_is_BlockEndCallback_needed from to) from s s'"
proof -
  note inv = assms(1) [unfolded end_inv_def Let_def]
  have t: "ctab.tracks (pOBEToPageTable s) (keys end_to to_key (xs @ cb # ys))" using inv L(1) by simp
  have m: "page_of (cb_to cb) \<in># keys end_to to_key (xs @ cb # ys)" using k by (simp add: end_kinds)
  obtain n t' where op: "CountingHashtable_remove (pOBEToPageTable s) (page_of (cb_to cb)) = (n, t')" by fastforce
  note t' = ctab.remove_change [OF t m op]
  have eq: "s' = LIST_REMOVE DECAF_BLOCK_END_CB h
      (if n = 0 then DECAF_flushTranslationCache ALL_CACHE 0 (s\<lparr>pOBEToPageTable := t'\<rparr>) else s\<lparr>pOBEToPageTable := t'\<rparr>)"
    using k L(3) unfolding s'
    by (auto simp: DECAF_unregisterOptimizedBlockEndCallback_def Let_def op)
  have "end_inv s'"
    using inv t'(1) k L unfolding eq end_inv_def by (simp add: Let_def end_kinds)
  moreover have "coherent (DECAF_is_BlockEndCallback_needed from to) from s s'"
    using t'(2) [of "page_of to"] unfolding eq
    by (intro coherentI [of _ _ "if n = 0 then [(ALL_CACHE, 0)] else []"])
      (auto simp: DECAF_is_BlockEndCallback_needed_def flushes_block_def split: if_splits)
  ultimately show ?thesis ..
qed

lemma unregister_end_both:
  assumes "end_inv s" and L: "callback_list_heads s DECAF_BLOCK_END_CB = xs @ cb # ys"
    "unlink h (callback_list_heads s DECAF_BLOCK_END_CB) = xs @ ys"
    "find_handle h (callback_list_heads s DECAF_BLOCK_END_CB) = Some cb"
    and k: "cb_from cb \<noteq> INV_ADDR" "cb_to cb \<noteq> INV_ADDR"
    and s': "s' = snd (DECAF_unregisterOptimizedBlockEndCallback h s)"
  shows "end_inv s' \<and> coherent (DECAF_is_BlockEndCallback_needed from to) from s s'"
proof -
  note inv = assms(1) [unfolded end_inv_def Let_def]
  have t: "cmap.tracks (pOBEPageMap s) (keys end_both pair_key (xs @ cb # ys))" using inv L(1) by simp
  have m: "(page_of (cb_from cb), page_of (cb_to cb)) \<in># keys end_both pair_key (xs @ cb # ys)" using k by (simp add: end_kinds)
  obtain n t' where op: "CountingHashmap_remove (pOBEPageMap s) (page_of (cb_from cb)) (page_of (cb_to cb)) = (n, t')" by fastforce
  note t' = cmap.remove_change [OF t m, unfolded fst_conv snd_conv, OF op]
  have eq: "s' = LIST_REMOVE DECAF_BLOCK_END_CB h
      (if n = 0 then DECAF_flushTranslationCache PAGE_LEVEL (page_of (cb_from cb)) (s\<lparr>pOBEPageMap := t'\<rparr>) else s\<lparr>pOBEPageMap := t'\<rparr>)"
    using k L(3) unfolding s'
    by (auto simp: DECAF_unregisterOptimizedBlockEndCallback_def Let_def op)
  have "end_inv s'"
    using inv t'(1) k L unfolding eq end_inv_def by (simp add: Let_def end_kinds)
  moreover have "coherent (DECAF_is_BlockEndCallback_needed from to) from s s'"
  proof (rule coherentI [of _ _ "if n = 0 then [(PAGE_LEVEL, page_of (cb_from cb))] else []"])
    assume "DECAF_is_BlockEndCallback_needed from to s \<noteq> DECAF_is_BlockEndCallback_needed from to s'"
    then have "CountingHashmap_exist t' (page_of from) (page_of to) \<noteq>
        CountingHashmap_exist (pOBEPageMap s) (page_of from) (page_of to)"
      unfolding eq by (simp add: DECAF_is_BlockEndCallback_needed_def split: if_splits)
    from t'(2) [of "(page_of from, page_of to)", unfolded fst_conv snd_conv, OF this]
    show "\<exists>f\<in>set (if n = 0 then [(PAGE_LEVEL, page_of (cb_from cb))] else []). flushes_block from f"
      by (simp add: flushes_block_def)
  qed (simp add: eq)
  ultimately show ?thesis ..
qed

lemma unregister_end_ok:
  assumes "end_inv s" and s': "s' = snd (DECAF_unregisterOptimizedBlockEndCallback h s)"
  shows "end_inv s' \<and> coherent (DECAF_is_BlockEndCallback_needed from to) from s s'"
proof (cases "find_handle h (callback_list_heads s DECAF_BLOCK_END_CB)")
  case None
  then show ?thesis
    using assms by (simp add: DECAF_unregisterOptimizedBlockEndCallback_def coherent_def)
next
  case (Some cb)
  obtain xs ys where L: "callback_list_heads s DECAF_BLOCK_END_CB = xs @ cb # ys"
    "unlink h (callback_list_heads s DECAF_BLOCK_END_CB) = xs @ ys"
    using find_handleE [OF Some] .
  note r = unregister_end_all [OF assms(1) L Some _ _ s'] unregister_end_src [OF assms(1) L Some _ _ s']
    unregister_end_dst [OF assms(1) L Some _ _ s'] unregister_end_both [OF assms(1) L Some _ _ s']
  show ?thesis using r by blast
qed

end
