(* ===== verification/Callback_Runs.thy ===== *)
theory Callback_Runs
  imports Callback_Registry
begin

text \<open>
  Runs of the callback registry: sequences of registrations and removals of every kind from the
  state that \<open>DECAF_callback_init\<close> sets up.  The invariants of the three kinds of tables hold in
  every reachable state; the properties of the registry follow from them.
\<close>

section \<open>Opcode ranges\<close>

text \<open>
  Every entry of \<open>instructionCallbacks\<close> points to a structure of the list whose range covers the
  entry.
\<close>

definition opcode_inv :: "cbstate \<Rightarrow> bool" where
  "opcode_inv s \<longleftrightarrow> (let L = callback_list_heads s DECAF_OPCODE_RANGE_CB in
     distinct (map cb_handle L) \<and>
     (\<forall>i h. instructionCallbacks s i = Some h \<longrightarrow>
        (\<exists>cb\<in>set L. cb_handle cb = h \<and> unat (cb_from cb) \<le> i \<and> i \<le> unat (cb_to cb) \<and> i < 0x200)))"

definition unused :: "nat \<Rightarrow> cbstate \<Rightarrow> bool" where
  "unused h s \<longleftrightarrow> (\<forall>ty. h \<notin> cb_handle ` set (callback_list_heads s ty))"

lemma unat_ucast_u16: "unat (ucast (w :: u16) :: u32) = unat w"
proof -
  have "unat w < 2 ^ 16" using unsigned_less [of w] by simp
  then show ?thesis by (simp add: unsigned_ucast_eq take_bit_nat_eq_self)
qed

lemma register_range_ok:
  assumes "opcode_inv s" "unused (cb_handle fresh) s"
    and r: "DECAF_registerOpcodeRangeCallbacks fresh f c start end_op s = Some (r, s')"
  shows "opcode_inv s'"
proof (cases "end_op < start")
  case True
  then show ?thesis
    using assms by (simp add: DECAF_registerOpcodeRangeCallbacks_def)
next
  case False
  note inv = assms(1) [unfolded opcode_inv_def Let_def]
  note u = assms(2) [unfolded unused_def]
  show ?thesis
    using inv u r False unfolding opcode_inv_def
    by (auto simp: DECAF_registerOpcodeRangeCallbacks_def Let_def unat_ucast_u16 word_le_nat_alt
        split: if_splits)
qed

lemma unlink_handles:
  "distinct (map cb_handle L) \<Longrightarrow>
     set (unlink h L) = {cb \<in> set L. cb_handle cb \<noteq> h} \<and> distinct (map cb_handle (unlink h L))"
  by (induction L) (auto simp: image_iff)

lemma find_handle_distinct:
  "distinct (map cb_handle L) \<Longrightarrow> cb \<in> set L \<Longrightarrow> find_handle (cb_handle cb) L = Some cb"
  by (induction L) (auto simp: image_iff)

lemma unregister_range_ok:
  assumes "opcode_inv s" and s': "s' = snd (DECAF_unregisterOpcodeRangeCallbacks h s)"
  shows "opcode_inv s'"
proof (cases "find_handle h (callback_list_heads s DECAF_OPCODE_RANGE_CB)")
  case None
  then show ?thesis
    using assms by (simp add: DECAF_unregisterOpcodeRangeCallbacks_def)
next
  case (Some cb)
  let ?L = "callback_list_heads s DECAF_OPCODE_RANGE_CB"
  note inv = assms(1) [unfolded opcode_inv_def Let_def]
  have d: "distinct (map cb_handle ?L)" using inv by simp
  show ?thesis
  proof (cases "cb_from cb > 0x1ff \<or> cb_to cb > 0x1ff \<or> cb_from cb > cb_to cb")
    case True
    then show ?thesis using assms Some by (simp add: DECAF_unregisterOpcodeRangeCallbacks_def)
  next
    case False
    have e: "instructionCallbacks s' i = (if unat (cb_from cb) \<le> i \<and> i \<le> unat (cb_to cb) then None
          else instructionCallbacks s i)"
      "callback_list_heads s' DECAF_OPCODE_RANGE_CB = unlink h ?L" for i
      using False Some unfolding s' by (simp_all add: DECAF_unregisterOpcodeRangeCallbacks_def)
    have "\<exists>cb\<in>set (unlink h ?L). cb_handle cb = g \<and> unat (cb_from cb) \<le> i \<and> i \<le> unat (cb_to cb) \<and> i < 0x200"
      if g: "instructionCallbacks s' i = Some g" for i g
    proof -
      obtain x where x: "x \<in> set ?L" "cb_handle x = g" "unat (cb_from x) \<le> i" "i \<le> unat (cb_to x)" "i < 0x200"
        using inv g e(1) [of i] by (auto split: if_splits)
      have "g \<noteq> h"
      proof
        assume "g = h"
        then have "x = cb" using find_handle_distinct [OF d x(1)] x(2) Some by simp
        then show False using g e(1) [of i] x by simp
      qed
      then show ?thesis using x unlink_handles [OF d, of h] by blast
    qed
    then show ?thesis
      unfolding opcode_inv_def e(2) Let_def using unlink_handles [OF d, of h] by blast
  qed
qed

section \<open>Operations of one kind leave the others alone\<close>

definition begin_view where
  "begin_view s = (callback_list_heads s DECAF_BLOCK_BEGIN_CB, enableAllBlockBeginCallbacksCount s,
     bEnableAllBlockBeginCallbacks s, pOBBPageTable s, pOBBTable s)"

definition end_view where
  "end_view s = (callback_list_heads s DECAF_BLOCK_END_CB, enableAllBlockEndCallbacksCount s,
     bEnableAllBlockEndCallbacks s, pOBEFromPageTable s, pOBEToPageTable s, pOBEPageMap s)"

definition opcode_view where
  "opcode_view s = (callback_list_heads s DECAF_OPCODE_RANGE_CB, instructionCallbacks s)"

lemma begin_view_cong:
  "begin_view s' = begin_view s \<Longrightarrow> begin_inv s' = begin_inv s"
  "begin_view s' = begin_view s \<Longrightarrow> DECAF_is_BlockBeginCallback_needed pc s' = DECAF_is_BlockBeginCallback_needed pc s"
  by (simp_all add: begin_view_def begin_inv_def DECAF_is_BlockBeginCallback_needed_def)

lemma end_view_cong:
  "end_view s' = end_view s \<Longrightarrow> end_inv s' = end_inv s"
  "end_view s' = end_view s \<Longrightarrow> DECAF_is_BlockEndCallback_needed from to s' = DECAF_is_BlockEndCallback_needed from to s"
  by (simp_all add: end_view_def end_inv_def DECAF_is_BlockEndCallback_needed_def)

lemma opcode_view_cong: "opcode_view s' = opcode_view s \<Longrightarrow> opcode_inv s' = opcode_inv s"
  by (simp add: opcode_view_def opcode_inv_def)

lemmas view_defs = begin_view_def end_view_def opcode_view_def

lemma begin_ops_views:
  "end_view (snd (DECAF_registerOptimizedBlockBeginCallback fresh f c addr ty s)) = end_view s"
  "opcode_view (snd (DECAF_registerOptimizedBlockBeginCallback fresh f c addr ty s)) = opcode_view s"
  "end_view (snd (DECAF_unregisterOptimizedBlockBeginCallback h s)) = end_view s"
  "opcode_view (snd (DECAF_unregisterOptimizedBlockBeginCallback h s)) = opcode_view s"
  by (simp_all add: view_defs DECAF_registerOptimizedBlockBeginCallback_def
      DECAF_unregisterOptimizedBlockBeginCallback_def Let_def split: OCB_t.split option.split prod.split)

lemma end_ops_views:
  "begin_view (snd (DECAF_registerOptimizedBlockEndCallback fresh f c from to s)) = begin_view s"
  "opcode_view (snd (DECAF_registerOptimizedBlockEndCallback fresh f c from to s)) = opcode_view s"
  "begin_view (snd (DECAF_unregisterOptimizedBlockEndCallback h s)) = begin_view s"
  "opcode_view (snd (DECAF_unregisterOptimizedBlockEndCallback h s)) = opcode_view s"
  by (simp_all add: view_defs DECAF_registerOptimizedBlockEndCallback_def
      DECAF_unregisterOptimizedBlockEndCallback_def Let_def split: option.split prod.split)

lemma range_ops_views:
  "DECAF_registerOpcodeRangeCallbacks fresh f c start end_op s = Some (r, s') \<Longrightarrow>
     begin_view s' = begin_view s \<and> end_view s' = end_view s"
  "begin_view (snd (DECAF_unregisterOpcodeRangeCallbacks h s)) = begin_view s"
  "end_view (snd (DECAF_unregisterOpcodeRangeCallbacks h s)) = end_view s"
  by (auto simp: view_defs DECAF_registerOpcodeRangeCallbacks_def
      DECAF_unregisterOpcodeRangeCallbacks_def Let_def split: if_splits option.split)

definition plain_type :: "DECAF_callback_type_t \<Rightarrow> bool" where
  "plain_type ty \<longleftrightarrow> ty \<noteq> DECAF_BLOCK_BEGIN_CB \<and> ty \<noteq> DECAF_BLOCK_END_CB \<and> ty \<noteq> DECAF_OPCODE_RANGE_CB"

lemma plain_ops_views:
  assumes "plain_type ty"
  shows "begin_view (snd (DECAF_register_callback fresh ty f c s)) = begin_view s"
    "end_view (snd (DECAF_register_callback fresh ty f c s)) = end_view s"
    "opcode_view (snd (DECAF_register_callback fresh ty f c s)) = opcode_view s"
    "begin_view (snd (DECAF_unregister_callback ty h s)) = begin_view s"
    "end_view (snd (DECAF_unregister_callback ty h s)) = end_view s"
    "opcode_view (snd (DECAF_unregister_callback ty h s)) = opcode_view s"
  using assms
  by (auto simp: view_defs plain_type_def DECAF_register_callback_def DECAF_unregister_callback_def
      Let_def split: option.split)

section \<open>Flushes are only queued\<close>

lemma coherent_frame:
  "\<exists>fs. pending s' = pending s @ fs \<Longrightarrow> told s' = told s \<Longrightarrow> coherent told pc s s'"
  by (simp add: coherent_def)

lemma pending_begin_ops:
  "\<exists>fs. pending (snd (DECAF_registerOptimizedBlockBeginCallback fresh f c addr ty s)) = pending s @ fs"
  "\<exists>fs. pending (snd (DECAF_unregisterOptimizedBlockBeginCallback h s)) = pending s @ fs"
  by (simp_all add: DECAF_registerOptimizedBlockBeginCallback_def
      DECAF_unregisterOptimizedBlockBeginCallback_def Let_def split: OCB_t.split option.split prod.split)

lemma pending_end_ops:
  "\<exists>fs. pending (snd (DECAF_registerOptimizedBlockEndCallback fresh f c from to s)) = pending s @ fs"
  "\<exists>fs. pending (snd (DECAF_unregisterOptimizedBlockEndCallback h s)) = pending s @ fs"
  by (simp_all add: DECAF_registerOptimizedBlockEndCallback_def
      DECAF_unregisterOptimizedBlockEndCallback_def Let_def split: option.split prod.split)

lemma pending_range_ops:
  "DECAF_registerOpcodeRangeCallbacks fresh f c start end_op s = Some (r, s') \<Longrightarrow>
     \<exists>fs. pending s' = pending s @ fs"
  "\<exists>fs. pending (snd (DECAF_unregisterOpcodeRangeCallbacks h s)) = pending s @ fs"
  by (auto simp: DECAF_registerOpcodeRangeCallbacks_def
      DECAF_unregisterOpcodeRangeCallbacks_def Let_def split: if_splits option.split)

lemma pending_plain_ops:
  assumes "plain_type ty"
  shows "\<exists>fs. pending (snd (DECAF_register_callback fresh ty f c s)) = pending s @ fs"
    "\<exists>fs. pending (snd (DECAF_unregister_callback ty h s)) = pending s @ fs"
  using assms by (simp_all add: plain_type_def DECAF_register_callback_def DECAF_unregister_callback_def
      Let_def split: option.split)

lemma plain_ops_coherent:
  assumes "plain_type ty" "told \<noteq> DECAF_TLB_EXEC_CB"
  shows "coherent (DECAF_is_callback_needed told) pc s (snd (DECAF_register_callback fresh ty f c s))"
    "coherent (DECAF_is_callback_needed told) pc s (snd (DECAF_unregister_callback ty h s))"
  using assms by (auto simp: coherent_def plain_type_def DECAF_register_callback_def
      DECAF_unregister_callback_def DECAF_is_callback_needed_def flushes_block_def Let_def
      split: option.split)

lemma plain_lists:
  assumes "plain_type ty"
  shows "callback_list_heads (snd (DECAF_registerOptimizedBlockBeginCallback fresh f c addr oty s)) ty =
      callback_list_heads s ty"
    "callback_list_heads (snd (DECAF_unregisterOptimizedBlockBeginCallback h s)) ty = callback_list_heads s ty"
    "callback_list_heads (snd (DECAF_registerOptimizedBlockEndCallback fresh f c from to s)) ty =
      callback_list_heads s ty"
    "callback_list_heads (snd (DECAF_unregisterOptimizedBlockEndCallback h s)) ty = callback_list_heads s ty"
    "DECAF_registerOpcodeRangeCallbacks fresh f c start end_op s = Some (r, s') \<Longrightarrow>
      callback_list_heads s' ty = callback_list_heads s ty"
    "callback_list_heads (snd (DECAF_unregisterOpcodeRangeCallbacks h s)) ty = callback_list_heads s ty"
  using assms
  by (auto simp: plain_type_def DECAF_registerOptimizedBlockBeginCallback_def
      DECAF_unregisterOptimizedBlockBeginCallback_def DECAF_registerOptimizedBlockEndCallback_def
      DECAF_unregisterOptimizedBlockEndCallback_def DECAF_registerOpcodeRangeCallbacks_def
      DECAF_unregisterOpcodeRangeCallbacks_def Let_def
      split: OCB_t.splits option.splits prod.splits if_splits)

section \<open>Steps and runs\<close>

text \<open>
  A registration uses a structure that no list holds, as \<open>g_malloc\<close> returns, and the lists are
  shorter than the range of the 32-bit counters.  Page callbacks are registered at the address of
  a page.
\<close>

definition room :: "cbstate \<Rightarrow> bool" where
  "room s \<longleftrightarrow> length (callback_list_heads s DECAF_BLOCK_BEGIN_CB) < 2 ^ 32 - 1 \<and>
     length (callback_list_heads s DECAF_BLOCK_END_CB) < 2 ^ 32 - 1"

inductive registry_step :: "cbstate \<Rightarrow> cbstate \<Rightarrow> bool" where
  register_begin: "\<lbrakk>room s; unused (cb_handle fresh) s; ty \<in> {OCB_ALL, OCB_CONST, OCB_PAGE};
    ty = OCB_PAGE \<longrightarrow> page_of addr = addr\<rbrakk> \<Longrightarrow>
    registry_step s (snd (DECAF_registerOptimizedBlockBeginCallback fresh f c addr ty s))"
| unregister_begin: "registry_step s (snd (DECAF_unregisterOptimizedBlockBeginCallback h s))"
| register_end: "\<lbrakk>room s; unused (cb_handle fresh) s\<rbrakk> \<Longrightarrow>
    registry_step s (snd (DECAF_registerOptimizedBlockEndCallback fresh f c from to s))"
| unregister_end: "registry_step s (snd (DECAF_unregisterOptimizedBlockEndCallback h s))"
| register_range: "\<lbrakk>unused (cb_handle fresh) s;
    DECAF_registerOpcodeRangeCallbacks fresh f c start end_op s = Some (r, s')\<rbrakk> \<Longrightarrow> registry_step s s'"
| unregister_range: "registry_step s (snd (DECAF_unregisterOpcodeRangeCallbacks h s))"
| register_plain: "\<lbrakk>plain_type ty; unused (cb_handle fresh) s\<rbrakk> \<Longrightarrow>
    registry_step s (snd (DECAF_register_callback fresh ty f c s))"
| unregister_plain: "plain_type ty \<Longrightarrow> registry_step s (snd (DECAF_unregister_callback ty h s))"

text \<open>The static data before and after \<open>DECAF_callback_init\<close>.\<close>

definition static_zero :: cbstate where
  "static_zero = \<lparr>bEnableAllBlockBeginCallbacks = False, enableAllBlockBeginCallbacksCount = 0,
     bEnableAllBlockEndCallbacks = False, enableAllBlockEndCallbacksCount = 0,
     pOBBTable = None, pOBBPageTable = None, pOBEFromPageTable = None, pOBEToPageTable = None,
     pOBEPageMap = None, callback_list_heads = (\<lambda>_. []), instructionCallbacks = (\<lambda>_. None),
     flush_list_internal = \<lparr>flush_head = [], flush_size = 0\<rparr>\<rparr>"

definition boot :: cbstate where
  "boot = DECAF_callback_init static_zero"

definition registry_inv :: "cbstate \<Rightarrow> bool" where
  "registry_inv s \<longleftrightarrow> begin_inv s \<and> end_inv s \<and> opcode_inv s"

text \<open>What the translator is told about a block at \<open>pc\<close> changes only together with a flush of it.\<close>

definition cache_safe :: "u32 \<Rightarrow> cbstate \<Rightarrow> cbstate \<Rightarrow> bool" where
  "cache_safe pc s s' \<longleftrightarrow> coherent (DECAF_is_BlockBeginCallback_needed pc) pc s s' \<and>
     (\<forall>to. coherent (DECAF_is_BlockEndCallback_needed pc to) pc s s') \<and>
     (\<forall>ty. plain_type ty \<and> ty \<noteq> DECAF_TLB_EXEC_CB \<longrightarrow> coherent (DECAF_is_callback_needed ty) pc s s')"

lemma boot_inv: "registry_inv boot"
  by (simp add: registry_inv_def begin_inv_def end_inv_def opcode_inv_def boot_def
      DECAF_callback_init_def static_zero_def)

lemma coherent_plain:
  "\<exists>fs. pending s' = pending s @ fs \<Longrightarrow> (\<And>ty. plain_type ty \<Longrightarrow> callback_list_heads s' ty = callback_list_heads s ty) \<Longrightarrow>
     \<forall>ty. plain_type ty \<and> ty \<noteq> DECAF_TLB_EXEC_CB \<longrightarrow> coherent (DECAF_is_callback_needed ty) pc s s'"
  by (simp add: coherent_frame DECAF_is_callback_needed_def)

lemma coherent_view:
  assumes "\<exists>fs. pending s' = pending s @ fs"
  shows "begin_view s' = begin_view s \<Longrightarrow> coherent (DECAF_is_BlockBeginCallback_needed pc) pc s s'"
    "end_view s' = end_view s \<Longrightarrow> coherent (DECAF_is_BlockEndCallback_needed pc to) pc s s'"
  by (rule coherent_frame [OF assms begin_view_cong(2)], assumption)
    (rule coherent_frame [OF assms end_view_cong(2)])

lemma begin_step:
  assumes "registry_inv s" "begin_inv s' \<and> coherent (DECAF_is_BlockBeginCallback_needed pc) pc s s'"
    "end_view s' = end_view s" "opcode_view s' = opcode_view s" "\<exists>fs. pending s' = pending s @ fs"
    "\<And>ty. plain_type ty \<Longrightarrow> callback_list_heads s' ty = callback_list_heads s ty"
  shows "registry_inv s' \<and> cache_safe pc s s'"
  unfolding registry_inv_def cache_safe_def
  using assms(1) [unfolded registry_inv_def] assms(2) end_view_cong(1) [OF assms(3)]
    opcode_view_cong [OF assms(4)] coherent_view(2) [OF assms(5,3)] coherent_plain [OF assms(5,6)]
  by blast

lemma end_step:
  assumes "registry_inv s" "\<And>to. end_inv s' \<and> coherent (DECAF_is_BlockEndCallback_needed pc to) pc s s'"
    "begin_view s' = begin_view s" "opcode_view s' = opcode_view s" "\<exists>fs. pending s' = pending s @ fs"
    "\<And>ty. plain_type ty \<Longrightarrow> callback_list_heads s' ty = callback_list_heads s ty"
  shows "registry_inv s' \<and> cache_safe pc s s'"
  unfolding registry_inv_def cache_safe_def
  using assms(1) [unfolded registry_inv_def] assms(2) begin_view_cong(1) [OF assms(3)]
    opcode_view_cong [OF assms(4)] coherent_view(1) [OF assms(5,3)] coherent_plain [OF assms(5,6)]
  by blast

lemma other_step:
  assumes "registry_inv s" "opcode_inv s'" "begin_view s' = begin_view s" "end_view s' = end_view s"
    "\<exists>fs. pending s' = pending s @ fs"
    "\<forall>ty. plain_type ty \<and> ty \<noteq> DECAF_TLB_EXEC_CB \<longrightarrow> coherent (DECAF_is_callback_needed ty) pc s s'"
  shows "registry_inv s' \<and> cache_safe pc s s'"
  unfolding registry_inv_def cache_safe_def
  using assms(1) [unfolded registry_inv_def] assms(2,6) begin_view_cong(1) [OF assms(3)]
    end_view_cong(1) [OF assms(4)] coherent_view(1) [OF assms(5,3)] coherent_view(2) [OF assms(5,4)]
  by blast

lemma step_ok:
  assumes "registry_step s s'" "registry_inv s"
  shows "registry_inv s' \<and> cache_safe pc s s'"
  using assms(1)
proof cases
  case (register_begin fresh ty addr f c)
  have "begin_inv s" "length (callback_list_heads s DECAF_BLOCK_BEGIN_CB) < 2 ^ 32 - 1"
    using assms(2) register_begin(2) by (simp_all add: registry_inv_def room_def)
  note register_begin_ok [OF this register_begin(4,5,1), of pc]
  then show ?thesis
    unfolding register_begin(1)
    by (rule begin_step [OF assms(2) _ begin_ops_views(1,2) pending_begin_ops(1) plain_lists(1)])
next
  case (unregister_begin h)
  have "begin_inv s" using assms(2) by (simp add: registry_inv_def)
  note unregister_begin_ok [OF this unregister_begin, of pc]
  then show ?thesis
    unfolding unregister_begin
    by (rule begin_step [OF assms(2) _ begin_ops_views(3,4) pending_begin_ops(2) plain_lists(2)])
next
  case (register_end fresh f c src dst)
  have "end_inv s" "length (callback_list_heads s DECAF_BLOCK_END_CB) < 2 ^ 32 - 1"
    using assms(2) register_end(2) by (simp_all add: registry_inv_def room_def)
  note register_end_ok [OF this register_end(1), of pc]
  then show ?thesis
    unfolding register_end(1)
    by (rule end_step [OF assms(2) _ end_ops_views(1,2) pending_end_ops(1) plain_lists(3)])
next
  case (unregister_end h)
  have "end_inv s" using assms(2) by (simp add: registry_inv_def)
  note unregister_end_ok [OF this unregister_end, of pc]
  then show ?thesis
    unfolding unregister_end
    by (rule end_step [OF assms(2) _ end_ops_views(3,4) pending_end_ops(2) plain_lists(4)])
next
  case (register_range fresh f c start end_op r)
  have "opcode_inv s" using assms(2) by (simp add: registry_inv_def)
  note o = register_range_ok [OF this register_range]
  note v = range_ops_views(1) [OF register_range(2)] and p = pending_range_ops(1) [OF register_range(2)]
  show ?thesis
    by (rule other_step [OF assms(2) o v [THEN conjunct1] v [THEN conjunct2] p
          coherent_plain [OF p plain_lists(5) [OF _ register_range(2)]]])
next
  case (unregister_range h)
  have "opcode_inv s" using assms(2) by (simp add: registry_inv_def)
  note o = unregister_range_ok [OF this unregister_range]
  show ?thesis
    using o unfolding unregister_range
    by (rule other_step [OF assms(2) _ range_ops_views(2,3) pending_range_ops(2)
          coherent_plain [OF pending_range_ops(2) plain_lists(6)]])
next
  case (register_plain ty fresh f c)
  note v = plain_ops_views [OF register_plain(2)]
  have "opcode_inv s'"
    using assms(2) opcode_view_cong [OF v(3)] unfolding register_plain(1) registry_inv_def by blast
  then show ?thesis
    using plain_ops_coherent(1) [OF register_plain(2)] unfolding register_plain(1)
    by (intro other_step [OF assms(2) _ v(1,2) pending_plain_ops(1) [OF register_plain(2)]]) blast+
next
  case (unregister_plain ty h)
  note v = plain_ops_views [OF unregister_plain(2)]
  have "opcode_inv s'"
    using assms(2) opcode_view_cong [OF v(6)] unfolding unregister_plain(1) registry_inv_def by blast
  then show ?thesis
    using plain_ops_coherent(2) [OF unregister_plain(2)] unfolding unregister_plain(1)
    by (intro other_step [OF assms(2) _ v(4,5) pending_plain_ops(2) [OF unregister_plain(2)]]) blast+
qed



lemma reachable_inv: "registry_step\<^sup>*\<^sup>* boot s \<Longrightarrow> registry_inv s"
  by (induction rule: rtranclp_induct) (use boot_inv step_ok in blast)+


section \<open>Properties\<close>

text \<open>A callback structure as \<open>g_malloc\<close> may return it, and a run that registers two callbacks.\<close>

definition raw_cb :: "nat \<Rightarrow> callback_struct" where
  "raw_cb h = \<lparr>cb_handle = h, enabled = None, cb_from = 0, cb_to = 0, ocb_type = OCB_ALL, callback = 0\<rparr>"

definition example_run :: cbstate where
  "example_run =
     snd (DECAF_registerOptimizedBlockEndCallback (raw_cb 2) 200 None 0x1000 0x5000
       (snd (DECAF_registerOptimizedBlockBeginCallback (raw_cb 1) 100 None 0x1000 OCB_PAGE boot)))"

lemma init_simps:
  "callback_list_heads boot = (\<lambda>_. [])" "pOBBPageTable boot = Some (\<lambda>_. None)"
  "pOBBTable boot = Some (\<lambda>_. None)"
  "pOBEFromPageTable boot = Some (\<lambda>_. None)" "pOBEToPageTable boot = Some (\<lambda>_. None)"
  "pOBEPageMap boot = Some (\<lambda>_. None)" "bEnableAllBlockBeginCallbacks boot = False"
  "bEnableAllBlockEndCallbacks boot = False" "instructionCallbacks boot = (\<lambda>_. None)" "pending boot = []"
  by (simp_all add: boot_def DECAF_callback_init_def static_zero_def pending_def
      CountingHashtable_new_def CountingHashmap_new_def)

lemma page_1000: "page_of 0x1000 = 0x1000" "page_of 0x1234 = 0x1000"
  by (simp_all add: page_of_def mask_eq_exp_minus_1)

lemma example_reachable: "registry_step\<^sup>*\<^sup>* boot example_run"
proof -
  let ?s = "snd (DECAF_registerOptimizedBlockBeginCallback (raw_cb 1) 100 None 0x1000 OCB_PAGE boot)"
  have "registry_step boot ?s"
    by (rule register_begin) (simp_all add: room_def unused_def init_simps page_1000)
  moreover have "registry_step ?s example_run"
    unfolding example_run_def
    by (rule register_end)
      (simp_all add: room_def unused_def raw_cb_def init_simps DECAF_registerOptimizedBlockBeginCallback_def
        Let_def split: prod.split)
  ultimately show ?thesis by simp
qed



text \<open>
  C14.  In every reachable state \<open>DECAF_is_BlockEndCallback_needed\<close> holds of a transition if and only
  if some registered block-end callback asks for it, by its source page, its target page, both or
  neither; and a transition for which it holds is one at which the helper calls some callback.
\<close>

theorem block_end_needed_iff_wanted:
  assumes "registry_step\<^sup>*\<^sup>* boot s"
  shows "(DECAF_is_BlockEndCallback_needed from to s \<longleftrightarrow>
      (\<exists>cb\<in>set (callback_list_heads s DECAF_BLOCK_END_CB). wants_end from to cb)) \<and>
    (DECAF_is_BlockEndCallback_needed from to s \<longrightarrow>
      (\<exists>mem. helper_DECAF_invoke_block_end_callback (Some (e, to - base, base)) tb from mem s \<noteq> []))"
proof -
  have "end_inv s" using reachable_inv [OF assms] by (simp add: registry_inv_def)
  note n = end_needed [OF this]
  have e: "is_enabled (\<lambda>_. 1) cb" for cb by (simp add: is_enabled_def split: option.split)
  have m: "wants_end from to cb \<Longrightarrow> block_end_matches from to cb" for cb
    by (auto simp: wants_end_def block_end_matches_def)
  show ?thesis
    unfolding n helper_DECAF_invoke_block_end_callback_def invoke_loop_eq
    using e m by (auto simp: filter_empty_conv Let_def intro!: exI [of _ "\<lambda>_. 1"])
qed

theorem block_end_needed_iff_wanted_witness:
  "DECAF_is_BlockEndCallback_needed 0x1234 0x5008 example_run \<longleftrightarrow>
    (\<exists>cb\<in>set (callback_list_heads example_run DECAF_BLOCK_END_CB). wants_end 0x1234 0x5008 cb)"
  using block_end_needed_iff_wanted [OF example_reachable] by blast















text \<open>
  C37.  A page callback registered at an address that is not the address of a page leaks: the
  registration counts the page, the removal the address itself.  After the removal no callback is
  left, and the blocks of the page are still instrumented.
\<close>

theorem page_callback_leak:
  assumes "page_of addr \<noteq> addr"
    and "s1 = snd (DECAF_registerOptimizedBlockBeginCallback fresh f c addr OCB_PAGE boot)"
    and "s2 = snd (DECAF_unregisterOptimizedBlockBeginCallback (cb_handle fresh) s1)"
  shows "callback_list_heads s2 DECAF_BLOCK_BEGIN_CB = [] \<and> DECAF_is_BlockBeginCallback_needed addr s2"
  using assms
  by (simp add: DECAF_registerOptimizedBlockBeginCallback_def DECAF_unregisterOptimizedBlockBeginCallback_def
      DECAF_is_BlockBeginCallback_needed_def init_simps CountingHashtable_add_def CountingHashtable_remove_def
      CountingHashtable_exist_def CountingHashtable_count_def bracket_def Let_def word_gt_0)

theorem page_callback_leak_witness:
  "DECAF_is_BlockBeginCallback_needed 0x1234 (snd (DECAF_unregisterOptimizedBlockBeginCallback 7
     (snd (DECAF_registerOptimizedBlockBeginCallback (raw_cb 7) 1 None 0x1234 OCB_PAGE boot))))"
  using page_callback_leak [OF _ refl refl, of "0x1234" "raw_cb 7" 1 None] by (simp add: page_1000 raw_cb_def)

text \<open>
  C38.  A callback registered for one address is called at every block, because the registration
  turns \<open>OCB_CONST\<close> into \<open>OCB_ALL\<close> before it stores the type (as a comment there says); and a block-end callback registered for
  a source page alone is called at every transition, because the helper does not look at the
  source when there is no target.
\<close>

theorem const_and_source_callbacks_always_called:
  assumes "pOBEFromPageTable s \<noteq> None"
  shows "helper_DECAF_invoke_block_begin_callback (Some e) (Some (t, pc)) mem
      (snd (DECAF_registerOptimizedBlockBeginCallback fresh f None addr OCB_CONST s)) =
      (f, Some (cb_handle fresh), params_bb e t) #
        helper_DECAF_invoke_block_begin_callback (Some e) (Some (t, pc)) mem s \<and>
    helper_DECAF_invoke_block_end_callback (Some (e, eip, base)) tb cur mem
      (snd (DECAF_registerOptimizedBlockEndCallback fresh f None from INV_ADDR s)) =
      (f, Some (cb_handle fresh), params_be e tb cur (eip + base)) #
        helper_DECAF_invoke_block_end_callback (Some (e, eip, base)) tb cur mem s"
  using assms
  by (auto simp: helper_DECAF_invoke_block_begin_callback_def helper_DECAF_invoke_block_end_callback_def
      DECAF_registerOptimizedBlockBeginCallback_def DECAF_registerOptimizedBlockEndCallback_def
      Let_def is_enabled_def block_begin_matches_def block_end_matches_def split: prod.split)

theorem const_and_source_callbacks_always_called_witness:
  "helper_DECAF_invoke_block_begin_callback (Some 0) (Some (0, 0x9000)) (\<lambda>_. 0)
     (snd (DECAF_registerOptimizedBlockBeginCallback (raw_cb 4) 100 None 0x1000 OCB_CONST boot)) \<noteq> []"
  using const_and_source_callbacks_always_called [where s = boot and e = 0 and t = 0 and pc = "0x9000"
      and mem = "\<lambda>_. 0" and fresh = "raw_cb 4" and f = 100 and addr = "0x1000"]
  by (simp add: init_simps)

text \<open>
  C39.  The transition filter of opcode callbacks filters nothing: \<open>temp & (*enabled == 0)\<close> is zero
  whenever \<open>*enabled\<close> is not, so a registered callback is called for every transition whatever its
  condition holds.  And \<open>DECAF_unregister_callback\<close> applied to an opcode callback leaves the table
  pointing to the freed structure: the next dispatch of the opcode dereferences it.
\<close>

theorem opcode_filter_and_dangling:
  assumes "DECAF_registerOpcodeRangeCallbacks fresh f (Some p) op op s = Some (r, s')"
    and "op < 0x200" "unused (cb_handle fresh) s"
  shows "helper_DECAF_invoke_opcode_range_callback (Some e) eip next_eip (ucast op) mem s' =
      Some [(f, None, params_op e eip next_eip (ucast op))] \<and>
    helper_DECAF_invoke_opcode_range_callback (Some e) eip next_eip (ucast op) mem
      (snd (DECAF_unregister_callback DECAF_OPCODE_RANGE_CB (cb_handle fresh) s')) = None"
proof -
  let ?cb = "fresh\<lparr>callback := f, cb_from := ucast op, cb_to := ucast op, enabled := Some p\<rparr>"
  have o: "serialize_opcode op = op" "unat op < 0x200"
    using assms(2) by (simp_all add: serialize_opcode_def word_less_nat_alt word_le_nat_alt)
  have e: "callback_list_heads s' DECAF_OPCODE_RANGE_CB = ?cb # callback_list_heads s DECAF_OPCODE_RANGE_CB"
    "instructionCallbacks s' (unat op) = Some (cb_handle fresh)"
    using assms(1) o by (auto simp: DECAF_registerOpcodeRangeCallbacks_def Let_def split: if_splits)
  have "find_handle (cb_handle fresh) (callback_list_heads s DECAF_OPCODE_RANGE_CB) = None"
    using assms(3) unfolding unused_def find_handle_def find_None_iff by (metis imageI)
  then show ?thesis
    using o e by (auto simp: helper_DECAF_invoke_opcode_range_callback_def unat_ucast_u16
        DECAF_unregister_callback_def Let_def)
qed

theorem opcode_filter_and_dangling_witness:
  "\<exists>r s'. DECAF_registerOpcodeRangeCallbacks (raw_cb 5) 1 (Some 0) 0xcd 0xcd boot = Some (r, s') \<and>
     helper_DECAF_invoke_opcode_range_callback (Some 0) 0 0 (ucast (0xcd :: u16)) (\<lambda>_. 0)
       (snd (DECAF_unregister_callback DECAF_OPCODE_RANGE_CB 5 s')) = None"
proof -
  obtain r s' where "DECAF_registerOpcodeRangeCallbacks (raw_cb 5) 1 (Some 0) 0xcd 0xcd boot = Some (r, s')"
    by (simp add: DECAF_registerOpcodeRangeCallbacks_def serialize_opcode_def Let_def)
  with opcode_filter_and_dangling [OF this, of 0 0 0 "\<lambda>_. 0"] show ?thesis
    by (auto simp: unused_def init_simps raw_cb_def)
qed

end
