(* ===== verification/Pointer_Lists.thy ===== *)
theory Pointer_Lists
  imports Decaf_Prelude
begin

text \<open>
  Linked lists in memory.  A list is followed from a location (a head or the next field of a
  node) to nodes, each of which has a location of its own; \<open>path\<close> relates the pointers to the
  sequence of nodes.  The locale states what the loops that unlink a node from such a list have in
  common and proves once that they stop and remove the node.
\<close>

primrec path :: "('l \<Rightarrow> 'a option) \<Rightarrow> ('a \<Rightarrow> 'l) \<Rightarrow> 'l \<Rightarrow> 'a list \<Rightarrow> 'a option \<Rightarrow> bool" where
  "path m link l [] e \<longleftrightarrow> m l = e"
| "path m link l (a # as) e \<longleftrightarrow> m l = Some a \<and> path m link (link a) as e"

text \<open>The location that points to the node after a prefix.\<close>

primrec last_loc :: "('a \<Rightarrow> 'l) \<Rightarrow> 'l \<Rightarrow> 'a list \<Rightarrow> 'l" where
  "last_loc link l [] = l"
| "last_loc link l (a # as) = last_loc link (link a) as"

lemma path_append:
  "path m link l (xs @ ys) e \<longleftrightarrow> (if ys = [] then path m link l xs e
     else path m link l xs (Some (hd ys)) \<and> path m link (link (hd ys)) (tl ys) e)"
  by (induction xs arbitrary: l) (cases ys; auto)+

lemma last_loc_append [simp]: "last_loc link l (xs @ ys) = last_loc link (last_loc link l xs) ys"
  by (induction xs arbitrary: l) simp_all

lemma last_loc_cases: "last_loc link l xs = (if xs = [] then l else link (last xs))"
  by (induction xs arbitrary: l) auto

lemma path_end: "path m link l xs e \<Longrightarrow> m (last_loc link l xs) = e"
  by (induction xs arbitrary: l) auto

lemma path_update:
  "k \<notin> set (l # map link (butlast xs)) \<Longrightarrow> k \<noteq> last_loc link l xs \<Longrightarrow>
     path (m(k := v)) link l xs e \<longleftrightarrow> path m link l xs e"
  by (induction xs arbitrary: l) (auto split: if_splits)

lemma path_update_other:
  "k \<notin> insert l (link ` set xs) \<Longrightarrow> path (m(k := v)) link l xs e \<longleftrightarrow> path m link l xs e"
  by (induction xs arbitrary: l) auto

lemma path_cong:
  "(\<And>k. k \<in> insert l (link ` set xs) \<Longrightarrow> m k = m' k) \<Longrightarrow> path m link l xs e \<longleftrightarrow> path m' link l xs e"
  by (induction xs arbitrary: l) auto

lemma path_unique:
  "path m link l xs None \<Longrightarrow> path m link l ys None \<Longrightarrow> xs = ys"
proof (induction xs arbitrary: l ys)
  case Nil
  then show ?case by (cases ys) auto
next
  case (Cons a xs)
  then show ?case by (cases ys) auto
qed

text \<open>Unlinking a node: the pointer to it gets the value of its next field.\<close>

lemma path_unlink:
  assumes "path m link l (xs @ a # ys) e" "distinct (l # map link (xs @ a # ys))"
  shows "path (m(last_loc link l xs := m (link a))) link l (xs @ ys) e"
  using assms
proof (induction xs arbitrary: l)
  case Nil
  note prems = Nil
  show ?case
  proof (cases ys)
    case Nil
    with prems show ?thesis by simp
  next
    case (Cons b bs)
    have "path (m(l := m (link a))) link (link b) bs e"
      by (rule path_update_other [THEN iffD2]) (use prems Cons in auto)
    moreover have "m (link a) = Some b" using prems Cons by simp
    ultimately show ?thesis
      unfolding Cons last_loc.simps append_Nil path.simps fun_upd_same by blast
  qed
next
  case (Cons b xs)
  have "l \<noteq> last_loc link (link b) xs"
    using Cons.prems(2) by (auto simp: last_loc_cases)
  then show ?case using Cons by auto
qed

locale list_unlink =
  fixes get :: "'s \<Rightarrow> 'l \<Rightarrow> 'a option"
    and put :: "'s \<Rightarrow> 'l \<Rightarrow> 'a option \<Rightarrow> 's"
    and link :: "'a \<Rightarrow> 'l"
    and hit :: "'x \<Rightarrow> 'a \<Rightarrow> bool"
    and remove :: "'l \<Rightarrow> 'x \<Rightarrow> 's \<Rightarrow> 's option"
  assumes get_put: "get s l \<noteq> None \<Longrightarrow> get (put s l v) = (get s)(l := v)"
    and remove_step: "remove l x s = (case get s l of None \<Rightarrow> None
      | Some a \<Rightarrow> if hit x a then Some (put s l (get s (link a))) else remove (link a) x s)"
begin

lemma remove_found:
  assumes "path (get s) link l (xs @ a # ys) e" "\<forall>b\<in>set xs. \<not> hit x b" "hit x a"
  shows "remove l x s = Some (put s (last_loc link l xs) (get s (link a)))"
  using assms
proof (induction xs arbitrary: l)
  case Nil
  then show ?case by (subst remove_step) simp
next
  case (Cons b xs)
  then show ?case by (subst remove_step) simp
qed

lemma remove_absent:
  assumes "path (get s) link l xs None" "\<forall>b\<in>set xs. \<not> hit x b"
  shows "remove l x s = None"
  using assms
proof (induction xs arbitrary: l)
  case Nil
  then show ?case by (subst remove_step) simp
next
  case (Cons b xs)
  then show ?case by (subst remove_step) simp
qed

end

text \<open>Disjoint lists with a head each: unlinking a node of one leaves the others alone.\<close>

definition lists_at :: "('l \<Rightarrow> 'a option) \<Rightarrow> ('a \<Rightarrow> 'l) \<Rightarrow> ('i \<Rightarrow> 'l) \<Rightarrow> ('i \<Rightarrow> 'a list) \<Rightarrow> bool" where
  "lists_at m link head L \<longleftrightarrow> (\<forall>i. path m link (head i) (L i) None \<and> distinct (L i)) \<and>
     (\<forall>i j. i \<noteq> j \<longrightarrow> set (L i) \<inter> set (L j) = {})"

locale list_heads =
  fixes link :: "'a \<Rightarrow> 'l" and head :: "'i \<Rightarrow> 'l"
  assumes heads: "head i = head j \<longleftrightarrow> i = j" "link a = link b \<longleftrightarrow> a = b" "head i \<noteq> link a"
begin

lemma lists_at_unlink:
  assumes L: "lists_at m link head L" and i: "L i = xs @ a # ys"
  shows "lists_at (m(last_loc link (head i) xs := m (link a))) link head (L(i := xs @ ys))"
proof -
  let ?l = "last_loc link (head i) xs" and ?m = "m(last_loc link (head i) xs := m (link a))"
  have p: "path m link (head i) (xs @ a # ys) None" and d: "distinct (xs @ a # ys)"
    using L unfolding lists_at_def i [symmetric] by blast+
  have "distinct (head i # map link (xs @ a # ys))"
    using d heads by (auto simp: distinct_map inj_on_def)
  note u = path_unlink [OF p this]
  have "path ?m link (head j) (L j) None" if "j \<noteq> i" for j
  proof -
    have "set (L j) \<inter> set (L i) = {}" using L that by (auto simp: lists_at_def)
    then have "last xs \<notin> set (L j)" if "xs \<noteq> []" using last_in_set [OF that] i by auto
    then have "?l \<notin> insert (head j) (link ` set (L j))"
      using that heads heads(3) [symmetric] by (auto simp: last_loc_cases)
    then show ?thesis using L unfolding lists_at_def by (simp add: path_update_other)
  qed
  moreover have sub: "set ((L(i := xs @ ys)) j) \<subseteq> set (L j)" "distinct ((L(i := xs @ ys)) j)" for j
    using L d i unfolding lists_at_def by (auto split: if_splits)
  moreover have "set ((L(i := xs @ ys)) j) \<inter> set ((L(i := xs @ ys)) k) = {}" if "j \<noteq> k" for j k
  proof -
    have "set (L j) \<inter> set (L k) = {}" using L that unfolding lists_at_def by blast
    then show ?thesis using sub(1) [of j] sub(1) [of k] by blast
  qed
  ultimately show ?thesis using u unfolding lists_at_def by simp
qed

text \<open>Inserting a new node at the head of a list.\<close>

lemma lists_at_push:
  assumes L: "lists_at m link head L" and a: "\<And>j. a \<notin> set (L j)"
  shows "lists_at (m(link a := m (head i), head i := Some a)) link head (L(i := a # L i))"
proof -
  let ?m = "m(link a := m (head i), head i := Some a)"
  have p: "path m link (head j) (L j) None" for j using L by (simp add: lists_at_def)
  have "path ?m link (head j) (L j) None" if "j \<noteq> i" for j
  proof -
    have "link a \<notin> insert (head j) (link ` set (L j))" "head i \<notin> insert (head j) (link ` set (L j))"
      using that a heads heads(3) [symmetric] by auto
    then show ?thesis using p by (simp add: path_update_other)
  qed
  moreover have "path ?m link (link a) (L i) None"
  proof (cases "L i")
    case Nil
    then show ?thesis using p [of i] heads(3) [symmetric] by simp
  next
    case (Cons b bs)
    then have "link a \<notin> insert (link b) (link ` set bs)" "head i \<notin> insert (link b) (link ` set bs)"
      using a [of i] heads by auto
    then have "path ?m link (link b) bs None" using p [of i] Cons by (simp add: path_update_other)
    then show ?thesis using p [of i] Cons heads(3) [symmetric] by simp
  qed
  ultimately have "path ?m link (head j) ((L(i := a # L i)) j) None" for j by simp
  moreover have "distinct ((L(i := a # L i)) j)" for j using L a by (simp add: lists_at_def)
  moreover have "set ((L(i := a # L i)) j) \<inter> set ((L(i := a # L i)) k) = {}" if "j \<noteq> k" for j k
    using L a that by (auto simp: lists_at_def)
  ultimately show ?thesis unfolding lists_at_def by blast
qed

end

locale list_family = list_unlink get put link hit remove + list_heads link head
  for get :: "'s \<Rightarrow> 'l \<Rightarrow> 'a option" and put :: "'s \<Rightarrow> 'l \<Rightarrow> 'a option \<Rightarrow> 's" and link :: "'a \<Rightarrow> 'l"
    and hit :: "'x \<Rightarrow> 'a \<Rightarrow> bool" and remove :: "'l \<Rightarrow> 'x \<Rightarrow> 's \<Rightarrow> 's option" and head :: "'i \<Rightarrow> 'l"
begin

lemma family_remove:
  assumes L: "lists_at (get s) link head L"
    and i: "L i = xs @ a # ys" "\<forall>b\<in>set xs. \<not> hit x b" "hit x a"
  obtains s' where "remove (head i) x s = Some s'" "lists_at (get s') link head (L(i := xs @ ys))"
    "\<exists>l v. get s l \<noteq> None \<and> s' = put s l v"
proof -
  have p: "path (get s) link (head i) (xs @ a # ys) None"
    using L unfolding lists_at_def i(1) [symmetric] by blast
  have g: "get s (last_loc link (head i) xs) \<noteq> None" using p by (auto simp: path_append dest: path_end)
  show thesis
    using that [OF remove_found [OF p i(2,3)]] lists_at_unlink [OF L i(1)] g get_put [OF g] by auto
qed

end

end
