(* ===== verification/Code_Cache.thy ===== *)
theory Code_Cache
  imports Pointer_Lists
begin

text \<open>
  The cache of translated code: the translation blocks of exec.c with the structures that lead to
  them.  A block is an index into \<open>tbs\<close>; every field of \<open>struct TranslationBlock\<close> is a function of
  the index.  The pointers whose two low bits carry a tag (\<open>page_next\<close>, \<open>jmp_next\<close>, \<open>jmp_first\<close> and
  the heads of the page lists) are pairs of an index and the tag.

  The three-level map from page indices to page descriptors is the one of a 36-bit physical
  address space.  What the host code of a block jumps to at its exit \<open>n\<close> is \<open>jmp_target\<close>: the
  address that \<open>tb_set_jmp_target\<close> patches in.  A loop over a list that does not contain what it
  looks for dereferences a null pointer: the result is then \<open>None\<close>, as for a loop that does not end.
\<close>

section \<open>State\<close>

type_synonym tptr = "nat \<times> nat"

record PageDesc =
  first_tb :: "tptr option"
  code_write_count :: u32
  code_bitmap :: "(nat \<Rightarrow> u8) option"

type_synonym pd_ptr = "u64 \<times> u64 \<times> u64"

datatype tlb_event = tlb_protect_code u64 | tlb_unprotect_code_phys u64

record tbstate =
  tb_pc :: "nat \<Rightarrow> u32"
  tb_cs_base :: "nat \<Rightarrow> u32"
  tb_flags :: "nat \<Rightarrow> u64"
  tb_size :: "nat \<Rightarrow> u16"
  tb_cflags :: "nat \<Rightarrow> u16"
  tc_ptr :: "nat \<Rightarrow> u64"
  phys_hash_next :: "nat \<Rightarrow> nat option"
  page_next :: "tptr \<Rightarrow> tptr option"
  page_addr :: "tptr \<Rightarrow> u64"
  tb_next_offset :: "tptr \<Rightarrow> u16"
  jmp_next :: "tptr \<Rightarrow> tptr option"
  jmp_first :: "nat \<Rightarrow> tptr option"
  jmp_target :: "tptr \<Rightarrow> u64"
  tb_phys_hash :: "nat \<Rightarrow> nat option"
  l1_map :: "u64 \<Rightarrow> (u64 \<Rightarrow> (u64 \<Rightarrow> PageDesc) option) option"
  nb_tbs :: nat
  code_gen_max_blocks :: nat
  code_gen_buffer :: u64
  code_gen_buffer_size :: u64
  code_gen_buffer_max_size :: u64
  code_gen_ptr :: u64
  cpus :: "nat list"
  tb_jmp_cache :: "nat \<Rightarrow> nat \<Rightarrow> nat option"
  current_tb :: "nat \<Rightarrow> nat option"
  interrupt_request :: "nat \<Rightarrow> bool"
  tb_invalidated_flag :: bool
  tb_flush_count :: nat
  tb_phys_invalidate_count :: nat
  tlb_events :: "tlb_event list"

definition no_page :: u64 where
  "no_page = - 1"

definition tb_phys_hash_func :: "u64 \<Rightarrow> nat" where
  "tb_phys_hash_func pc = unat (drop_bit 2 pc AND mask 15)"

definition tb_jmp_cache_hash_page :: "u32 \<Rightarrow> nat" where
  "tb_jmp_cache_hash_page pc =
     (let tmp = pc XOR drop_bit 6 pc in unat (drop_bit 6 tmp AND 0xfc0))"

definition tb_jmp_cache_hash_func :: "u32 \<Rightarrow> nat" where
  "tb_jmp_cache_hash_func pc =
     (let tmp = pc XOR drop_bit 6 pc in unat ((drop_bit 6 tmp AND 0xfc0) OR (tmp AND 0x3f)))"

section \<open>Page descriptors\<close>

definition zero_page_desc :: PageDesc where
  "zero_page_desc = \<lparr>first_tb = None, code_write_count = 0, code_bitmap = None\<rparr>"

definition page_find_alloc :: "u64 \<Rightarrow> bool \<Rightarrow> tbstate \<Rightarrow> pd_ptr option \<times> tbstate" where
  "page_find_alloc index alloc s =
     (let a = drop_bit 20 index AND mask 4;
          b = drop_bit 10 index AND mask 10;
          c = index AND mask 10
      in if l1_map s a = None \<and> \<not> alloc then (None, s)
         else
           (let p = (case l1_map s a of None \<Rightarrow> (\<lambda>_. None) | Some p \<Rightarrow> p);
                s1 = s\<lparr>l1_map := (l1_map s)(a \<mapsto> p)\<rparr>
            in if p b = None \<and> \<not> alloc then (None, s1)
               else
                 (let pd = (case p b of None \<Rightarrow> (\<lambda>_. zero_page_desc) | Some pd \<Rightarrow> pd)
                  in (Some (a, b, c), s1\<lparr>l1_map := (l1_map s1)(a \<mapsto> p(b \<mapsto> pd))\<rparr>))))"

definition page_find :: "u64 \<Rightarrow> tbstate \<Rightarrow> pd_ptr option" where
  "page_find index s = fst (page_find_alloc index False s)"

definition get_pd :: "tbstate \<Rightarrow> pd_ptr \<Rightarrow> PageDesc" where
  "get_pd s = (\<lambda>(a, b, c). case l1_map s a of None \<Rightarrow> zero_page_desc
     | Some p \<Rightarrow> (case p b of None \<Rightarrow> zero_page_desc | Some pd \<Rightarrow> pd c))"

definition upd_pd :: "pd_ptr \<Rightarrow> (PageDesc \<Rightarrow> PageDesc) \<Rightarrow> tbstate \<Rightarrow> tbstate" where
  "upd_pd = (\<lambda>(a, b, c) f s. s\<lparr>l1_map := (l1_map s)(a := (case l1_map s a of None \<Rightarrow> None
     | Some p \<Rightarrow> Some (p(b := (case p b of None \<Rightarrow> None
         | Some pd \<Rightarrow> Some (pd(c := f (pd c))))))))\<rparr>)"

definition invalidate_page_bitmap :: "PageDesc \<Rightarrow> PageDesc" where
  "invalidate_page_bitmap p = p\<lparr>code_bitmap := None, code_write_count := 0\<rparr>"

definition page_flush_tb :: "tbstate \<Rightarrow> tbstate" where
  "page_flush_tb s = s\<lparr>l1_map := (\<lambda>a. map_option (\<lambda>p b. map_option (\<lambda>pd c.
     invalidate_page_bitmap ((pd c)\<lparr>first_tb := None\<rparr>)) (p b)) (l1_map s a))\<rparr>"

section \<open>Allocation and flush\<close>

definition tb_alloc :: "u32 \<Rightarrow> tbstate \<Rightarrow> nat option \<times> tbstate" where
  "tb_alloc pc s =
     (if nb_tbs s \<ge> code_gen_max_blocks s \<or>
         code_gen_ptr s - code_gen_buffer s \<ge> code_gen_buffer_max_size s then (None, s)
      else
        (let tb = nb_tbs s
         in (Some tb, s\<lparr>nb_tbs := nb_tbs s + 1, tb_pc := (tb_pc s)(tb := pc),
               tb_cflags := (tb_cflags s)(tb := 0)\<rparr>)))"

definition tb_free :: "nat \<Rightarrow> tbstate \<Rightarrow> tbstate" where
  "tb_free tb s =
     (if nb_tbs s > 0 \<and> tb = nb_tbs s - 1
      then s\<lparr>code_gen_ptr := tc_ptr s tb, nb_tbs := nb_tbs s - 1\<rparr>
      else s)"

definition tb_flush :: "tbstate \<Rightarrow> tbstate option" where
  "tb_flush s =
     (if code_gen_ptr s - code_gen_buffer s > code_gen_buffer_size s then None
      else
        (let s1 = s\<lparr>nb_tbs := 0,
                    tb_jmp_cache := (\<lambda>c. if c \<in> set (cpus s) then (\<lambda>_. None) else tb_jmp_cache s c),
                    tb_phys_hash := (\<lambda>_. None)\<rparr>;
             s2 = page_flush_tb s1
         in Some (s2\<lparr>code_gen_ptr := code_gen_buffer s2, tb_flush_count := tb_flush_count s2 + 1\<rparr>)))"

section \<open>Invalidation\<close>

datatype hash_loc = Bucket nat | Next nat

definition get_hash :: "tbstate \<Rightarrow> hash_loc \<Rightarrow> nat option" where
  "get_hash s l = (case l of Bucket h \<Rightarrow> tb_phys_hash s h | Next t \<Rightarrow> phys_hash_next s t)"

definition put_hash :: "tbstate \<Rightarrow> hash_loc \<Rightarrow> nat option \<Rightarrow> tbstate" where
  "put_hash s l v = (case l of
     Bucket h \<Rightarrow> s\<lparr>tb_phys_hash := (tb_phys_hash s)(h := v)\<rparr>
   | Next t \<Rightarrow> s\<lparr>phys_hash_next := (phys_hash_next s)(t := v)\<rparr>)"

partial_function (option) tb_remove :: "hash_loc \<Rightarrow> nat \<Rightarrow> tbstate \<Rightarrow> tbstate option" where
  "tb_remove ptb tb s = (case get_hash s ptb of
     None \<Rightarrow> None
   | Some tb1 \<Rightarrow>
       (if tb1 = tb then Some (put_hash s ptb (phys_hash_next s tb1))
        else tb_remove (Next tb1) tb s))"

datatype page_loc = First pd_ptr | PageNext tptr

definition get_page :: "tbstate \<Rightarrow> page_loc \<Rightarrow> tptr option" where
  "get_page s l = (case l of First p \<Rightarrow> first_tb (get_pd s p) | PageNext t \<Rightarrow> page_next s t)"

definition put_page :: "tbstate \<Rightarrow> page_loc \<Rightarrow> tptr option \<Rightarrow> tbstate" where
  "put_page s l v = (case l of
     First p \<Rightarrow> upd_pd p (\<lambda>d. d\<lparr>first_tb := v\<rparr>) s
   | PageNext t \<Rightarrow> s\<lparr>page_next := (page_next s)(t := v)\<rparr>)"

partial_function (option) tb_page_remove :: "page_loc \<Rightarrow> nat \<Rightarrow> tbstate \<Rightarrow> tbstate option" where
  "tb_page_remove ptb tb s = (case get_page s ptb of
     None \<Rightarrow> None
   | Some (tb1, n1) \<Rightarrow>
       (if tb1 = tb then Some (put_page s ptb (page_next s (tb1, n1)))
        else tb_page_remove (PageNext (tb1, n1)) tb s))"

text \<open>The link fields of the circular jump lists: tag 2 is \<open>jmp_first\<close>.\<close>

definition get_jmp :: "tbstate \<Rightarrow> tptr \<Rightarrow> tptr option" where
  "get_jmp s = (\<lambda>(t, n). if n = 2 then jmp_first s t else jmp_next s (t, n))"

definition put_jmp :: "tbstate \<Rightarrow> tptr \<Rightarrow> tptr option \<Rightarrow> tbstate" where
  "put_jmp s = (\<lambda>(t, n) v. if n = 2 then s\<lparr>jmp_first := (jmp_first s)(t := v)\<rparr>
     else s\<lparr>jmp_next := (jmp_next s)((t, n) := v)\<rparr>)"

partial_function (option) tb_jmp_unlink :: "tptr \<Rightarrow> tptr \<Rightarrow> tbstate \<Rightarrow> tbstate option" where
  "tb_jmp_unlink ptb x s = (case get_jmp s ptb of
     None \<Rightarrow> None
   | Some tb1 \<Rightarrow>
       (if tb1 = x then Some (put_jmp s ptb (get_jmp s tb1))
        else tb_jmp_unlink tb1 x s))"

definition tb_jmp_remove :: "nat \<Rightarrow> nat \<Rightarrow> tbstate \<Rightarrow> tbstate option" where
  "tb_jmp_remove tb n s =
     (if jmp_next s (tb, n) = None then Some s
      else do {
        s \<leftarrow> tb_jmp_unlink (tb, n) (tb, n) s;
        Some (s\<lparr>jmp_next := (jmp_next s)((tb, n) := None)\<rparr>)
      })"

definition tb_set_jmp_target :: "nat \<Rightarrow> nat \<Rightarrow> u64 \<Rightarrow> tbstate \<Rightarrow> tbstate" where
  "tb_set_jmp_target tb n addr s = s\<lparr>jmp_target := (jmp_target s)((tb, n) := addr)\<rparr>"

definition tb_reset_jump :: "nat \<Rightarrow> nat \<Rightarrow> tbstate \<Rightarrow> tbstate" where
  "tb_reset_jump tb n s = tb_set_jmp_target tb n (tc_ptr s tb + ucast (tb_next_offset s (tb, n))) s"

partial_function (option) tb_reset_jumps :: "tptr option \<Rightarrow> tbstate \<Rightarrow> tbstate option" where
  "tb_reset_jumps tb1 s = (case tb1 of
     None \<Rightarrow> None
   | Some (tb1, n1) \<Rightarrow>
       (if n1 = 2 then Some s
        else
          (let tb2 = jmp_next s (tb1, n1);
               s1 = tb_reset_jump tb1 n1 s
           in tb_reset_jumps tb2 (s1\<lparr>jmp_next := (jmp_next s1)((tb1, n1) := None)\<rparr>))))"

definition tb_unlink_page :: "nat \<Rightarrow> u64 \<Rightarrow> tbstate \<Rightarrow> tbstate option" where
  "tb_unlink_page tb addr s = do {
     p \<leftarrow> page_find (drop_bit 12 addr) s;
     s \<leftarrow> tb_page_remove (First p) tb s;
     Some (upd_pd p invalidate_page_bitmap s)
   }"

fun tb_jmp_cache_clear :: "nat list \<Rightarrow> nat \<Rightarrow> nat \<Rightarrow> tbstate \<Rightarrow> tbstate" where
  "tb_jmp_cache_clear [] h tb s = s"
| "tb_jmp_cache_clear (env # envs) h tb s =
     tb_jmp_cache_clear envs h tb
       (if tb_jmp_cache s env h = Some tb
        then s\<lparr>tb_jmp_cache := (tb_jmp_cache s)(env := (tb_jmp_cache s env)(h := None))\<rparr>
        else s)"

text \<open>The end of \<open>tb_phys_invalidate\<close>: the jumps out of the block and the jumps to it.\<close>

definition tb_unchain :: "nat \<Rightarrow> tbstate \<Rightarrow> tbstate option" where
  "tb_unchain tb s = do {
     s \<leftarrow> tb_jmp_remove tb 0 s;
     s \<leftarrow> tb_jmp_remove tb 1 s;
     s \<leftarrow> tb_reset_jumps (jmp_first s tb) s;
     Some (s\<lparr>jmp_first := (jmp_first s)(tb \<mapsto> (tb, 2)),
             tb_phys_invalidate_count := tb_phys_invalidate_count s + 1\<rparr>)
   }"

text \<open>Its beginning: the hash bucket and the page lists.\<close>

definition tb_unlink :: "nat \<Rightarrow> u64 \<Rightarrow> tbstate \<Rightarrow> tbstate option" where
  "tb_unlink tb addr s = do {
     let phys_pc = page_addr s (tb, 0) + ucast (tb_pc s tb AND mask 12);
     s \<leftarrow> tb_remove (Bucket (tb_phys_hash_func phys_pc)) tb s;
     s \<leftarrow> (if page_addr s (tb, 0) \<noteq> addr then tb_unlink_page tb (page_addr s (tb, 0)) s else Some s);
     (if page_addr s (tb, 1) \<noteq> no_page \<and> page_addr s (tb, 1) \<noteq> addr
      then tb_unlink_page tb (page_addr s (tb, 1)) s else Some s)
   }"

definition tb_phys_invalidate :: "nat \<Rightarrow> u64 \<Rightarrow> tbstate \<Rightarrow> tbstate option" where
  "tb_phys_invalidate tb addr s = do {
     s \<leftarrow> tb_unlink tb addr s;
     let s = s\<lparr>tb_invalidated_flag := True\<rparr>;
     let s = tb_jmp_cache_clear (cpus s) (tb_jmp_cache_hash_func (tb_pc s tb)) tb s;
     tb_unchain tb s
   }"

section \<open>Linking\<close>

definition tb_alloc_page :: "nat \<Rightarrow> nat \<Rightarrow> u64 \<Rightarrow> tbstate \<Rightarrow> tbstate option" where
  "tb_alloc_page tb n addr s =
     (case page_find_alloc (drop_bit 12 addr) True (s\<lparr>page_addr := (page_addr s)((tb, n) := addr)\<rparr>) of
        (None, s) \<Rightarrow> None
      | (Some p, s) \<Rightarrow>
          (let first = first_tb (get_pd s p);
               s1 = s\<lparr>page_next := (page_next s)((tb, n) := first)\<rparr>;
               s2 = upd_pd p (\<lambda>d. invalidate_page_bitmap (d\<lparr>first_tb := Some (tb, n)\<rparr>)) s1
           in Some (if first = None then s2\<lparr>tlb_events := tlb_events s2 @ [tlb_protect_code addr]\<rparr> else s2)))"

definition tb_link_page :: "nat \<Rightarrow> u64 \<Rightarrow> u64 \<Rightarrow> tbstate \<Rightarrow> tbstate option" where
  "tb_link_page tb phys_pc phys_page2 s = do {
     let h = tb_phys_hash_func phys_pc;
     let s = s\<lparr>phys_hash_next := (phys_hash_next s)(tb := tb_phys_hash s h)\<rparr>;
     let s = s\<lparr>tb_phys_hash := (tb_phys_hash s)(h \<mapsto> tb)\<rparr>;
     s \<leftarrow> tb_alloc_page tb 0 (phys_pc AND NOT (mask 12)) s;
     s \<leftarrow> (if phys_page2 \<noteq> no_page then tb_alloc_page tb 1 phys_page2 s
           else Some (s\<lparr>page_addr := (page_addr s)((tb, 1) := no_page)\<rparr>));
     let s = s\<lparr>jmp_first := (jmp_first s)(tb \<mapsto> (tb, 2))\<rparr>;
     let s = s\<lparr>jmp_next := (jmp_next s)((tb, 0) := None)\<rparr>;
     let s = s\<lparr>jmp_next := (jmp_next s)((tb, 1) := None)\<rparr>;
     let s = (if tb_next_offset s (tb, 0) \<noteq> 0xffff then tb_reset_jump tb 0 s else s);
     Some (if tb_next_offset s (tb, 1) \<noteq> 0xffff then tb_reset_jump tb 1 s else s)
   }"

definition tb_add_jump :: "nat \<Rightarrow> nat \<Rightarrow> nat \<Rightarrow> tbstate \<Rightarrow> tbstate" where
  "tb_add_jump tb n tb_next s =
     (if jmp_next s (tb, n) = None then
        (let s1 = tb_set_jmp_target tb n (tc_ptr s tb_next) s;
             s2 = s1\<lparr>jmp_next := (jmp_next s1)((tb, n) := jmp_first s1 tb_next)\<rparr>
         in s2\<lparr>jmp_first := (jmp_first s2)(tb_next \<mapsto> (tb, n))\<rparr>)
      else s)"

section \<open>Translation and lookup\<close>

text \<open>
  What \<open>cpu_gen_code\<close> reports of a block: the size of the host code, the size of the guest code and
  the offsets of the two exits.  \<open>get_page_addr_code\<close>, the translation of a guest address by the
  softmmu, and \<open>cpu_gen_code\<close> are parameters.
\<close>

record gen_result =
  gen_code_size :: u64
  gen_tb_size :: u16
  gen_next_offset :: "nat \<Rightarrow> u16"

text \<open>Allocating a block, after a flush when there is no room.\<close>

definition tb_alloc_retry :: "u32 \<Rightarrow> tbstate \<Rightarrow> (nat \<times> tbstate) option" where
  "tb_alloc_retry pc s = (case tb_alloc pc s of
       (Some tb, s) \<Rightarrow> Some (tb, s)
     | (None, s) \<Rightarrow> do {
         s \<leftarrow> tb_flush s;
         (case tb_alloc pc s of
            (None, s) \<Rightarrow> None
          | (Some tb, s) \<Rightarrow> Some (tb, s\<lparr>tb_invalidated_flag := True\<rparr>))
       })"

text \<open>Filling the block in and generating its code at \<open>code_gen_ptr\<close>.\<close>

definition tb_fill :: "(nat \<Rightarrow> tbstate \<Rightarrow> gen_result) \<Rightarrow> nat \<Rightarrow> u32 \<Rightarrow> u64 \<Rightarrow> u16 \<Rightarrow> tbstate \<Rightarrow> tbstate" where
  "tb_fill gen tb base flags cflags s =
     (let s = s\<lparr>tc_ptr := (tc_ptr s)(tb := code_gen_ptr s), tb_cs_base := (tb_cs_base s)(tb := base),
                tb_flags := (tb_flags s)(tb := flags), tb_cflags := (tb_cflags s)(tb := cflags)\<rparr>;
          g = gen tb s;
          s = s\<lparr>tb_size := (tb_size s)(tb := gen_tb_size g),
                tb_next_offset := (tb_next_offset s)((tb, 0) := gen_next_offset g 0, (tb, 1) := gen_next_offset g 1)\<rparr>
      in s\<lparr>code_gen_ptr := (code_gen_ptr s + gen_code_size g + 15) AND NOT (mask 4)\<rparr>)"

definition tb_gen_code ::
    "(u32 \<Rightarrow> u64) \<Rightarrow> (nat \<Rightarrow> tbstate \<Rightarrow> gen_result) \<Rightarrow> u32 \<Rightarrow> u32 \<Rightarrow> u64 \<Rightarrow> u16 \<Rightarrow> tbstate \<Rightarrow>
      (nat \<times> tbstate) option" where
  "tb_gen_code phys gen pc base flags cflags s = do {
     let phys_pc = phys pc;
     (tb, s) \<leftarrow> tb_alloc_retry pc s;
     let s = tb_fill gen tb base flags cflags s;
     let virt_page2 = (pc + ucast (tb_size s tb) - 1) AND NOT (mask 12);
     let phys_page2 = (if pc AND NOT (mask 12) \<noteq> virt_page2 then phys virt_page2 else no_page);
     s \<leftarrow> tb_link_page tb phys_pc phys_page2 s;
     Some (tb, s)
   }"

definition tb_matches :: "(u32 \<Rightarrow> u64) \<Rightarrow> u32 \<Rightarrow> u32 \<Rightarrow> u64 \<Rightarrow> tbstate \<Rightarrow> nat \<Rightarrow> bool" where
  "tb_matches phys pc base flags s tb \<longleftrightarrow>
     tb_pc s tb = pc \<and> page_addr s (tb, 0) = phys pc AND NOT (mask 12) \<and>
     tb_cs_base s tb = base \<and> tb_flags s tb = flags \<and>
     (page_addr s (tb, 1) \<noteq> no_page \<longrightarrow>
        page_addr s (tb, 1) = phys ((pc AND NOT (mask 12)) + 0x1000))"

partial_function (option) tb_find_loop ::
    "(nat \<Rightarrow> bool) \<Rightarrow> hash_loc \<Rightarrow> tbstate \<Rightarrow> (hash_loc \<times> nat option) option" where
  "tb_find_loop matches ptb1 s = (case get_hash s ptb1 of
     None \<Rightarrow> Some (ptb1, None)
   | Some tb \<Rightarrow> (if matches tb then Some (ptb1, Some tb) else tb_find_loop matches (Next tb) s))"

text \<open>The block that was found moves to the front of its chain.\<close>

definition tb_to_front :: "hash_loc \<Rightarrow> nat \<Rightarrow> nat \<Rightarrow> tbstate \<Rightarrow> tbstate" where
  "tb_to_front ptb1 h tb s =
     (if get_hash s ptb1 \<noteq> None
      then (let s = put_hash s ptb1 (phys_hash_next s tb);
                s = s\<lparr>phys_hash_next := (phys_hash_next s)(tb := tb_phys_hash s h)\<rparr>
            in s\<lparr>tb_phys_hash := (tb_phys_hash s)(h \<mapsto> tb)\<rparr>)
      else s)"

definition tb_find_slow ::
    "(u32 \<Rightarrow> u64) \<Rightarrow> (nat \<Rightarrow> tbstate \<Rightarrow> gen_result) \<Rightarrow> nat \<Rightarrow> u32 \<Rightarrow> u32 \<Rightarrow> u64 \<Rightarrow> tbstate \<Rightarrow>
      (nat \<times> tbstate) option" where
  "tb_find_slow phys gen env pc base flags s = do {
     let s = s\<lparr>tb_invalidated_flag := False\<rparr>;
     let h = tb_phys_hash_func (phys pc);
     (ptb1, found) \<leftarrow> tb_find_loop (tb_matches phys pc base flags s) (Bucket h) s;
     (tb, s) \<leftarrow> (case found of
         Some tb \<Rightarrow> Some (tb, s)
       | None \<Rightarrow> tb_gen_code phys gen pc base flags 0 s);
     let s = tb_to_front ptb1 h tb s;
     Some (tb, s\<lparr>tb_jmp_cache := (tb_jmp_cache s)(env :=
                   (tb_jmp_cache s env)(tb_jmp_cache_hash_func pc \<mapsto> tb))\<rparr>)
   }"

text \<open>
  The guest state that \<open>cpu_get_tb_cpu_state\<close> reads is an argument, with the flags widened to the 64
  bits of their field.
\<close>

definition tb_find_fast ::
    "(u32 \<Rightarrow> u64) \<Rightarrow> (nat \<Rightarrow> tbstate \<Rightarrow> gen_result) \<Rightarrow> nat \<Rightarrow> u32 \<Rightarrow> u32 \<Rightarrow> u64 \<Rightarrow> tbstate \<Rightarrow>
      (nat \<times> tbstate) option" where
  "tb_find_fast phys gen env pc base flags s =
     (case tb_jmp_cache s env (tb_jmp_cache_hash_func pc) of
        None \<Rightarrow> tb_find_slow phys gen env pc base flags s
      | Some tb \<Rightarrow>
          (if tb_pc s tb \<noteq> pc \<or> tb_cs_base s tb \<noteq> base \<or> tb_flags s tb \<noteq> flags
           then tb_find_slow phys gen env pc base flags s else Some (tb, s)))"

definition tlb_flush_jmp_cache :: "nat \<Rightarrow> u32 \<Rightarrow> tbstate \<Rightarrow> tbstate" where
  "tlb_flush_jmp_cache env addr s =
     (let clear = (\<lambda>i s. s\<lparr>tb_jmp_cache := (tb_jmp_cache s)(env := (\<lambda>j.
            if i \<le> j \<and> j < i + 64 then None else tb_jmp_cache s env j))\<rparr>)
      in clear (tb_jmp_cache_hash_page addr) (clear (tb_jmp_cache_hash_page (addr - 0x1000)) s))"

function tb_find_pc_loop :: "(nat \<Rightarrow> u64) \<Rightarrow> u64 \<Rightarrow> int \<Rightarrow> int \<Rightarrow> int" where
  "tb_find_pc_loop tcs ptr m_min m_max =
     (if m_min \<le> m_max then
        (let m = (m_min + m_max) div 2;
             v = tcs (nat m)
         in if v = ptr then m
            else if ptr < v then tb_find_pc_loop tcs ptr m_min (m - 1)
            else tb_find_pc_loop tcs ptr (m + 1) m_max)
      else m_max)"
  by pat_completeness auto

termination tb_find_pc_loop
  by (relation "measure (\<lambda>(tcs, ptr, m_min, m_max). nat (m_max - m_min + 1))") auto

declare tb_find_pc_loop.simps [simp del]

definition tb_find_pc :: "u64 \<Rightarrow> tbstate \<Rightarrow> nat option" where
  "tb_find_pc ptr s =
     (if nb_tbs s = 0 then None
      else if ptr < code_gen_buffer s \<or> ptr \<ge> code_gen_ptr s then None
      else Some (nat (tb_find_pc_loop (tc_ptr s) ptr 0 (int (nb_tbs s) - 1))))"

section \<open>Unchaining\<close>

partial_function (option) tb_jmp_head :: "tptr option \<Rightarrow> tbstate \<Rightarrow> nat option" where
  "tb_jmp_head tb1 s = (case tb1 of
     None \<Rightarrow> None
   | Some (tb1, n1) \<Rightarrow> (if n1 = 2 then Some tb1 else tb_jmp_head (jmp_next s (tb1, n1)) s))"

partial_function (option) tb_jmp_first_unlink :: "tptr \<Rightarrow> tptr \<Rightarrow> tbstate \<Rightarrow> tbstate option" where
  "tb_jmp_first_unlink ptb x s = (case get_jmp s ptb of
     None \<Rightarrow> None
   | Some tb1 \<Rightarrow>
       (if tb1 = x then Some (put_jmp s ptb (get_jmp s tb1))
        else if snd tb1 = 2 then None
        else tb_jmp_first_unlink tb1 x s))"

partial_function (option) tb_reset_jump_recursive2 :: "nat \<Rightarrow> nat \<Rightarrow> tbstate \<Rightarrow> tbstate option" where
  "tb_reset_jump_recursive2 tb n s =
     (if jmp_next s (tb, n) = None then Some s
      else do {
        tb_next \<leftarrow> tb_jmp_head (jmp_next s (tb, n)) s;
        s \<leftarrow> tb_jmp_first_unlink (tb_next, 2) (tb, n) s;
        let s = s\<lparr>jmp_next := (jmp_next s)((tb, n) := None)\<rparr>;
        let s = tb_reset_jump tb n s;
        s \<leftarrow> tb_reset_jump_recursive2 tb_next 0 s;
        tb_reset_jump_recursive2 tb_next 1 s
      })"

definition tb_reset_jump_recursive :: "nat \<Rightarrow> tbstate \<Rightarrow> tbstate option" where
  "tb_reset_jump_recursive tb s = do {
     s \<leftarrow> tb_reset_jump_recursive2 tb 0 s;
     tb_reset_jump_recursive2 tb 1 s
   }"

definition cpu_unlink_tb :: "nat \<Rightarrow> tbstate \<Rightarrow> tbstate option" where
  "cpu_unlink_tb env s = (case current_tb s env of
     None \<Rightarrow> Some s
   | Some tb \<Rightarrow> tb_reset_jump_recursive tb (s\<lparr>current_tb := (current_tb s)(env := None)\<rparr>))"

end
