(* ===== verification/Code_Cache_Inv.thy ===== *)
theory Code_Cache_Inv
  imports Code_Cache
begin

text \<open>
  The abstract code cache and its relation to the pointers.  Abstractly the cache is three
  families of lists: the blocks of each hash bucket, the (block, part) pairs of each physical page,
  and for each block the exits (block, number) that jump directly to it.  \<open>refines\<close> relates them to
  the pointer structures; the lemmas show that the loops which unlink a block stop and implement
  its removal from the lists.
\<close>

section \<open>The loops unlink from lists\<close>

interpretation hash_list: list_family get_hash put_hash Next "\<lambda>x a. a = x" tb_remove Bucket
proof unfold_locales
  show "get_hash (put_hash s l v) = (get_hash s)(l := v)" for s l v
    by (auto simp: fun_eq_iff get_hash_def put_hash_def split: hash_loc.splits)
  show "tb_remove l x s = (case get_hash s l of None \<Rightarrow> None
      | Some a \<Rightarrow> if a = x then Some (put_hash s l (get_hash s (Next a))) else tb_remove (Next a) x s)" for l x s
    by (subst tb_remove.simps) (simp add: get_hash_def split: option.split)
qed simp_all

lemma get_pd_upd:
  "first_tb (get_pd s p) \<noteq> None \<Longrightarrow> get_pd (upd_pd p f s) q = (if q = p then f (get_pd s p) else get_pd s q)"
  by (cases p; cases q) (auto simp: get_pd_def upd_pd_def zero_page_desc_def split: option.splits)

interpretation page_list: list_family get_page put_page PageNext "\<lambda>x a. fst a = x" tb_page_remove First
proof unfold_locales
  show "get_page s l \<noteq> None \<Longrightarrow> get_page (put_page s l v) = (get_page s)(l := v)" for s l v
    by (auto simp: fun_eq_iff get_page_def put_page_def get_pd_upd split: page_loc.splits)
      (auto simp: get_pd_def upd_pd_def split: option.splits)
  show "tb_page_remove l x s = (case get_page s l of None \<Rightarrow> None
      | Some a \<Rightarrow> if fst a = x then Some (put_page s l (get_page s (PageNext a)))
          else tb_page_remove (PageNext a) x s)" for l x s
    by (subst tb_page_remove.simps) (auto simp: get_page_def split: option.split)
qed simp_all

interpretation jump_list: list_unlink get_jmp put_jmp id "\<lambda>x a. a = x" tb_jmp_unlink
proof unfold_locales
  show "get_jmp (put_jmp s l v) = (get_jmp s)(l := v)" for s l v
    by (cases l) (auto simp: fun_eq_iff get_jmp_def put_jmp_def)
  show "tb_jmp_unlink l x s = (case get_jmp s l of None \<Rightarrow> None
      | Some a \<Rightarrow> if a = x then Some (put_jmp s l (get_jmp s (id a))) else tb_jmp_unlink (id a) x s)" for l x s
    by (subst tb_jmp_unlink.simps) (simp split: option.split)
qed

section \<open>The abstract cache\<close>

record acache =
  buckets :: "nat \<Rightarrow> nat list"
  plists :: "pd_ptr \<Rightarrow> tptr list"
  jumpers :: "nat \<Rightarrow> tptr list"

definition live :: "acache \<Rightarrow> nat set" where
  "live A = {t. \<exists>h. t \<in> set (buckets A h)}"

definition pkey :: "u64 \<Rightarrow> pd_ptr" where
  "pkey addr = (let i = drop_bit 12 addr
     in (drop_bit 20 i AND mask 4, drop_bit 10 i AND mask 10, i AND mask 10))"

definition tb_hash :: "tbstate \<Rightarrow> nat \<Rightarrow> nat" where
  "tb_hash s t = tb_phys_hash_func (page_addr s (t, 0) + ucast (tb_pc s t AND mask 12))"

definition page_present :: "tbstate \<Rightarrow> pd_ptr \<Rightarrow> bool" where
  "page_present s = (\<lambda>(a, b, c). case l1_map s a of None \<Rightarrow> False | Some p \<Rightarrow> p b \<noteq> None)"

text \<open>The parts of a block that are on pages.\<close>

definition on_page :: "tbstate \<Rightarrow> tptr \<Rightarrow> pd_ptr \<Rightarrow> bool" where
  "on_page s x p \<longleftrightarrow> (snd x = 0 \<or> snd x = 1 \<and> page_addr s x \<noteq> no_page) \<and> pkey (page_addr s x) = p"

definition hash_ok :: "tbstate \<Rightarrow> acache \<Rightarrow> bool" where
  "hash_ok s A \<longleftrightarrow> lists_at (get_hash s) Next Bucket (buckets A) \<and>
     (\<forall>h. \<forall>t\<in>set (buckets A h). tb_hash s t = h)"

definition page_ok :: "tbstate \<Rightarrow> acache \<Rightarrow> bool" where
  "page_ok s A \<longleftrightarrow> lists_at (get_page s) PageNext First (plists A) \<and>
     (\<forall>p. set (plists A p) = {x. fst x \<in> live A \<and> on_page s x p} \<and>
       (plists A p \<noteq> [] \<longrightarrow> page_present s p))"

text \<open>The exits that jump to a block are on a circular list through its \<open>jmp_first\<close>.\<close>

definition circular :: "(tptr \<Rightarrow> tptr option) \<Rightarrow> nat \<Rightarrow> (nat \<Rightarrow> tptr list) \<Rightarrow> bool" where
  "circular m n J \<longleftrightarrow>
     (\<forall>T<n. path m id (T, 2) (J T) (Some (T, 2)) \<and> distinct (J T) \<and>
        (\<forall>x\<in>set (J T). fst x < n \<and> snd x < 2)) \<and>
     (\<forall>T<n. \<forall>T'<n. T \<noteq> T' \<longrightarrow> set (J T) \<inter> set (J T') = {})"

definition jmp_lists :: "tbstate \<Rightarrow> (nat \<Rightarrow> tptr list) \<Rightarrow> bool" where
  "jmp_lists s J \<longleftrightarrow> circular (get_jmp s) (nb_tbs s) J \<and>
     (\<forall>x. fst x < nb_tbs s \<and> snd x < 2 \<longrightarrow> (jmp_next s x \<noteq> None \<longleftrightarrow> (\<exists>T<nb_tbs s. x \<in> set (J T))))"

definition jmp_ok :: "tbstate \<Rightarrow> acache \<Rightarrow> bool" where
  "jmp_ok s A \<longleftrightarrow> jmp_lists s (jumpers A) \<and>
     (\<forall>T<nb_tbs s. \<forall>x\<in>set (jumpers A T). jmp_target s x = tc_ptr s T) \<and>
     (\<forall>x. fst x \<in> live A \<and> snd x < 2 \<and> jmp_next s x = None \<and> tb_next_offset s x \<noteq> 0xffff \<longrightarrow>
        jmp_target s x = tc_ptr s (fst x) + ucast (tb_next_offset s x))"

definition jcache_ok :: "tbstate \<Rightarrow> acache \<Rightarrow> bool" where
  "jcache_ok s A \<longleftrightarrow> (\<forall>c\<in>set (cpus s). \<forall>h t. tb_jmp_cache s c h = Some t \<longrightarrow>
     t \<in> live A \<and> tb_jmp_cache_hash_func (tb_pc s t) = h)"

text \<open>A block holds some code, at most a page of it, and has a second page only when its code reaches there.\<close>

definition fits_pages :: "tbstate \<Rightarrow> nat \<Rightarrow> bool" where
  "fits_pages s t \<longleftrightarrow> 0 < tb_size s t \<and> tb_size s t \<le> 0x1000 \<and>
     (page_addr s (t, 1) \<noteq> no_page \<longrightarrow> 4096 < unat (tb_pc s t AND mask 12) + unat (tb_size s t))"

definition refines :: "tbstate \<Rightarrow> acache \<Rightarrow> bool" where
  "refines s A \<longleftrightarrow> (\<forall>t\<in>live A. t < nb_tbs s \<and> page_addr s (t, 0) AND mask 12 = 0 \<and> fits_pages s t) \<and>
     hash_ok s A \<and> page_ok s A \<and> jmp_ok s A \<and> jcache_ok s A"

text \<open>What each part of the relation depends on.\<close>

definition hash_view where "hash_view s = (tb_phys_hash s, phys_hash_next s)"
definition page_view where "page_view s = (page_next s, l1_map s)"
definition jmp_view where "jmp_view s = (jmp_next s, jmp_first s, jmp_target s)"
definition static_view where
  "static_view s = (tb_pc s, tb_cs_base s, tb_flags s, tb_size s, tb_cflags s, tc_ptr s, page_addr s,
     tb_next_offset s, nb_tbs s, cpus s, code_gen_max_blocks s, code_gen_buffer s, code_gen_buffer_size s,
     code_gen_buffer_max_size s, code_gen_ptr s)"

lemma view_cong:
  "hash_view s' = hash_view s \<Longrightarrow> get_hash s' = get_hash s"
  "page_view s' = page_view s \<Longrightarrow> get_page s' = get_page s"
  "page_view s' = page_view s \<Longrightarrow> page_present s' = page_present s"
  "page_view s' = page_view s \<Longrightarrow> page_find i s' = page_find i s"
  "jmp_view s' = jmp_view s \<Longrightarrow> get_jmp s' = get_jmp s"
  "static_view s' = static_view s \<Longrightarrow> tb_hash s' = tb_hash s"
  "static_view s' = static_view s \<Longrightarrow> on_page s' = on_page s"
  by (auto simp: fun_eq_iff hash_view_def page_view_def jmp_view_def static_view_def get_hash_def
      get_page_def get_jmp_def page_present_def page_find_def page_find_alloc_def get_pd_def tb_hash_def
      on_page_def Let_def split: hash_loc.split page_loc.split)

lemma ok_cong:
  "hash_view s' = hash_view s \<Longrightarrow> static_view s' = static_view s \<Longrightarrow> hash_ok s' A = hash_ok s A"
  "page_view s' = page_view s \<Longrightarrow> static_view s' = static_view s \<Longrightarrow> page_ok s' A = page_ok s A"
  "jmp_view s' = jmp_view s \<Longrightarrow> static_view s' = static_view s \<Longrightarrow> jmp_ok s' A = jmp_ok s A"
  "tb_jmp_cache s' = tb_jmp_cache s \<Longrightarrow> static_view s' = static_view s \<Longrightarrow> jcache_ok s' A = jcache_ok s A"
proof -
  assume v: "hash_view s' = hash_view s" "static_view s' = static_view s"
  show "hash_ok s' A = hash_ok s A"
    unfolding hash_ok_def view_cong(1) [OF v(1)] view_cong(6) [OF v(2)] ..
next
  assume v: "page_view s' = page_view s" "static_view s' = static_view s"
  show "page_ok s' A = page_ok s A"
    unfolding page_ok_def view_cong(2,3) [OF v(1)] view_cong(7) [OF v(2)] ..
next
  assume v: "jmp_view s' = jmp_view s" "static_view s' = static_view s"
  then have "get_jmp s' = get_jmp s" "jmp_next s' = jmp_next s" "jmp_target s' = jmp_target s"
    "nb_tbs s' = nb_tbs s" "tc_ptr s' = tc_ptr s" "tb_next_offset s' = tb_next_offset s"
    using view_cong(5) [OF v(1)] by (simp_all add: jmp_view_def static_view_def)
  then show "jmp_ok s' A = jmp_ok s A" unfolding jmp_ok_def jmp_lists_def by (simp only:)
next
  assume "tb_jmp_cache s' = tb_jmp_cache s" "static_view s' = static_view s"
  then show "jcache_ok s' A = jcache_ok s A" by (simp add: jcache_ok_def static_view_def)
qed

definition other_view where
  "other_view s = (current_tb s, interrupt_request s, tb_flush_count s, tlb_events s)"

lemmas all_views = hash_view_def page_view_def jmp_view_def static_view_def other_view_def

lemma put_hash_views:
  "page_view (put_hash s l v) = page_view s" "jmp_view (put_hash s l v) = jmp_view s"
  "static_view (put_hash s l v) = static_view s" "other_view (put_hash s l v) = other_view s"
  "tb_jmp_cache (put_hash s l v) = tb_jmp_cache s"
  by (simp_all add: put_hash_def all_views split: hash_loc.split)

lemma upd_pd_views:
  "hash_view (upd_pd p f s) = hash_view s" "jmp_view (upd_pd p f s) = jmp_view s"
  "static_view (upd_pd p f s) = static_view s" "other_view (upd_pd p f s) = other_view s"
  "tb_jmp_cache (upd_pd p f s) = tb_jmp_cache s" "page_next (upd_pd p f s) = page_next s"
  by (simp_all add: upd_pd_def all_views split: prod.split)

lemma put_page_views:
  "hash_view (put_page s l v) = hash_view s" "jmp_view (put_page s l v) = jmp_view s"
  "static_view (put_page s l v) = static_view s" "other_view (put_page s l v) = other_view s"
  "tb_jmp_cache (put_page s l v) = tb_jmp_cache s"
  by (simp_all add: put_page_def upd_pd_views split: page_loc.split) (simp_all add: all_views)

lemma put_jmp_views:
  "hash_view (put_jmp s l v) = hash_view s" "page_view (put_jmp s l v) = page_view s"
  "static_view (put_jmp s l v) = static_view s" "other_view (put_jmp s l v) = other_view s"
  "tb_jmp_cache (put_jmp s l v) = tb_jmp_cache s" "jmp_target (put_jmp s l v) = jmp_target s" "nb_tbs (put_jmp s l v) = nb_tbs s"
  "tb_invalidated_flag (put_jmp s l v) = tb_invalidated_flag s"
  by (simp_all add: put_jmp_def all_views split: prod.split)

section \<open>Removal from a hash bucket\<close>

lemma hash_remove:
  assumes "hash_ok s A" "t \<in> live A"
  obtains s' where "tb_remove (Bucket (tb_hash s t)) t s = Some s'"
    "hash_ok s' (A\<lparr>buckets := \<lambda>h. removeAll t (buckets A h)\<rparr>)"
    "page_view s' = page_view s" "jmp_view s' = jmp_view s" "static_view s' = static_view s"
    "other_view s' = other_view s" "tb_jmp_cache s' = tb_jmp_cache s"
proof -
  note ok = assms(1) [unfolded hash_ok_def]
  have t: "t \<in> set (buckets A (tb_hash s t))" using ok assms(2) by (auto simp: live_def)
  then obtain xs ys where xs: "buckets A (tb_hash s t) = xs @ t # ys" by (auto simp: in_set_conv_decomp)
  have d: "distinct (buckets A h)" for h using ok by (simp add: lists_at_def)
  have "\<forall>b\<in>set xs. b \<noteq> t" using d [of "tb_hash s t"] by (auto simp: xs)
  then obtain s' where s': "tb_remove (Bucket (tb_hash s t)) t s = Some s'"
      "lists_at (get_hash s') Next Bucket ((buckets A)(tb_hash s t := xs @ ys))"
      "\<exists>l v. get_hash s l \<noteq> None \<and> s' = put_hash s l v"
    using hash_list.family_remove [OF conjunct1 [OF ok] xs, of t] by blast
  have "removeAll t (buckets A h) = ((buckets A)(tb_hash s t := xs @ ys)) h" for h
  proof (cases "h = tb_hash s t")
    case True
    then show ?thesis using d [of h] by (simp add: xs)
  next
    case False
    then have "t \<notin> set (buckets A h)" using ok by auto
    then show ?thesis using False by simp
  qed
  then have eq: "(\<lambda>h. removeAll t (buckets A h)) = (buckets A)(tb_hash s t := xs @ ys)" by blast
  have v: "static_view s' = static_view s" using s'(3) put_hash_views by metis
  have "hash_ok s' (A\<lparr>buckets := \<lambda>h. removeAll t (buckets A h)\<rparr>)"
    using s'(2) ok unfolding hash_ok_def view_cong(6) [OF v] by (simp add: eq) (auto simp: xs)
  then show thesis using that s'(1,3) put_hash_views by metis
qed

section \<open>Removal from the page lists\<close>

lemma page_find_present: "page_present s (pkey addr) \<Longrightarrow> page_find (drop_bit 12 addr) s = Some (pkey addr)"
  by (auto simp: page_present_def pkey_def page_find_def page_find_alloc_def Let_def split: option.splits)

definition hits :: "nat \<Rightarrow> tptr list \<Rightarrow> nat" where
  "hits t L = length (filter (\<lambda>x. fst x = t) L)"

definition others :: "nat \<Rightarrow> tptr list \<Rightarrow> tptr list" where
  "others t L = filter (\<lambda>x. fst x \<noteq> t) L"

lemma no_hits: "hits t L = 0 \<Longrightarrow> others t L = L"
  by (induction L) (auto simp: hits_def others_def split: if_splits)

lemma first_hit:
  assumes "hits t L \<noteq> 0"
  obtains xs a ys where "L = xs @ a # ys" "\<forall>b\<in>set xs. fst b \<noteq> t" "fst a = t"
proof -
  have "\<exists>x\<in>set L. fst x = t" using assms by (auto simp: hits_def filter_empty_conv)
  then show thesis using that split_list_first_prop [of L "\<lambda>x. fst x = t"] by blast
qed

lemma upd_pd_present: "page_present (upd_pd p f s) = page_present s"
  by (rule ext) (auto simp: page_present_def upd_pd_def split: prod.split option.splits)

lemma put_page_present: "page_present (put_page s l v) = page_present s"
proof (cases l)
  case (First p)
  then show ?thesis by (simp add: put_page_def upd_pd_present)
next
  case (PageNext x)
  then show ?thesis by (simp add: put_page_def page_present_def)
qed

lemma get_page_upd_pd:
  "(\<And>d. first_tb (f d) = first_tb d) \<Longrightarrow> get_page (upd_pd p f s) = get_page s"
  by (auto simp: fun_eq_iff get_page_def get_pd_def upd_pd_def split: page_loc.split prod.split option.splits)

lemma unlink_page:
  assumes L: "lists_at (get_page s) PageNext First L" "page_present s (pkey addr)"
    and h: "hits t (L (pkey addr)) \<noteq> 0"
  obtains s' L' where "tb_unlink_page t addr s = Some s'" "lists_at (get_page s') PageNext First L'"
    "\<forall>q. others t (L' q) = others t (L q)"
    "\<forall>q. hits t (L' q) = (if q = pkey addr then hits t (L q) - 1 else hits t (L q))"
    "hash_view s' = hash_view s" "jmp_view s' = jmp_view s" "static_view s' = static_view s"
    "other_view s' = other_view s" "tb_jmp_cache s' = tb_jmp_cache s" "page_present s' = page_present s"
proof -
  let ?p = "pkey addr"
  obtain xs a ys where xs: "L ?p = xs @ a # ys" "\<forall>b\<in>set xs. fst b \<noteq> t" "fst a = t"
    using first_hit [OF h] .
  obtain s1 where s1: "tb_page_remove (First ?p) t s = Some s1"
      "lists_at (get_page s1) PageNext First (L(?p := xs @ ys))"
      "\<exists>l v. get_page s l \<noteq> None \<and> s1 = put_page s l v"
    using page_list.family_remove [OF L(1) xs] by blast
  let ?s = "upd_pd ?p invalidate_page_bitmap s1"
  have "get_page ?s = get_page s1"
    by (rule get_page_upd_pd) (simp add: invalidate_page_bitmap_def)
  moreover have "tb_unlink_page t addr s = Some ?s"
    using s1(1) page_find_present [OF L(2)] by (simp add: tb_unlink_page_def)
  moreover have "others t ((L(?p := xs @ ys)) q) = others t (L q)" for q
    using xs by (simp add: others_def)
  moreover have "hits t ((L(?p := xs @ ys)) q) = (if q = ?p then hits t (L q) - 1 else hits t (L q))" for q
    using xs by (simp add: hits_def)
  moreover obtain l v where "s1 = put_page s l v" using s1(3) by blast
  ultimately show thesis
    using that [of ?s "L(?p := xs @ ys)"] s1(2) by (simp add: upd_pd_views put_page_views upd_pd_present put_page_present)
qed

text \<open>Both parts of a block are unlinked, also when they are on the same page.\<close>

lemma page_hits:
  assumes "page_ok s A" "t \<in> live A"
  shows "hits t (plists A p) = (if pkey (page_addr s (t, 0)) = p then 1 else 0) +
    (if page_addr s (t, 1) \<noteq> no_page \<and> pkey (page_addr s (t, 1)) = p then 1 else 0)"
proof -
  have d: "distinct (plists A p)" and st: "set (plists A p) = {x. fst x \<in> live A \<and> on_page s x p}"
    using assms(1) unfolding page_ok_def lists_at_def by blast+
  have "hits t (plists A p) = card (set (filter (\<lambda>x. fst x = t) (plists A p)))"
    using distinct_card [OF distinct_filter [OF d]] by (simp add: hits_def)
  also have "set (filter (\<lambda>x. fst x = t) (plists A p)) =
      (if pkey (page_addr s (t, 0)) = p then {(t, 0)} else {}) \<union>
      (if page_addr s (t, 1) \<noteq> no_page \<and> pkey (page_addr s (t, 1)) = p then {(t, 1)} else {})"
    using assms(2) by (auto simp: st on_page_def) (metis gr0I)+
  finally show ?thesis by auto
qed

lemma page_remove_both:
  assumes ok: "page_ok s A" and t: "t \<in> live A"
  obtains s1 s2 where "tb_unlink_page t (page_addr s (t, 0)) s = Some s1"
    "(if page_addr s (t, 1) \<noteq> no_page then tb_unlink_page t (page_addr s (t, 1)) s1 else Some s1) = Some s2"
    "lists_at (get_page s2) PageNext First (\<lambda>p. others t (plists A p))"
    "hash_view s2 = hash_view s" "jmp_view s2 = jmp_view s" "static_view s2 = static_view s"
    "other_view s2 = other_view s" "tb_jmp_cache s2 = tb_jmp_cache s" "page_present s2 = page_present s"
    "static_view s1 = static_view s"
proof -
  let ?p0 = "pkey (page_addr s (t, 0))" and ?p1 = "pkey (page_addr s (t, 1))"
  note h = page_hits [OF ok t]
  have L: "lists_at (get_page s) PageNext First (plists A)" using ok by (simp add: page_ok_def)
  have pres: "hits t (plists A p) \<noteq> 0 \<Longrightarrow> page_present s p" for p
    using ok unfolding page_ok_def hits_def by (metis filter.simps(1) list.size(3))
  have a: "page_present s ?p0" "hits t (plists A ?p0) \<noteq> 0" using h [of ?p0] pres [of ?p0] by simp_all
  obtain s1 L1 where s1: "tb_unlink_page t (page_addr s (t, 0)) s = Some s1"
    "lists_at (get_page s1) PageNext First L1" "\<forall>q. others t (L1 q) = others t (plists A q)"
    "\<forall>q. hits t (L1 q) = (if q = ?p0 then hits t (plists A q) - 1 else hits t (plists A q))"
    "hash_view s1 = hash_view s" "jmp_view s1 = jmp_view s" "static_view s1 = static_view s"
    "other_view s1 = other_view s" "tb_jmp_cache s1 = tb_jmp_cache s" "page_present s1 = page_present s"
    by (rule unlink_page [OF L a]) (rule that; assumption)
  show thesis
  proof (cases "page_addr s (t, 1) \<noteq> no_page")
    case False
    have "hits t (L1 q) = 0" for q using s1(4) [rule_format, of q] h [of q] False by auto
    then have "L1 q = others t (plists A q)" for q using s1(3) [rule_format, of q] no_hits [of t "L1 q"] by simp
    then have "L1 = (\<lambda>p. others t (plists A p))" by blast
    then show thesis using that [of s1 s1] s1 False by simp
  next
    case True
    have "hits t (L1 ?p1) \<noteq> 0" using s1(4) [rule_format, of ?p1] h [of ?p1] True by auto
    moreover have "page_present s1 ?p1" unfolding s1(10) using pres [of ?p1] h [of ?p1] True by simp
    ultimately obtain s2 L2 where s2: "tb_unlink_page t (page_addr s (t, 1)) s1 = Some s2"
      "lists_at (get_page s2) PageNext First L2" "\<forall>q. others t (L2 q) = others t (L1 q)"
      "\<forall>q. hits t (L2 q) = (if q = ?p1 then hits t (L1 q) - 1 else hits t (L1 q))"
      "hash_view s2 = hash_view s1" "jmp_view s2 = jmp_view s1" "static_view s2 = static_view s1"
      "other_view s2 = other_view s1" "tb_jmp_cache s2 = tb_jmp_cache s1" "page_present s2 = page_present s1"
      using unlink_page [OF s1(2), of "page_addr s (t, 1)" t] by blast
    have "hits t (L2 q) = 0" for q using s2(4) [rule_format, of q] s1(4) [rule_format, of q] h [of q] True by auto
    then have "L2 q = others t (plists A q)" for q
      using s1(3) [rule_format, of q] s2(3) [rule_format, of q] no_hits [of t "L2 q"] by simp
    then have "L2 = (\<lambda>p. others t (plists A p))" by blast
    then show thesis using that [of s1 s2] s1 s2 True by simp
  qed
qed

section \<open>Removal from the jump lists\<close>

lemma jmp_next_get: "snd x < 2 \<Longrightarrow> get_jmp s x = jmp_next s x"
  by (auto simp: get_jmp_def split: prod.split)

lemma jmp_next_put: "snd x < 2 \<Longrightarrow> s\<lparr>jmp_next := (jmp_next s)(x := v)\<rparr> = put_jmp s x v"
  by (auto simp: put_jmp_def split: prod.split)

lemma get_jmp_put: "get_jmp (put_jmp s x v) = (get_jmp s)(x := v)"
  by (cases x) (auto simp: fun_eq_iff get_jmp_def put_jmp_def)

lemma circularD:
  assumes "circular m n J" "T < n"
  shows "path m id (T, 2) (J T) (Some (T, 2))" "distinct (J T)" "x \<in> set (J T) \<Longrightarrow> fst x < n \<and> snd x < 2"
    "(V, 2) \<notin> set (J T)" "U < n \<Longrightarrow> U \<noteq> T \<Longrightarrow> set (J U) \<inter> set (J T) = {}"
  using assms unfolding circular_def by fastforce+

lemma circular_cong: "(\<And>T. T < n \<Longrightarrow> J T = J' T) \<Longrightarrow> circular m n J = circular m n J'"
  unfolding circular_def by (simp cong: conj_cong)

text \<open>Unlinking an exit from the circular list it is on.\<close>

lemma circular_unlink:
  assumes C: "circular m n J" and T: "T < n" "J T = xs @ x # ys"
  shows "circular (m(last_loc id (T, 2) xs := m x, x := None)) n (\<lambda>U. removeAll x (J U))"
proof -
  let ?l = "last_loc id (T, 2) xs" and ?m = "m(last_loc id (T, 2) xs := m x, x := None)"
  note CT = circularD [OF C T(1)]
  have x: "x \<in> set (J T)" "snd x < 2" using CT(3) [of x] by (simp_all add: T(2))
  have l: "?l = (T, 2) \<or> ?l \<in> set (J T)"
    using last_in_set [of xs] by (cases "xs = []") (auto simp: last_loc_cases T(2))
  have d: "distinct (xs @ x # ys)" using CT(2) by (simp add: T(2))
  have "path ?m id (U, 2) (removeAll x (J U)) (Some (U, 2))" if U: "U < n" for U
  proof (cases "U = T")
    case True
    have "distinct ((T, 2) # map id (xs @ x # ys))" using d CT(4) [of T] by (auto simp: T(2))
    note q = path_unlink [OF CT(1) [unfolded T(2)] this]
    have "x \<notin> insert (T, 2) (id ` set (xs @ ys))" using d x by auto
    moreover have "removeAll x (J T) = xs @ ys" using d by (simp add: T(2))
    ultimately show ?thesis using q True by (simp add: path_update_other)
  next
    case False
    note CU = circularD [OF C U]
    have dj: "set (J U) \<inter> set (J T) = {}" using CT(5) [OF U False] .
    then have "?l \<notin> insert (U, 2) (id ` set (J U))" "x \<notin> insert (U, 2) (id ` set (J U))"
      using l x CU(4) CT(4) False by auto
    moreover have "x \<notin> set (J U)" using dj x(1) by blast
    ultimately show ?thesis using CU(1) by (simp add: path_update_other)
  qed
  then show ?thesis
    using C unfolding circular_def by (simp add: distinct_removeAll) blast
qed

text \<open>The loop of \<open>tb_jmp_remove\<close> goes once around the circular list that contains the exit.\<close>

lemma jmp_unlink:
  assumes C: "circular (get_jmp s) (nb_tbs s) J" and T: "T < nb_tbs s" "J T = xs @ x # ys"
  shows "tb_jmp_unlink x x s = Some (put_jmp s (last_loc id (T, 2) xs) (get_jmp s x))"
proof -
  note CT = circularD [OF C T(1), unfolded T(2)]
  have "path (get_jmp s) id x (ys @ (T, 2) # xs) (Some x)"
    using CT(1) by (cases ys) (auto simp: path_append)
  then have "path (get_jmp s) id x ((ys @ (T, 2) # xs) @ x # []) (get_jmp s x)"
    by (simp only: path_append) simp
  moreover have "\<forall>b\<in>set (ys @ (T, 2) # xs). b \<noteq> x" using CT(2,4) by auto
  ultimately have "tb_jmp_unlink x x s =
      Some (put_jmp s (last_loc id x (ys @ (T, 2) # xs)) (get_jmp s (id x)))"
    by (rule jump_list.remove_found) simp
  then show ?thesis by simp
qed

lemma jmp_remove:
  assumes J: "jmp_lists s J" and x: "fst x < nb_tbs s" "snd x < 2"
  obtains s' where "tb_jmp_remove (fst x) (snd x) s = Some s'" "jmp_lists s' (\<lambda>T. removeAll x (J T))"
    "hash_view s' = hash_view s" "page_view s' = page_view s" "static_view s' = static_view s"
    "other_view s' = other_view s" "tb_jmp_cache s' = tb_jmp_cache s" "jmp_target s' = jmp_target s"
    "\<forall>y. snd y < 2 \<longrightarrow> jmp_next s' y = None \<longleftrightarrow> jmp_next s y = None \<or> y = x"
    "tb_invalidated_flag s' = tb_invalidated_flag s"
proof (cases "jmp_next s x")
  case None
  then have nx: "x \<notin> set (J T)" if "T < nb_tbs s" for T using J x that unfolding jmp_lists_def by blast
  then have "circular (get_jmp s) (nb_tbs s) (\<lambda>T. removeAll x (J T)) = circular (get_jmp s) (nb_tbs s) J"
    by (intro circular_cong) simp
  moreover have "(\<exists>T<nb_tbs s. z \<in> set (removeAll x (J T))) \<longleftrightarrow> (\<exists>T<nb_tbs s. z \<in> set (J T))" for z
    using nx by auto
  ultimately have "jmp_lists s (\<lambda>T. removeAll x (J T))" using J unfolding jmp_lists_def by blast
  then show thesis using that [of s] None by (auto simp: tb_jmp_remove_def)
next
  case (Some y)
  have C: "circular (get_jmp s) (nb_tbs s) J" and
    N: "\<And>z. fst z < nb_tbs s \<Longrightarrow> snd z < 2 \<Longrightarrow> jmp_next s z \<noteq> None \<longleftrightarrow> (\<exists>T<nb_tbs s. z \<in> set (J T))"
    using J unfolding jmp_lists_def by blast+
  obtain T xs ys where T: "T < nb_tbs s" "J T = xs @ x # ys"
    using N [OF x] Some by (auto simp: in_set_conv_decomp)
  let ?l = "last_loc id (T, 2) xs"
  let ?s = "put_jmp (put_jmp s ?l (get_jmp s x)) x None"
  have r: "tb_jmp_remove (fst x) (snd x) s = Some ?s"
    using Some jmp_unlink [OF C T] jmp_next_put [OF x(2)] by (simp add: tb_jmp_remove_def)
  have g: "get_jmp ?s = (get_jmp s)(?l := get_jmp s x, x := None)" by (simp add: get_jmp_put)
  have nb: "nb_tbs ?s = nb_tbs s" by (simp add: put_jmp_views)
  have "?l = (T, 2) \<or> jmp_next s ?l \<noteq> None"
  proof (cases "xs = []")
    case False
    then have "last xs \<in> set (J T)" by (simp add: T(2))
    then show ?thesis using N [of "last xs"] circularD(3) [OF C T(1)] T(1) False by (auto simp: last_loc_cases)
  qed simp
  then have "jmp_next ?s z = None \<longleftrightarrow> jmp_next s z = None \<or> z = x" if "snd z < 2" for z
    using Some x(2) that jmp_next_get [OF that, of ?s] jmp_next_get [OF that, of s] jmp_next_get [OF x(2), of s]
    unfolding g by (auto split: if_splits)
  then have none: "\<forall>z. snd z < 2 \<longrightarrow> jmp_next ?s z = None \<longleftrightarrow> jmp_next s z = None \<or> z = x" by blast
  have "jmp_lists ?s (\<lambda>T. removeAll x (J T))"
    unfolding jmp_lists_def g nb
  proof (intro conjI allI impI)
    show "jmp_next ?s z \<noteq> None \<longleftrightarrow> (\<exists>U<nb_tbs s. z \<in> set (removeAll x (J U)))"
      if "fst z < nb_tbs s \<and> snd z < 2" for z
      using N [of z] none [rule_format, of z] that by auto
  qed (rule circular_unlink [OF C T])
  then show thesis using that [OF r] none by (simp add: put_jmp_views)
qed

end
