(* ===== verification/Code_Cache_Ops.thy ===== *)
theory Code_Cache_Ops
  imports Code_Cache_Inv
begin

text \<open>
  Invalidation of a block implements its removal from the lists of its bucket, of its pages and of
  the blocks it jumps to, and resets the jumps that lead to it.
\<close>

declare split_paired_All [simp del] split_paired_Ex [simp del]

section \<open>Invalidation\<close>

lemma reset_jumps:
  "path m id l xs (Some (tb, 2)) \<Longrightarrow> distinct xs \<Longrightarrow> \<forall>x\<in>set xs. snd x < 2 \<and> jmp_next s x = m x \<Longrightarrow>
   tb_reset_jumps (m l) s = Some (s\<lparr>jmp_next := (\<lambda>x. if x \<in> set xs then None else jmp_next s x),
     jmp_target := (\<lambda>x. if x \<in> set xs then tc_ptr s (fst x) + ucast (tb_next_offset s x) else jmp_target s x)\<rparr>)"
proof (induction xs arbitrary: l s)
  case Nil
  then show ?case by (subst tb_reset_jumps.simps) simp
next
  case (Cons x xs)
  let ?s = "(tb_reset_jump (fst x) (snd x) s)\<lparr>jmp_next := (jmp_next s)(x := None)\<rparr>"
  have "tb_reset_jumps (m l) s = tb_reset_jumps (m x) ?s"
    using Cons.prems
    by (subst tb_reset_jumps.simps) (auto simp: tb_reset_jump_def tb_set_jmp_target_def split: prod.split)
  also have "\<dots> = Some (?s\<lparr>jmp_next := (\<lambda>x. if x \<in> set xs then None else jmp_next ?s x),
     jmp_target := (\<lambda>x. if x \<in> set xs then tc_ptr ?s (fst x) + ucast (tb_next_offset ?s x) else jmp_target ?s x)\<rparr>)"
    using Cons.prems Cons.IH [of x ?s] by (auto simp: tb_reset_jump_def tb_set_jmp_target_def)
  also have "\<dots> = Some (s\<lparr>jmp_next := (\<lambda>y. if y \<in> set (x # xs) then None else jmp_next s y),
     jmp_target := (\<lambda>y. if y \<in> set (x # xs) then tc_ptr s (fst y) + ucast (tb_next_offset s y) else jmp_target s y)\<rparr>)"
    using Cons.prems(2)
    by (auto simp: tb_reset_jump_def tb_set_jmp_target_def fun_eq_iff intro!: tbstate.equality)
  finally show ?case .
qed

lemma jmp_cache_clear:
  "tb_jmp_cache_clear envs h tb s = s\<lparr>tb_jmp_cache := (\<lambda>c. if c \<in> set envs \<and> tb_jmp_cache s c h = Some tb
     then (tb_jmp_cache s c)(h := None) else tb_jmp_cache s c)\<rparr>"
proof (induction envs arbitrary: s)
  case (Cons env envs)
  show ?case unfolding tb_jmp_cache_clear.simps Cons
    by (rule tbstate.equality) (auto simp: fun_eq_iff)
qed simp

lemma removeAll_others:
  "\<forall>x\<in>set L. snd x < 2 \<Longrightarrow> removeAll (t, Suc 0) (removeAll (t, 0) L) = others t L"
  by (induction L) (auto simp: others_def less_2_cases_iff)

lemma others_simps [simp]: "set (others t L) = {x \<in> set L. fst x \<noteq> t}" "distinct L \<Longrightarrow> distinct (others t L)"
  by (auto simp: others_def)

definition stub :: "tbstate \<Rightarrow> tptr \<Rightarrow> u64" where
  "stub s x = tc_ptr s (fst x) + ucast (tb_next_offset s x)"

lemma static_fields:
  assumes "static_view s' = static_view s"
  shows "nb_tbs s' = nb_tbs s" "tc_ptr s' = tc_ptr s" "tb_next_offset s' = tb_next_offset s"
    "page_addr s' = page_addr s" "tb_pc s' = tb_pc s" "cpus s' = cpus s" "stub s' = stub s"
    "tb_cs_base s' = tb_cs_base s" "tb_flags s' = tb_flags s" "tb_size s' = tb_size s"
  using assms by (simp_all add: static_view_def stub_def fun_eq_iff)

lemma circular_drop:
  assumes C: "circular m n J" and t: "t < n" and J': "\<And>x. x \<in> set (J t) \<Longrightarrow> m' x = None"
    and m': "m' (t, 2) = Some (t, 2)" "\<And>x. x \<notin> insert (t, 2) (set (J t)) \<Longrightarrow> m' x = m x"
  shows "circular m' n (J(t := []))"
proof -
  have "path m' id (U, 2) (J U) (Some (U, 2))" if U: "U < n" "U \<noteq> t" for U
  proof -
    have "m x = m' x" if "x \<in> insert (U, 2) (id ` set (J U))" for x
    proof -
      have "set (J U) \<inter> set (J t) = {}" using circularD(5) [OF C t U] .
      moreover have "(U, 2) \<notin> set (J t)" "(t, 2) \<notin> set (J U)"
        using circularD(4) [OF C t] circularD(4) [OF C U(1)] by blast+
      ultimately have "x \<notin> insert (t, 2) (set (J t))" using that U(2) by auto
      then show ?thesis using m'(2) by simp
    qed
    then show ?thesis using path_cong [of "(U, 2)" id "J U" m m'] circularD(1) [OF C U(1)] by blast
  qed
  then show ?thesis using C m'(1) unfolding circular_def by auto
qed

lemma jmp_lists_cong:
  assumes "jmp_lists s J" "\<And>T. T < nb_tbs s \<Longrightarrow> J T = J' T"
  shows "jmp_lists s J'"
proof -
  have "circular (get_jmp s) (nb_tbs s) J = circular (get_jmp s) (nb_tbs s) J'"
    by (rule circular_cong) (rule assms(2))
  moreover have "(\<exists>T<nb_tbs s. x \<in> set (J T)) \<longleftrightarrow> (\<exists>T<nb_tbs s. x \<in> set (J' T))" for x
    using assms(2) by auto
  ultimately show ?thesis using assms(1) unfolding jmp_lists_def by blast
qed

text \<open>The last part: no exit jumps to the block any more.\<close>

lemma reset_lists:
  assumes J: "jmp_lists s J" and t: "t < nb_tbs s"
    and s': "s' = s\<lparr>jmp_next := (\<lambda>x. if x \<in> set (J t) then None else jmp_next s x),
      jmp_target := (\<lambda>x. if x \<in> set (J t) then tc_ptr s (fst x) + ucast (tb_next_offset s x) else jmp_target s x),
      jmp_first := (jmp_first s)(t \<mapsto> (t, 2)), tb_phys_invalidate_count := n\<rparr>"
  shows "tb_reset_jumps (jmp_first s t) s = Some (s\<lparr>jmp_next := jmp_next s', jmp_target := jmp_target s'\<rparr>)"
    "jmp_lists s' (J(t := []))"
proof -
  have C: "circular (get_jmp s) (nb_tbs s) J" and
    N: "\<And>x. fst x < nb_tbs s \<Longrightarrow> snd x < 2 \<Longrightarrow> jmp_next s x \<noteq> None \<longleftrightarrow> (\<exists>T<nb_tbs s. x \<in> set (J T))"
    using J unfolding jmp_lists_def by blast+
  note Ct = circularD [OF C t]
  have "\<forall>x\<in>set (J t). snd x < 2 \<and> jmp_next s x = get_jmp s x" using Ct(3) by (simp add: jmp_next_get)
  from reset_jumps [OF Ct(1,2) this]
  show "tb_reset_jumps (jmp_first s t) s = Some (s\<lparr>jmp_next := jmp_next s', jmp_target := jmp_target s'\<rparr>)"
    by (simp add: s' get_jmp_def)
  have g: "get_jmp s' x = (if x = (t, 2) then Some (t, 2) else if x \<in> set (J t) then None else get_jmp s x)" for x
    using Ct(4) by (cases x) (auto simp: s' get_jmp_def)
  have "circular (get_jmp s') (nb_tbs s) (J(t := []))"
    using Ct(4) by (intro circular_drop [OF C t]) (auto simp: g)
  moreover have "jmp_next s' x \<noteq> None \<longleftrightarrow> (\<exists>T<nb_tbs s. x \<in> set ((J(t := [])) T))"
    if "fst x < nb_tbs s" "snd x < 2" for x
  proof -
    have "jmp_next s' x \<noteq> None \<longleftrightarrow> x \<notin> set (J t) \<and> (\<exists>T<nb_tbs s. x \<in> set (J T))"
      using N [OF that] by (simp add: s')
    moreover have "x \<notin> set (J t)" if "x \<in> set (J T)" "T < nb_tbs s" "T \<noteq> t" for T
      using Ct(5) [OF that(2,3)] that(1) by blast
    ultimately have "jmp_next s' x \<noteq> None \<longleftrightarrow> (\<exists>T<nb_tbs s. T \<noteq> t \<and> x \<in> set (J T))" by blast
    also have "\<dots> \<longleftrightarrow> (\<exists>T<nb_tbs s. x \<in> set ((J(t := [])) T))" by auto
    finally show ?thesis .
  qed
  ultimately show "jmp_lists s' (J(t := []))" unfolding jmp_lists_def by (simp add: s')
qed

lemma unchain_lists:
  assumes J: "jmp_lists s J" and t: "t < nb_tbs s"
  obtains s' where "tb_unchain t s = Some s'" "jmp_lists s' ((\<lambda>T. others t (J T))(t := []))"
    "hash_view s' = hash_view s" "page_view s' = page_view s" "static_view s' = static_view s"
    "other_view s' = other_view s" "tb_jmp_cache s' = tb_jmp_cache s"
    "\<forall>x. jmp_target s' x = (if x \<in> set (others t (J t)) then stub s x else jmp_target s x)"
    "\<forall>x. snd x < 2 \<longrightarrow> jmp_next s' x = None \<longleftrightarrow> jmp_next s x = None \<or> fst x = t \<or> x \<in> set (J t)"
    "tb_invalidated_flag s' = tb_invalidated_flag s"
proof -
  obtain s1 where s1: "tb_jmp_remove t 0 s = Some s1" "jmp_lists s1 (\<lambda>T. removeAll (t, 0) (J T))"
    "hash_view s1 = hash_view s" "page_view s1 = page_view s" "static_view s1 = static_view s"
    "other_view s1 = other_view s" "tb_jmp_cache s1 = tb_jmp_cache s" "jmp_target s1 = jmp_target s"
    "\<forall>y. snd y < 2 \<longrightarrow> jmp_next s1 y = None \<longleftrightarrow> jmp_next s y = None \<or> y = (t, 0)"
    "tb_invalidated_flag s1 = tb_invalidated_flag s"
    using jmp_remove [OF J, of "(t, 0)"] t by auto
  have t1: "t < nb_tbs s1" using t static_fields(1) [OF s1(5)] by simp
  obtain s2 where s2: "tb_jmp_remove t 1 s1 = Some s2" "jmp_lists s2 (\<lambda>T. removeAll (t, 1) (removeAll (t, 0) (J T)))"
    "hash_view s2 = hash_view s1" "page_view s2 = page_view s1" "static_view s2 = static_view s1"
    "other_view s2 = other_view s1" "tb_jmp_cache s2 = tb_jmp_cache s1" "jmp_target s2 = jmp_target s1"
    "\<forall>y. snd y < 2 \<longrightarrow> jmp_next s2 y = None \<longleftrightarrow> jmp_next s1 y = None \<or> y = (t, 1)"
    "tb_invalidated_flag s2 = tb_invalidated_flag s1"
    using jmp_remove [OF s1(2), of "(t, 1)"] t1 by auto
  have v2: "static_view s2 = static_view s" using s1(5) s2(5) by simp
  note st = static_fields [OF v2]
  have "\<forall>x\<in>set (J T). snd x < 2" if "T < nb_tbs s" for T
    using J circularD(3) that unfolding jmp_lists_def by blast
  then have J2: "jmp_lists s2 (\<lambda>T. others t (J T))"
    using jmp_lists_cong [OF s2(2), of "\<lambda>T. others t (J T)"] removeAll_others st(1) by simp
  define s' where "s' = s2\<lparr>jmp_next := (\<lambda>x. if x \<in> set (others t (J t)) then None else jmp_next s2 x),
      jmp_target := (\<lambda>x. if x \<in> set (others t (J t)) then tc_ptr s2 (fst x) + ucast (tb_next_offset s2 x)
        else jmp_target s2 x),
      jmp_first := (jmp_first s2)(t \<mapsto> (t, 2)), tb_phys_invalidate_count := tb_phys_invalidate_count s2 + 1\<rparr>"
  have t2: "t < nb_tbs s2" using t st(1) by simp
  note r = reset_lists [OF J2 t2 s'_def]
  have "tb_unchain t s = Some s'"
    using s1(1) s2(1) r(1) by (simp add: tb_unchain_def) (simp add: s'_def)
  moreover have "jmp_target s' x = (if x \<in> set (others t (J t)) then stub s x else jmp_target s x)" for x
    using st s1(8) s2(8) by (simp add: s'_def stub_def)
  moreover have "jmp_next s' x = None \<longleftrightarrow> jmp_next s x = None \<or> fst x = t \<or> x \<in> set (J t)"
    if "snd x < 2" for x
    using s1(9) [rule_format, OF that] s2(9) [rule_format, OF that] that
    by (auto simp: s'_def less_2_cases_iff prod_eq_iff)
  moreover have "hash_view s' = hash_view s2" "page_view s' = page_view s2" "static_view s' = static_view s2"
    "other_view s' = other_view s2" "tb_jmp_cache s' = tb_jmp_cache s2"
    "tb_invalidated_flag s' = tb_invalidated_flag s2"
    by (simp_all add: s'_def all_views)
  ultimately show thesis using that [of s'] r(2) s1(3-7,10) s2(3-7,10) by simp
qed

text \<open>The abstract effect of removing a block.\<close>

definition kill :: "nat \<Rightarrow> acache \<Rightarrow> acache" where
  "kill t A = \<lparr>buckets = (\<lambda>h. removeAll t (buckets A h)), plists = (\<lambda>p. others t (plists A p)),
     jumpers = (\<lambda>T. others t (jumpers A T))(t := [])\<rparr>"

lemma kill_simps [simp]:
  "buckets (kill t A) = (\<lambda>h. removeAll t (buckets A h))" "plists (kill t A) = (\<lambda>p. others t (plists A p))"
  "jumpers (kill t A) = (\<lambda>T. others t (jumpers A T))(t := [])"
  by (simp_all add: kill_def)

lemma live_kill [simp]: "live (kill t A) = live A - {t}"
  by (auto simp: live_def kill_def)

lemma aligned_page: "page AND mask 12 = 0 \<Longrightarrow> page \<noteq> no_page"
  by (auto simp: no_page_def mask_eq_exp_minus_1)

lemma kill_page_ok:
  assumes "page_ok s A" "lists_at (get_page s') PageNext First (\<lambda>p. others t (plists A p))"
    "page_present s' = page_present s" "static_view s' = static_view s"
  shows "page_ok s' (kill t A)"
proof -
  have "set (plists A p) = {x. fst x \<in> live A \<and> on_page s x p}" "plists A p \<noteq> [] \<Longrightarrow> page_present s p" for p
    using assms(1) unfolding page_ok_def by blast+
  moreover have "others t (plists A p) \<noteq> [] \<Longrightarrow> plists A p \<noteq> []" for p by (auto simp: others_def)
  ultimately show ?thesis
    using assms(2) unfolding page_ok_def assms(3) view_cong(7) [OF assms(4)] live_kill kill_simps others_simps
    by auto
qed

lemma kill_jcache_ok:
  assumes "jcache_ok s A" "tb_jmp_cache s' = (\<lambda>c. if c \<in> set (cpus s) \<and>
      tb_jmp_cache s c (tb_jmp_cache_hash_func (tb_pc s t)) = Some t
      then (tb_jmp_cache s c)(tb_jmp_cache_hash_func (tb_pc s t) := None) else tb_jmp_cache s c)"
    and v: "static_view s' = static_view s"
  shows "jcache_ok s' (kill t A)"
  unfolding jcache_ok_def static_fields [OF v] live_kill
proof (intro ballI allI impI)
  fix c h u
  assume c: "c \<in> set (cpus s)" and u: "tb_jmp_cache s' c h = Some u"
  then have "tb_jmp_cache s c h = Some u" by (auto simp: assms(2) split: if_splits)
  then have "u \<in> live A \<and> tb_jmp_cache_hash_func (tb_pc s u) = h"
    using assms(1) c unfolding jcache_ok_def by blast
  then show "u \<in> live A - {t} \<and> tb_jmp_cache_hash_func (tb_pc s u) = h"
    using u c by (auto simp: assms(2) split: if_splits)
qed

lemma kill_jmp_ok:
  assumes ok: "jmp_ok s A" and t: "t < nb_tbs s" and v: "static_view s' = static_view s"
    and J: "jmp_lists s' ((\<lambda>T. others t (jumpers A T))(t := []))"
    and tgt: "\<forall>x. jmp_target s' x = (if x \<in> set (others t (jumpers A t)) then stub s x else jmp_target s x)"
    and nxt: "\<forall>x. snd x < 2 \<longrightarrow> jmp_next s' x = None \<longleftrightarrow>
      jmp_next s x = None \<or> fst x = t \<or> x \<in> set (jumpers A t)"
  shows "jmp_ok s' (kill t A)"
proof -
  have C: "circular (get_jmp s) (nb_tbs s) (jumpers A)" using ok by (simp add: jmp_ok_def jmp_lists_def)
  have "jmp_target s' x = tc_ptr s T" if "T < nb_tbs s" "T \<noteq> t" "x \<in> set (others t (jumpers A T))" for T x
  proof -
    have "x \<notin> set (jumpers A t)" using circularD(5) [OF C t that(1,2)] that(3) by auto
    then show ?thesis using ok that tgt [rule_format, of x] unfolding jmp_ok_def by auto
  qed
  moreover have "jmp_target s' x = stub s x"
    if "fst x \<in> live A - {t}" "snd x < 2" "jmp_next s' x = None" "tb_next_offset s x \<noteq> 0xffff" for x
  proof (cases "x \<in> set (jumpers A t)")
    case True
    then show ?thesis using tgt [rule_format, of x] that by auto
  next
    case False
    then have "jmp_next s x = None" using nxt [rule_format, OF that(2)] that by auto
    then show ?thesis using tgt [rule_format, of x] False that ok unfolding jmp_ok_def stub_def by auto
  qed
  ultimately show ?thesis
    using J unfolding jmp_ok_def live_kill static_fields [OF v] stub_def kill_simps
    by (intro conjI allI impI ballI) (simp_all split: if_splits)
qed

lemma unlink_block:
  assumes ok: "hash_ok s A" "page_ok s A" and t: "t \<in> live A" "page_addr s (t, 0) \<noteq> no_page"
  obtains s' where "tb_unlink t no_page s = Some s'" "hash_ok s' (kill t A)" "page_ok s' (kill t A)"
    "jmp_view s' = jmp_view s" "static_view s' = static_view s" "other_view s' = other_view s"
    "tb_jmp_cache s' = tb_jmp_cache s"
proof -
  obtain s1 where s1: "tb_remove (Bucket (tb_hash s t)) t s = Some s1"
    "hash_ok s1 (A\<lparr>buckets := \<lambda>h. removeAll t (buckets A h)\<rparr>)"
    "page_view s1 = page_view s" "jmp_view s1 = jmp_view s" "static_view s1 = static_view s"
    "other_view s1 = other_view s" "tb_jmp_cache s1 = tb_jmp_cache s"
    by (rule hash_remove [OF ok(1) t(1)])
  have p1: "page_ok s1 A" "page_present s1 = page_present s"
    using ok_cong(2) [OF s1(3,5)] ok(2) view_cong(3) [OF s1(3)] by blast+
  note st1 = static_fields [OF s1(5)]
  obtain s2 s3 where s3: "tb_unlink_page t (page_addr s1 (t, 0)) s1 = Some s2"
    "(if page_addr s1 (t, 1) \<noteq> no_page then tb_unlink_page t (page_addr s1 (t, 1)) s2 else Some s2) = Some s3"
    "lists_at (get_page s3) PageNext First (\<lambda>p. others t (plists A p))"
    "hash_view s3 = hash_view s1" "jmp_view s3 = jmp_view s1" "static_view s3 = static_view s1"
    "other_view s3 = other_view s1" "tb_jmp_cache s3 = tb_jmp_cache s1" "page_present s3 = page_present s1"
    "static_view s2 = static_view s1"
    by (rule page_remove_both [OF p1(1) t(1)])
  have "tb_unlink t no_page s = Some s3"
    using s1(1) s3(1,2) st1 static_fields [OF s3(10)] t(2)
    by (auto simp: tb_unlink_def tb_hash_def split: if_splits)
  moreover have "hash_ok s3 (kill t A)"
    using s1(2) unfolding hash_ok_def view_cong(1) [OF s3(4)] view_cong(6) [OF s3(6)] by simp
  moreover have "page_ok s3 (kill t A)" by (rule kill_page_ok [OF p1(1) s3(3,9,6)])
  ultimately show thesis using that s1 s3 by simp
qed

lemma invalidate_refines:
  assumes R: "refines s A" and t: "t \<in> live A"
  obtains s' where "tb_phys_invalidate t no_page s = Some s'" "refines s' (kill t A)"
    "static_view s' = static_view s" "other_view s' = other_view s" "tb_invalidated_flag s'"
    "\<forall>x. jmp_target s' x = (if x \<in> set (others t (jumpers A t)) then stub s x else jmp_target s x)"
    "\<forall>c h u. tb_jmp_cache s' c h = Some u \<longrightarrow> tb_jmp_cache s c h = Some u"
proof -
  have tn: "t < nb_tbs s" "page_addr s (t, 0) \<noteq> no_page" and
    ok: "hash_ok s A" "page_ok s A" "jmp_ok s A" "jcache_ok s A"
    using R t aligned_page by (auto simp: refines_def fits_pages_def)
  obtain s1 where s1: "tb_unlink t no_page s = Some s1" "hash_ok s1 (kill t A)" "page_ok s1 (kill t A)"
    "jmp_view s1 = jmp_view s" "static_view s1 = static_view s" "other_view s1 = other_view s"
    "tb_jmp_cache s1 = tb_jmp_cache s"
    by (rule unlink_block [OF ok(1,2) t tn(2)])
  define s2 where "s2 = tb_jmp_cache_clear (cpus s1) (tb_jmp_cache_hash_func (tb_pc s1 t)) t
    (s1\<lparr>tb_invalidated_flag := True\<rparr>)"
  have s2: "hash_view s2 = hash_view s1" "page_view s2 = page_view s1" "jmp_view s2 = jmp_view s1"
    "static_view s2 = static_view s1" "other_view s2 = other_view s1" "tb_invalidated_flag s2"
    by (simp_all add: s2_def jmp_cache_clear all_views)
  have v: "static_view s2 = static_view s" "jmp_view s2 = jmp_view s" using s1 s2 by simp_all
  have j2: "jmp_ok s2 A" using ok_cong(3) [OF v(2,1)] ok(3) by blast
  then have "jmp_lists s2 (jumpers A)" "t < nb_tbs s2"
    using tn(1) static_fields(1) [OF v(1)] by (simp_all add: jmp_ok_def)
  then obtain s3 where s3: "tb_unchain t s2 = Some s3" "jmp_lists s3 ((\<lambda>T. others t (jumpers A T))(t := []))"
    "hash_view s3 = hash_view s2" "page_view s3 = page_view s2" "static_view s3 = static_view s2"
    "other_view s3 = other_view s2" "tb_jmp_cache s3 = tb_jmp_cache s2"
    "\<forall>x. jmp_target s3 x = (if x \<in> set (others t (jumpers A t)) then stub s2 x else jmp_target s2 x)"
    "\<forall>x. snd x < 2 \<longrightarrow> jmp_next s3 x = None \<longleftrightarrow> jmp_next s2 x = None \<or> fst x = t \<or> x \<in> set (jumpers A t)"
    "tb_invalidated_flag s3 = tb_invalidated_flag s2"
    by (rule unchain_lists)
  have v3: "static_view s3 = static_view s" "static_view s3 = static_view s1" "hash_view s3 = hash_view s1"
    "page_view s3 = page_view s1" using s3 s2 v(1) by simp_all
  have "tb_jmp_cache s3 = (\<lambda>c. if c \<in> set (cpus s) \<and>
      tb_jmp_cache s c (tb_jmp_cache_hash_func (tb_pc s t)) = Some t
    then (tb_jmp_cache s c)(tb_jmp_cache_hash_func (tb_pc s t) := None) else tb_jmp_cache s c)"
    using s3(7) s1(7) static_fields [OF s1(5)] by (simp add: s2_def jmp_cache_clear cong: if_cong)
  note jcs = this
  note jc = kill_jcache_ok [OF ok(4) jcs v3(1)]
  have "\<forall>c h u. tb_jmp_cache s3 c h = Some u \<longrightarrow> tb_jmp_cache s c h = Some u"
    unfolding jcs by (auto split: if_splits)
  note sub = this
  have "refines s3 (kill t A)"
    using R s1(2,3) jc kill_jmp_ok [OF j2 _ s3(5,2,8,9)] tn(1) static_fields(1) [OF v(1)]
    unfolding refines_def fits_pages_def ok_cong(1) [OF v3(3,2)] ok_cong(2) [OF v3(4,2)] static_fields [OF v3(1)]
    by simp
  moreover have "\<forall>x. jmp_target s3 x = (if x \<in> set (others t (jumpers A t)) then stub s x else jmp_target s x)"
    using s3(8) static_fields(7) [OF v(1)] v(2) by (simp add: jmp_view_def)
  moreover have "tb_phys_invalidate t no_page s = Some s3"
    using s1(1) s3(1) by (simp add: tb_phys_invalidate_def s2_def Let_def)
  ultimately show thesis using v3(1) s1(6) s2(5,6) s3(6,10) by (intro that [OF _ _ _ _ _ _ sub]) simp_all
qed

end
