(* ===== verification/Code_Cache_Link.thy ===== *)
theory Code_Cache_Link
  imports Code_Cache_Ops
begin

text \<open>
  Flushing the whole cache, chaining two blocks, and linking a new block.
\<close>

declare split_paired_All [simp del] split_paired_Ex [simp del]

section \<open>Flush\<close>

definition empty_cache :: acache where
  "empty_cache = \<lparr>buckets = (\<lambda>_. []), plists = (\<lambda>_. []), jumpers = (\<lambda>_. [])\<rparr>"

lemma live_empty [simp]: "live empty_cache = {}"
  by (simp add: live_def empty_cache_def)

lemma flush_refines:
  assumes "code_gen_ptr s - code_gen_buffer s \<le> code_gen_buffer_size s"
  obtains s' where "tb_flush s = Some s'" "refines s' empty_cache" "nb_tbs s' = 0"
    "code_gen_ptr s' = code_gen_buffer s'" "code_gen_buffer s' = code_gen_buffer s"
    "code_gen_buffer_size s' = code_gen_buffer_size s" "code_gen_max_blocks s' = code_gen_max_blocks s"
    "code_gen_buffer_max_size s' = code_gen_buffer_max_size s" "cpus s' = cpus s"
    "phys_hash_next s' = phys_hash_next s" "tb_phys_hash s' = (\<lambda>_. None)"
    "tb_invalidated_flag s' = tb_invalidated_flag s" "current_tb s' = current_tb s"
proof -
  define s1 where "s1 = page_flush_tb (s\<lparr>nb_tbs := 0,
    tb_jmp_cache := (\<lambda>c. if c \<in> set (cpus s) then (\<lambda>_. None) else tb_jmp_cache s c), tb_phys_hash := (\<lambda>_. None)\<rparr>)"
  define s' where "s' = s1\<lparr>code_gen_ptr := code_gen_buffer s1, tb_flush_count := tb_flush_count s1 + 1\<rparr>"
  have s': "tb_flush s = Some s'"
    using assms by (auto simp: s'_def s1_def tb_flush_def Let_def)
  have e: "tb_phys_hash s' = (\<lambda>_. None)" "nb_tbs s' = 0" "cpus s' = cpus s"
    "\<forall>c\<in>set (cpus s). tb_jmp_cache s' c = (\<lambda>_. None)"
    by (simp_all add: s'_def s1_def page_flush_tb_def)
  have g: "get_hash s' (Bucket h) = None" for h using e by (simp add: get_hash_def)
  have "get_page s' (First p) = None" for p
    by (cases p) (simp add: s'_def s1_def page_flush_tb_def get_page_def get_pd_def
        zero_page_desc_def invalidate_page_bitmap_def split: option.split)
  then have "refines s' empty_cache"
    using e g unfolding refines_def fits_pages_def hash_ok_def page_ok_def jmp_ok_def jmp_lists_def circular_def jcache_ok_def
      lists_at_def
    by (simp add: empty_cache_def live_def)
  then show thesis
    using that [OF s'] e by (simp add: s'_def s1_def page_flush_tb_def)
qed

section \<open>Chaining\<close>

lemma path_start:
  assumes "path m link l xs e" "m' l' = m l" "\<And>x. x \<in> set xs \<Longrightarrow> m' (link x) = m (link x)"
  shows "path m' link l' xs e"
proof (cases xs)
  case Nil
  then show ?thesis using assms by simp
next
  case (Cons x ys)
  then have "path m' link (link x) ys e \<longleftrightarrow> path m link (link x) ys e"
    using assms(3) by (intro path_cong) auto
  then show ?thesis using assms Cons by simp
qed

lemma circular_add:
  assumes C: "circular m n J" and T: "T < n" and x: "fst x < n" "snd x < 2" "\<And>U. U < n \<Longrightarrow> x \<notin> set (J U)"
  shows "circular (m(x := m (T, 2), (T, 2) := Some x)) n (J(T := x # J T))"
proof -
  let ?m = "m(x := m (T, 2), (T, 2) := Some x)"
  have x2: "x \<noteq> (U, 2)" for U using x(2) by auto
  have "path ?m id (U, 2) ((J(T := x # J T)) U) (Some (U, 2))" if U: "U < n" for U
  proof (cases "U = T")
    case True
    have "?m (id y) = m (id y)" if "y \<in> set (J T)" for y
      using that x(3) [OF T] circularD(4) [OF C T] by auto
    then have "path ?m id x (J T) (Some (T, 2))"
      using x2 by (intro path_start [OF circularD(1) [OF C T]]) auto
    then show ?thesis using True by simp
  next
    case False
    have "x \<notin> insert (U, 2) (id ` set (J U))" "(T, 2) \<notin> insert (U, 2) (id ` set (J U))"
      using x(3) [OF U] x2 circularD(4) [OF C U] False by auto
    then show ?thesis using circularD(1) [OF C U] False by (simp add: path_update_other)
  qed
  moreover have "distinct ((J(T := x # J T)) U)" if "U < n" for U
    using circularD(2) [OF C that] x(3) [OF that] by auto
  moreover have "fst y < n \<and> snd y < 2" if "U < n" "y \<in> set ((J(T := x # J T)) U)" for U y
    using circularD(3) [OF C that(1), of y] x(1,2) that by (auto split: if_splits)
  moreover have "set ((J(T := x # J T)) U) \<inter> set ((J(T := x # J T)) V) = {}" if "U < n" "V < n" "U \<noteq> V" for U V
    using circularD(5) [OF C that(2,1,3)] x(3) [OF that(1)] x(3) [OF that(2)] that(3) by auto
  ultimately show ?thesis unfolding circular_def by blast
qed

lemma in_some_list_Cons:
  assumes "T < n"
  shows "(\<exists>U<n. y \<in> set ((J(T := x # J T)) U)) \<longleftrightarrow> y = x \<or> (\<exists>U<n. y \<in> set (J U))"
proof
  show "y = x \<or> (\<exists>U<n. y \<in> set (J U)) \<Longrightarrow> \<exists>U<n. y \<in> set ((J(T := x # J T)) U)"
    using assms by (elim disjE) (auto intro: exI [of _ T])
qed (auto split: if_splits)

definition chain :: "nat \<Rightarrow> tptr \<Rightarrow> acache \<Rightarrow> acache" where
  "chain T x A = A\<lparr>jumpers := (jumpers A)(T := x # jumpers A T)\<rparr>"

lemma jumpers_chain: "jumpers (chain T x A) = (jumpers A)(T := x # jumpers A T)"
  by (simp add: chain_def)

lemma live_chain [simp]: "live (chain T x A) = live A"
  by (simp add: live_def chain_def)

lemma add_jump_refines:
  assumes R: "refines s A" and t: "t < nb_tbs s" "n < 2" and T: "T < nb_tbs s"
  shows "refines (tb_add_jump t n T s) (if jmp_next s (t, n) = None then chain T (t, n) A else A)"
    "static_view (tb_add_jump t n T s) = static_view s"
proof -
  let ?x = "(t, n)" and ?s = "tb_add_jump t n T s"
  show v: "static_view ?s = static_view s"
    by (simp add: tb_add_jump_def static_view_def tb_set_jmp_target_def Let_def)
  show "refines ?s (if jmp_next s ?x = None then chain T ?x A else A)"
  proof (cases "jmp_next s ?x = None")
    case False
    then have "?s = s" by (simp only: tb_add_jump_def if_False)
    then show ?thesis using R False by (simp only: if_False)
  next
    case True
    have e: "hash_view ?s = hash_view s" "page_view ?s = page_view s" "tb_jmp_cache ?s = tb_jmp_cache s"
      "jmp_next ?s = (jmp_next s)(?x := jmp_first s T)" "jmp_first ?s = (jmp_first s)(T \<mapsto> ?x)"
      "jmp_target ?s = (jmp_target s)(?x := tc_ptr s T)"
      using True by (simp_all add: tb_add_jump_def tb_set_jmp_target_def all_views Let_def)
    have J: "jmp_lists s (jumpers A)" using R by (simp add: refines_def fits_pages_def jmp_ok_def)
    then have C: "circular (get_jmp s) (nb_tbs s) (jumpers A)" by (simp add: jmp_lists_def)
    have nx: "?x \<notin> set (jumpers A U)" if "U < nb_tbs s" for U
      using J True t that unfolding jmp_lists_def by (metis fst_conv snd_conv)
    have "get_jmp ?s (a, b) = ((get_jmp s)(?x := get_jmp s (T, 2), (T, 2) := Some ?x)) (a, b)" for a b
      using t(2) by (simp add: get_jmp_def e)
    then have g: "get_jmp ?s = (get_jmp s)(?x := get_jmp s (T, 2), (T, 2) := Some ?x)"
      by (simp add: fun_eq_iff split_paired_All)
    have f: "jmp_first s T \<noteq> None"
      using circularD(1) [OF C T] by (cases "jumpers A T") (simp_all add: get_jmp_def)
    then have "jmp_next ?s y \<noteq> None \<longleftrightarrow> (\<exists>U<nb_tbs s. y \<in> set (jumpers (chain T ?x A) U))"
      if "fst y < nb_tbs s" "snd y < 2" for y
      using J that True unfolding jmp_lists_def e jumpers_chain in_some_list_Cons [OF T] by auto
    then have "jmp_lists ?s (jumpers (chain T ?x A))"
      using circular_add [OF C T, of ?x] t nx
      unfolding jmp_lists_def g static_fields [OF v] by (simp add: chain_def)
    then have "jmp_ok ?s (chain T ?x A)"
      using R nx T f unfolding jmp_ok_def refines_def fits_pages_def live_chain static_fields [OF v] e
      by (auto simp: chain_def)
    moreover have "hash_ok ?s (chain T ?x A) = hash_ok s A" "page_ok ?s (chain T ?x A) = page_ok s A"
      "jcache_ok ?s (chain T ?x A) = jcache_ok s A"
      using ok_cong(1) [OF e(1) v, of "chain T ?x A"] ok_cong(2) [OF e(2) v, of "chain T ?x A"]
        ok_cong(4) [OF e(3) v, of "chain T ?x A"]
      by (simp_all add: hash_ok_def page_ok_def jcache_ok_def) (simp_all add: chain_def)
    ultimately show ?thesis
      using R True unfolding refines_def fits_pages_def by (simp add: static_fields [OF v])
  qed
qed

section \<open>Linking a new block\<close>

lemma get_pd_upd_present:
  "page_present s p \<Longrightarrow> get_pd (upd_pd p f s) q = (if q = p then f (get_pd s p) else get_pd s q)"
  by (cases p; cases q) (auto simp: page_present_def get_pd_def upd_pd_def split: option.splits)

lemma page_find_alloc_ok:
  obtains s' where "page_find_alloc (drop_bit 12 addr) True s = (Some (pkey addr), s')"
    "get_pd s' = get_pd s" "\<forall>p. page_present s p \<longrightarrow> page_present s' p" "page_present s' (pkey addr)"
    "s' = s\<lparr>l1_map := l1_map s'\<rparr>"
proof -
  obtain r s' where r: "page_find_alloc (drop_bit 12 addr) True s = (r, s')" by fastforce
  have "r = Some (pkey addr)" using r by (simp add: page_find_alloc_def pkey_def Let_def)
  moreover have "get_pd s' (a, b, c) = get_pd s (a, b, c)" for a b c
    using r by (auto simp: page_find_alloc_def get_pd_def Let_def split: option.splits if_splits)
  then have "get_pd s' = get_pd s" by (simp add: fun_eq_iff split_paired_All)
  moreover have "page_present s (a, b, c) \<longrightarrow> page_present s' (a, b, c)" for a b c
    using r by (auto simp: page_find_alloc_def page_present_def Let_def split: option.splits if_splits)
  then have "\<forall>p. page_present s p \<longrightarrow> page_present s' p" by (simp add: split_paired_All)
  moreover have "page_present s' (pkey addr)"
    using r by (auto simp: page_find_alloc_def page_present_def pkey_def Let_def)
  moreover have "s' = s\<lparr>l1_map := l1_map s'\<rparr>"
    using r by (auto simp: page_find_alloc_def Let_def)
  ultimately show thesis using that r by simp
qed

text \<open>What stays the same of the fields of a block when it is put on a page.\<close>

definition block_view where
  "block_view s = (tb_pc s, tb_cs_base s, tb_flags s, tb_size s, tb_cflags s, tc_ptr s, tb_next_offset s,
     nb_tbs s, cpus s, code_gen_max_blocks s, code_gen_buffer s, code_gen_buffer_size s,
     code_gen_buffer_max_size s, code_gen_ptr s)"

lemma block_static: "block_view s' = block_view s \<Longrightarrow> page_addr s' = page_addr s \<Longrightarrow> static_view s' = static_view s"
  by (simp add: block_view_def static_view_def)

lemma alloc_page_lists:
  assumes L: "lists_at (get_page s) PageNext First L" and x: "\<And>p. (tb, n) \<notin> set (L p)"
  obtains s' where "tb_alloc_page tb n addr s = Some s'"
    "lists_at (get_page s') PageNext First (L(pkey addr := (tb, n) # L (pkey addr)))"
    "page_addr s' = (page_addr s)((tb, n) := addr)" "\<forall>p. page_present s p \<longrightarrow> page_present s' p"
    "page_present s' (pkey addr)" "hash_view s' = hash_view s" "jmp_view s' = jmp_view s"
    "block_view s' = block_view s" "tb_jmp_cache s' = tb_jmp_cache s"
    "tb_invalidated_flag s' = tb_invalidated_flag s" "current_tb s' = current_tb s"
proof -
  let ?p = "pkey addr" and ?s0 = "s\<lparr>page_addr := (page_addr s)((tb, n) := addr)\<rparr>"
  obtain s1 where s1: "page_find_alloc (drop_bit 12 addr) True ?s0 = (Some ?p, s1)"
    "get_pd s1 = get_pd ?s0" "\<forall>p. page_present ?s0 p \<longrightarrow> page_present s1 p" "page_present s1 ?p"
    "s1 = ?s0\<lparr>l1_map := l1_map s1\<rparr>"
    by (rule page_find_alloc_ok)
  have f: "page_next s1 = page_next s" "page_addr s1 = (page_addr s)((tb, n) := addr)" "hash_view s1 = hash_view s"
    "jmp_view s1 = jmp_view s" "block_view s1 = block_view s" "tb_jmp_cache s1 = tb_jmp_cache s"
    "tb_invalidated_flag s1 = tb_invalidated_flag s" "current_tb s1 = current_tb s"
    by (subst s1(5), simp add: all_views block_view_def)+
  have g1: "get_pd s1 = get_pd s" using s1(2) by (simp add: get_pd_def)
  define s2 where "s2 = s1\<lparr>page_next := (page_next s1)((tb, n) := first_tb (get_pd s1 ?p))\<rparr>"
  define s3 where "s3 = upd_pd ?p (\<lambda>d. invalidate_page_bitmap (d\<lparr>first_tb := Some (tb, n)\<rparr>)) s2"
  define v where "v = (if first_tb (get_pd s1 ?p) = None then tlb_events s3 @ [tlb_protect_code addr] else tlb_events s3)"
  define s' where e: "s' = s3\<lparr>tlb_events := v\<rparr>"
  have s': "tb_alloc_page tb n addr s = Some s'"
    using s1(1) by (simp add: tb_alloc_page_def Let_def s2_def s3_def v_def e)
  have p2: "page_present s2 = page_present s1" "get_pd s2 = get_pd s1" by (simp_all add: s2_def page_present_def get_pd_def)
  have "get_page s3 l = ((get_page s)(PageNext (tb, n) := get_page s (First ?p), First ?p := Some (tb, n))) l" for l
    using s1(4) f(1) g1 p2
    by (cases l) (auto simp: get_page_def s3_def get_pd_upd_present upd_pd_views invalidate_page_bitmap_def s2_def)
  then have "get_page s3 = (get_page s)(PageNext (tb, n) := get_page s (First ?p), First ?p := Some (tb, n))" by blast
  moreover have pp: "page_present s3 = page_present s1" by (simp add: s3_def upd_pd_present p2)
  moreover have "get_page s' = get_page s3" "page_present s' = page_present s3"
    by (auto simp: e fun_eq_iff get_page_def get_pd_def page_present_def split: page_loc.split)
  ultimately have "lists_at (get_page s') PageNext First (L(?p := (tb, n) # L ?p))" and pq: "page_present s' = page_present s1"
    using page_list.lists_at_push [OF L x, of ?p] by simp_all
  moreover have "page_addr s3 = page_addr s1" "hash_view s3 = hash_view s1" "jmp_view s3 = jmp_view s1"
    "block_view s3 = block_view s1" "tb_jmp_cache s3 = tb_jmp_cache s1"
    "tb_invalidated_flag s3 = tb_invalidated_flag s1" "current_tb s3 = current_tb s1"
    by (simp_all add: s3_def s2_def upd_pd_def all_views block_view_def split: prod.split)
  then have "page_addr s' = page_addr s1" "hash_view s' = hash_view s1" "jmp_view s' = jmp_view s1"
    "block_view s' = block_view s1" "tb_jmp_cache s' = tb_jmp_cache s1"
    "tb_invalidated_flag s' = tb_invalidated_flag s1" "current_tb s' = current_tb s1"
    by (auto simp: e all_views block_view_def)
  moreover have "\<forall>p. page_present s p \<longrightarrow> page_present s' p" "page_present s' ?p"
    using s1(3,4) unfolding pq by (simp_all add: page_present_def)
  ultimately show thesis using that [OF s'] f by simp
qed

text \<open>A state in which the block with the next index is being set up.\<close>

definition fresh_block :: "tbstate \<Rightarrow> tbstate \<Rightarrow> bool" where
  "fresh_block s0 s \<longleftrightarrow> nb_tbs s = Suc (nb_tbs s0) \<and> hash_view s = hash_view s0 \<and> page_view s = page_view s0 \<and>
     jmp_view s = jmp_view s0 \<and> tb_jmp_cache s = tb_jmp_cache s0 \<and> cpus s = cpus s0 \<and>
     (\<forall>t<nb_tbs s0. tb_pc s t = tb_pc s0 t \<and> tb_size s t = tb_size s0 t \<and> tc_ptr s t = tc_ptr s0 t \<and>
        (\<forall>n. page_addr s (t, n) = page_addr s0 (t, n) \<and> tb_next_offset s (t, n) = tb_next_offset s0 (t, n)))"

definition add_block :: "nat \<Rightarrow> nat \<Rightarrow> u64 \<Rightarrow> u64 \<Rightarrow> acache \<Rightarrow> acache" where
  "add_block N h page1 page2 A = (let L = (plists A)(pkey page1 := (N, 0) # plists A (pkey page1))
     in \<lparr>buckets = (buckets A)(h := N # buckets A h),
         plists = (if page2 = no_page then L else L(pkey page2 := (N, 1) # L (pkey page2))),
         jumpers = (jumpers A)(N := [])\<rparr>)"

lemma live_add [simp]: "live (add_block N h p1 p2 A) = insert N (live A)"
  by (auto simp: live_def add_block_def Let_def split: if_splits)

lemma page_split: "(x AND NOT (mask n)) + (x AND mask n) = (x :: 'a::len word)"
  by (subst disjunctive_add) (auto simp: bit_simps intro!: bit_eqI)

lemma link_hash_ok:
  assumes ok: "hash_ok s0 A" and live: "\<forall>t\<in>live A. t < N" and N: "N = nb_tbs s0"
    and g: "get_hash s' = (get_hash s0)(Next N := get_hash s0 (Bucket h), Bucket h := Some N)"
    and t: "\<And>t. t < N \<Longrightarrow> tb_hash s' t = tb_hash s0 t" "tb_hash s' N = h"
  shows "hash_ok s' (add_block N h p1 p2 A)"
proof -
  have "N \<notin> set (buckets A j)" for j using live by (auto simp: live_def)
  then have "lists_at (get_hash s') Next Bucket ((buckets A)(h := N # buckets A h))"
    using ok unfolding g hash_ok_def by (intro hash_list.lists_at_push) simp_all
  moreover have "tb_hash s' u = j" if "u \<in> set (((buckets A)(h := N # buckets A h)) j)" for u j
  proof (cases "u = N")
    case False
    then have u: "u \<in> set (buckets A j)" using that by (auto split: if_splits)
    then have "u < N" using live by (auto simp: live_def)
    then show ?thesis using ok u t(1) by (simp add: hash_ok_def)
  next
    case True
    then show ?thesis
      using that t(2) \<open>\<And>j. N \<notin> set (buckets A j)\<close> by (auto split: if_splits)
  qed
  ultimately show ?thesis by (simp add: hash_ok_def add_block_def Let_def)
qed

lemma link_jmp_ok:
  assumes ok: "jmp_ok s0 A" and live: "\<forall>t\<in>live A. t < N" and N: "N = nb_tbs s0" "nb_tbs s' = Suc N"
    and same: "\<And>x. fst x < N \<Longrightarrow> get_jmp s' x = get_jmp s0 x" "\<And>x. fst x < N \<Longrightarrow> jmp_target s' x = jmp_target s0 x"
      "\<And>t. t < N \<Longrightarrow> tc_ptr s' t = tc_ptr s0 t" "\<And>x. fst x < N \<Longrightarrow> tb_next_offset s' x = tb_next_offset s0 x"
    and new: "jmp_first s' N = Some (N, 2)" "\<And>n. n < 2 \<Longrightarrow> jmp_next s' (N, n) = None"
      "\<And>n. n < 2 \<Longrightarrow> tb_next_offset s' (N, n) \<noteq> 0xffff \<Longrightarrow> jmp_target s' (N, n) = stub s' (N, n)"
  shows "jmp_ok s' (add_block N h p1 p2 A)"
proof -
  let ?J = "(jumpers A)(N := [])"
  have C: "circular (get_jmp s0) N (jumpers A)"
    and nx: "\<And>x. fst x < N \<Longrightarrow> snd x < 2 \<Longrightarrow> jmp_next s0 x \<noteq> None \<longleftrightarrow> (\<exists>T<N. x \<in> set (jumpers A T))"
    using ok unfolding jmp_ok_def jmp_lists_def N by blast+
  have "path (get_jmp s') id (T, 2) (jumpers A T) (Some (T, 2))" if "T < N" for T
  proof -
    have "get_jmp s' x = get_jmp s0 x" if "x \<in> insert (T, 2) (id ` set (jumpers A T))" for x
      using that \<open>T < N\<close> circularD(3) [OF C \<open>T < N\<close>, of x] by (intro same(1)) auto
    then show ?thesis
      using circularD(1) [OF C that] path_cong [of "(T, 2)" id "jumpers A T" "get_jmp s'" "get_jmp s0"] by blast
  qed
  then have "circular (get_jmp s') (Suc N) ?J"
    using C new(1) unfolding circular_def by (auto simp: less_Suc_eq get_jmp_def)
  moreover have "jmp_next s' x \<noteq> None \<longleftrightarrow> (\<exists>T<Suc N. x \<in> set (?J T))" if "fst x < Suc N" "snd x < 2" for x
  proof (cases "fst x = N")
    case True
    then have "jmp_next s' x = None" using new(2) [OF that(2)] by (cases x) simp
    moreover have "x \<notin> set (jumpers A T)" if "T < N" for T using circularD(3) [OF C that, of x] True by auto
    ultimately show ?thesis by (auto simp: less_Suc_eq)
  next
    case False
    then have "fst x < N" using that by simp
    then have "jmp_next s' x = jmp_next s0 x" using same(1) [of x] that(2) by (simp add: jmp_next_get)
    moreover have "(\<exists>T<N. x \<in> set (jumpers A T)) \<longleftrightarrow> (\<exists>T<Suc N. x \<in> set (?J T))"
      by (auto simp: less_Suc_eq)
    ultimately show ?thesis using nx [OF \<open>fst x < N\<close> that(2)] by simp
  qed
  ultimately have "jmp_lists s' ?J" unfolding jmp_lists_def N(2) by blast
  moreover have "jmp_target s' x = tc_ptr s' T" if "T < Suc N" "x \<in> set (?J T)" for T x
  proof -
    have "T < N" "x \<in> set (jumpers A T)" using that by (auto simp: less_Suc_eq split: if_splits)
    then show ?thesis
      using circularD(3) [OF C \<open>T < N\<close>, of x] ok same(2,3) unfolding jmp_ok_def N(1) [symmetric] by simp
  qed
  moreover have "jmp_target s' x = stub s' x"
    if "fst x \<in> insert N (live A)" "snd x < 2" "jmp_next s' x = None" "tb_next_offset s' x \<noteq> 0xffff" for x
  proof (cases "fst x = N")
    case True
    then show ?thesis using new(3) [OF that(2)] that(4) by (cases x) simp
  next
    case False
    then have x: "fst x \<in> live A" "fst x < N" using that live by auto
    then have "jmp_next s0 x = None" using same(1) [of x] that by (simp add: jmp_next_get)
    then show ?thesis
      using ok x that same(2,3,4) unfolding jmp_ok_def stub_def by auto
  qed
  ultimately show ?thesis unfolding jmp_ok_def live_add N(2) stub_def by (simp add: add_block_def Let_def)
qed

lemma link_page_ok:
  assumes ok: "page_ok s0 A" and live: "\<forall>t\<in>live A. t < N"
    and L: "lists_at (get_page s') PageNext First (plists (add_block N h p1 p2 A))"
    and pr: "\<forall>p. page_present s0 p \<longrightarrow> page_present s' p" "page_present s' (pkey p1)"
      "p2 \<noteq> no_page \<Longrightarrow> page_present s' (pkey p2)"
    and addr: "\<And>t n. t < N \<Longrightarrow> page_addr s' (t, n) = page_addr s0 (t, n)"
      "page_addr s' (N, 0) = p1" "page_addr s' (N, 1) = p2"
  shows "page_ok s' (add_block N h p1 p2 A)"
proof -
  have old: "on_page s' x q = on_page s0 x q" if "fst x < N" for x q
    using that addr(1) by (cases x) (simp add: on_page_def)
  have new: "on_page s' (N, n) q \<longleftrightarrow> n = 0 \<and> pkey p1 = q \<or> n = 1 \<and> p2 \<noteq> no_page \<and> pkey p2 = q" for n q
    using addr(2,3) by (auto simp: on_page_def)
  have "x \<in> set (plists (add_block N h p1 p2 A) q) \<longleftrightarrow> fst x \<in> insert N (live A) \<and> on_page s' x q" for x q
  proof -
    have "x \<in> set (plists (add_block N h p1 p2 A) q) \<longleftrightarrow> x \<in> set (plists A q) \<or>
        x = (N, 0) \<and> pkey p1 = q \<or> x = (N, 1) \<and> p2 \<noteq> no_page \<and> pkey p2 = q"
      unfolding add_block_def Let_def by (cases "p2 = no_page"; cases "pkey p1 = q"; cases "pkey p2 = q") auto
    also have "x \<in> set (plists A q) \<longleftrightarrow> fst x \<in> live A \<and> on_page s0 x q"
      using ok by (simp add: page_ok_def)
    also have "\<dots> \<longleftrightarrow> fst x \<in> live A \<and> on_page s' x q" using live old by blast
    also have "(fst x \<in> live A \<and> on_page s' x q \<or>
        x = (N, 0) \<and> pkey p1 = q \<or> x = (N, 1) \<and> p2 \<noteq> no_page \<and> pkey p2 = q) \<longleftrightarrow>
        fst x \<in> insert N (live A) \<and> on_page s' x q"
    proof (cases "fst x = N")
      case True
      then show ?thesis using live new [of "snd x" q] by (cases x) auto
    qed auto
    finally show ?thesis .
  qed
  moreover have "page_present s' q" if "plists (add_block N h p1 p2 A) q \<noteq> []" for q
  proof (cases "plists A q = []")
    case True
    then have "q = pkey p1 \<or> p2 \<noteq> no_page \<and> q = pkey p2"
      using that by (auto simp: add_block_def Let_def split: if_splits)
    then show ?thesis using pr by blast
  next
    case False
    then show ?thesis using ok pr(1) unfolding page_ok_def by blast
  qed
  ultimately show ?thesis using L unfolding page_ok_def live_add set_eq_iff mem_Collect_eq by simp
qed

text \<open>The last steps of \<open>tb_link_page\<close>: the block is its own list of jumps and its exits lead to the stubs.\<close>

definition init_jumps :: "nat \<Rightarrow> tbstate \<Rightarrow> tbstate" where
  "init_jumps tb s =
     (let s = s\<lparr>jmp_first := (jmp_first s)(tb \<mapsto> (tb, 2))\<rparr>;
          s = s\<lparr>jmp_next := (jmp_next s)((tb, 0) := None)\<rparr>;
          s = s\<lparr>jmp_next := (jmp_next s)((tb, 1) := None)\<rparr>;
          s = (if tb_next_offset s (tb, 0) \<noteq> 0xffff then tb_reset_jump tb 0 s else s)
      in if tb_next_offset s (tb, 1) \<noteq> 0xffff then tb_reset_jump tb 1 s else s)"

lemma init_jumps_views:
  "hash_view (init_jumps t s) = hash_view s" "page_view (init_jumps t s) = page_view s"
  "static_view (init_jumps t s) = static_view s" "tb_jmp_cache (init_jumps t s) = tb_jmp_cache s"
  "tb_invalidated_flag (init_jumps t s) = tb_invalidated_flag s" "current_tb (init_jumps t s) = current_tb s"
  by (simp_all add: init_jumps_def Let_def tb_reset_jump_def tb_set_jmp_target_def all_views)

lemma init_jumps_jmp:
  "fst x \<noteq> t \<Longrightarrow> get_jmp (init_jumps t s) x = get_jmp s x"
  "fst x \<noteq> t \<Longrightarrow> jmp_target (init_jumps t s) x = jmp_target s x"
  "jmp_first (init_jumps t s) t = Some (t, 2)"
  "n < 2 \<Longrightarrow> jmp_next (init_jumps t s) (t, n) = None"
  "n < 2 \<Longrightarrow> tb_next_offset (init_jumps t s) (t, n) \<noteq> 0xffff \<Longrightarrow>
     jmp_target (init_jumps t s) (t, n) = stub (init_jumps t s) (t, n)"
proof -
  show "fst x \<noteq> t \<Longrightarrow> get_jmp (init_jumps t s) x = get_jmp s x"
    "fst x \<noteq> t \<Longrightarrow> jmp_target (init_jumps t s) x = jmp_target s x"
    by (cases x; auto simp: init_jumps_def Let_def tb_reset_jump_def tb_set_jmp_target_def get_jmp_def)+
  show "jmp_first (init_jumps t s) t = Some (t, 2)"
    by (simp add: init_jumps_def Let_def tb_reset_jump_def tb_set_jmp_target_def)
  show "n < 2 \<Longrightarrow> jmp_next (init_jumps t s) (t, n) = None"
    by (auto simp: init_jumps_def Let_def tb_reset_jump_def tb_set_jmp_target_def less_2_cases_iff)
  show "n < 2 \<Longrightarrow> tb_next_offset (init_jumps t s) (t, n) \<noteq> 0xffff \<Longrightarrow>
     jmp_target (init_jumps t s) (t, n) = stub (init_jumps t s) (t, n)"
    by (auto simp: init_jumps_def Let_def tb_reset_jump_def tb_set_jmp_target_def stub_def less_2_cases_iff)
qed

text \<open>Both parts of a block are put on the lists of their pages.\<close>

lemma link_pages:
  assumes L: "lists_at (get_page s) PageNext First (plists A)" and x: "\<And>p n. (N, n) \<notin> set (plists A p)"
  obtains s1 s' where "tb_alloc_page N 0 p1 s = Some s1"
    "(if p2 \<noteq> no_page then tb_alloc_page N 1 p2 s1
      else Some (s1\<lparr>page_addr := (page_addr s1)((N, 1) := no_page)\<rparr>)) = Some s'"
    "lists_at (get_page s') PageNext First (plists (add_block N h p1 p2 A))"
    "page_addr s' = (page_addr s)((N, 0) := p1, (N, 1) := p2)"
    "\<forall>p. page_present s p \<longrightarrow> page_present s' p" "page_present s' (pkey p1)"
    "p2 \<noteq> no_page \<longrightarrow> page_present s' (pkey p2)" "hash_view s' = hash_view s" "jmp_view s' = jmp_view s"
    "block_view s' = block_view s" "tb_jmp_cache s' = tb_jmp_cache s"
    "tb_invalidated_flag s' = tb_invalidated_flag s" "current_tb s' = current_tb s"
proof -
  let ?L = "(plists A)(pkey p1 := (N, 0) # plists A (pkey p1))"
  obtain s1 where s1: "tb_alloc_page N 0 p1 s = Some s1" "lists_at (get_page s1) PageNext First ?L"
    "page_addr s1 = (page_addr s)((N, 0) := p1)" "\<forall>p. page_present s p \<longrightarrow> page_present s1 p"
    "page_present s1 (pkey p1)" "hash_view s1 = hash_view s" "jmp_view s1 = jmp_view s"
    "block_view s1 = block_view s" "tb_jmp_cache s1 = tb_jmp_cache s"
    "tb_invalidated_flag s1 = tb_invalidated_flag s" "current_tb s1 = current_tb s"
    by (rule alloc_page_lists [where tb = N and n = 0 and addr = p1, OF L x]) (rule that; assumption)
  show thesis
  proof (cases "p2 = no_page")
    case True
    let ?s = "s1\<lparr>page_addr := (page_addr s1)((N, 1) := no_page)\<rparr>"
    have v: "page_view (s1\<lparr>page_addr := f\<rparr>) = page_view s1" "hash_view (s1\<lparr>page_addr := f\<rparr>) = hash_view s1"
      "jmp_view (s1\<lparr>page_addr := f\<rparr>) = jmp_view s1" "block_view (s1\<lparr>page_addr := f\<rparr>) = block_view s1" for f
      by (simp_all add: page_view_def hash_view_def jmp_view_def block_view_def)
    show thesis
      by (rule that [of s1 ?s])
        (use True s1 in \<open>simp_all add: v view_cong(2,3) [OF v(1)] add_block_def Let_def\<close>)
  next
    case False
    have nx: "(N, 1) \<notin> set (?L p)" for p using x by simp
    obtain s2 where s2: "tb_alloc_page N 1 p2 s1 = Some s2"
      "lists_at (get_page s2) PageNext First (?L(pkey p2 := (N, 1) # ?L (pkey p2)))"
      "page_addr s2 = (page_addr s1)((N, 1) := p2)" "\<forall>p. page_present s1 p \<longrightarrow> page_present s2 p"
      "page_present s2 (pkey p2)" "hash_view s2 = hash_view s1" "jmp_view s2 = jmp_view s1"
      "block_view s2 = block_view s1" "tb_jmp_cache s2 = tb_jmp_cache s1"
      "tb_invalidated_flag s2 = tb_invalidated_flag s1" "current_tb s2 = current_tb s1"
      by (rule alloc_page_lists [where tb = N and n = 1 and addr = p2, OF s1(2) nx]) (rule that; assumption)
    have pl: "plists (add_block N h p1 p2 A) = ?L(pkey p2 := (N, 1) # ?L (pkey p2))"
      using False by (simp add: add_block_def Let_def)
    show thesis
      by (rule that [OF s1(1), of s2, unfolded pl]) (use False s1(3-) s2 in \<open>simp_all del: fun_upd_apply\<close>)
  qed
qed

lemma fresh_blockD:
  assumes "fresh_block s0 s"
  shows "nb_tbs s = Suc (nb_tbs s0)" "hash_view s = hash_view s0" "page_view s = page_view s0"
    "jmp_view s = jmp_view s0" "tb_jmp_cache s = tb_jmp_cache s0" "cpus s = cpus s0"
    "t < nb_tbs s0 \<Longrightarrow> tb_pc s t = tb_pc s0 t" "t < nb_tbs s0 \<Longrightarrow> tc_ptr s t = tc_ptr s0 t"
    "t < nb_tbs s0 \<Longrightarrow> page_addr s (t, n) = page_addr s0 (t, n)"
    "t < nb_tbs s0 \<Longrightarrow> tb_next_offset s (t, n) = tb_next_offset s0 (t, n)" "t < nb_tbs s0 \<Longrightarrow> tb_size s t = tb_size s0 t"
  using assms by (simp_all add: fresh_block_def)

lemma refinesD:
  assumes "refines s A"
  shows "\<forall>t\<in>live A. t < nb_tbs s" "\<forall>t\<in>live A. page_addr s (t, 0) AND mask 12 = 0"
    "hash_ok s A" "page_ok s A" "jmp_ok s A" "jcache_ok s A" "\<forall>t\<in>live A. fits_pages s t"
  using assms by (simp_all add: refines_def)

lemma block_fields:
  assumes "block_view s' = block_view s"
  shows "tb_pc s' = tb_pc s" "tb_cs_base s' = tb_cs_base s" "tb_flags s' = tb_flags s" "tb_size s' = tb_size s"
    "tb_cflags s' = tb_cflags s" "tc_ptr s' = tc_ptr s" "tb_next_offset s' = tb_next_offset s"
    "nb_tbs s' = nb_tbs s" "cpus s' = cpus s" "code_gen_max_blocks s' = code_gen_max_blocks s"
    "code_gen_buffer s' = code_gen_buffer s" "code_gen_buffer_size s' = code_gen_buffer_size s"
    "code_gen_buffer_max_size s' = code_gen_buffer_max_size s" "code_gen_ptr s' = code_gen_ptr s"
  using assms by (simp_all add: block_view_def)

text \<open>The state that \<open>tb_link_page\<close> ends in, and that it stands for the cache with the block added.\<close>

lemma linked_refines:
  assumes R: "refines s0 A" and F: "fresh_block s0 s" and N: "N = nb_tbs s0"
    and phys: "phys_pc AND mask 12 = ucast (tb_pc s N AND mask 12)"
    and g: "get_hash s' = (get_hash s)(Next N := get_hash s (Bucket h), Bucket h := Some N)"
      "h = tb_phys_hash_func phys_pc"
    and pg: "lists_at (get_page s') PageNext First (plists (add_block N h (phys_pc AND NOT (mask 12)) p2 A))"
      "page_addr s' = (page_addr s)((N, 0) := phys_pc AND NOT (mask 12), (N, 1) := p2)"
      "\<forall>p. page_present s p \<longrightarrow> page_present s' p" "page_present s' (pkey (phys_pc AND NOT (mask 12)))"
      "p2 \<noteq> no_page \<longrightarrow> page_present s' (pkey p2)"
    and b: "block_view s' = block_view s" "tb_jmp_cache s' = tb_jmp_cache s" and fit: "fits_pages s' N"
    and jm: "s' = init_jumps N s2" "jmp_view s2 = jmp_view s"
  shows "refines s' (add_block N h (phys_pc AND NOT (mask 12)) p2 A)"
proof -
  let ?A = "add_block N h (phys_pc AND NOT (mask 12)) p2 A"
  note f = fresh_blockD [OF F, folded N] and Rf = refinesD [OF R, folded N] and bf = block_fields [OF b(1)]
  have pa: "page_addr s' (t, n) = page_addr s0 (t, n)" if "t < N" for t n
    using that f(9) by (simp add: pg(2))
  have th: "tb_hash s' t = tb_hash s0 t" if "t < N" for t
    using that f(7) pa by (simp add: tb_hash_def bf)
  have "tb_hash s' N = h"
    using phys page_split [of phys_pc 12] by (simp add: tb_hash_def pg(2) g(2) bf)
  then have "hash_ok s' ?A"
    using Rf(3,1) N g(1) th unfolding view_cong(1) [OF f(2)] by (rule link_hash_ok [rotated -1])
  moreover have "page_ok s' ?A"
    by (rule link_page_ok [OF Rf(4,1) pg(1)])
      (use pg(2-5) pa in \<open>simp_all add: view_cong(3) [OF f(3)]\<close>)
  moreover have "jmp_ok s' ?A"
  proof (rule link_jmp_ok [OF Rf(5,1) N])
    have js: "get_jmp s2 = get_jmp s0" "jmp_target s2 = jmp_target s0"
      using jm(2) f(4) by (auto simp: jmp_view_def get_jmp_def fun_eq_iff)
    show "nb_tbs s' = Suc N" by (simp add: bf f)
    show "get_jmp s' x = get_jmp s0 x" "jmp_target s' x = jmp_target s0 x" if "fst x < N" for x
      using that unfolding jm(1) by (simp_all add: init_jumps_jmp js)
    show "tb_next_offset s' x = tb_next_offset s0 x" if "fst x < N" for x
      using that f(10) by (cases x) (simp add: bf)
    show "tc_ptr s' t = tc_ptr s0 t" if "t < N" for t using that f(8) by (simp add: bf)
    show "jmp_first s' N = Some (N, 2)" "\<And>n. n < 2 \<Longrightarrow> jmp_next s' (N, n) = None"
      "\<And>n. n < 2 \<Longrightarrow> tb_next_offset s' (N, n) \<noteq> 0xffff \<Longrightarrow> jmp_target s' (N, n) = stub s' (N, n)"
      unfolding jm(1) by (simp_all add: init_jumps_jmp)
  qed
  moreover have "jcache_ok s' ?A"
    using Rf(6,1) f(7) unfolding jcache_ok_def live_add by (simp add: b(2) bf f(5,6))
  moreover have "t < nb_tbs s' \<and> page_addr s' (t, 0) AND mask 12 = 0 \<and> fits_pages s' t" if "t \<in> live ?A" for t
  proof (cases "t = N")
    case True
    then show ?thesis using fit by (simp add: bf f pg(2) and.assoc)
  next
    case False
    then have t: "t \<in> live A" "t < N" using that Rf(1) by auto
    then have "fits_pages s' t" using Rf(7) f(7,11) pa by (simp add: fits_pages_def bf)
    then show ?thesis using t Rf(2) pa by (simp add: bf f less_SucI)
  qed
  ultimately show ?thesis unfolding refines_def by blast
qed

lemma link_refines:
  assumes R: "refines s0 A" and F: "fresh_block s0 s" and N: "N = nb_tbs s0"
    and phys: "phys_pc AND mask 12 = ucast (tb_pc s N AND mask 12)"
    and sz: "0 < tb_size s N" "tb_size s N \<le> 0x1000"
      "p2 \<noteq> no_page \<longrightarrow> 4096 < unat (tb_pc s N AND mask 12) + unat (tb_size s N)"
  obtains s' where "tb_link_page N phys_pc p2 s = Some s'"
    "refines s' (add_block N (tb_phys_hash_func phys_pc) (phys_pc AND NOT (mask 12)) p2 A)"
    "block_view s' = block_view s" "tb_jmp_cache s' = tb_jmp_cache s"
    "get_hash s' = (get_hash s)(Next N := get_hash s (Bucket (tb_phys_hash_func phys_pc)),
       Bucket (tb_phys_hash_func phys_pc) := Some N)"
    "page_addr s' = (page_addr s)((N, 0) := phys_pc AND NOT (mask 12), (N, 1) := p2)"
    "tb_invalidated_flag s' = tb_invalidated_flag s" "current_tb s' = current_tb s"
proof -
  let ?h = "tb_phys_hash_func phys_pc" and ?p1 = "phys_pc AND NOT (mask 12)"
  define s1 where "s1 = s\<lparr>phys_hash_next := (phys_hash_next s)(N := tb_phys_hash s ?h),
    tb_phys_hash := (tb_phys_hash s)(?h \<mapsto> N)\<rparr>"
  note f = fresh_blockD [OF F, folded N] and Rf = refinesD [OF R, folded N]
  have v1: "page_view s1 = page_view s" "jmp_view s1 = jmp_view s" "block_view s1 = block_view s"
    "tb_jmp_cache s1 = tb_jmp_cache s" "page_addr s1 = page_addr s"
    "tb_invalidated_flag s1 = tb_invalidated_flag s" "current_tb s1 = current_tb s"
    by (simp_all add: s1_def page_view_def jmp_view_def block_view_def)
  have g1: "get_hash s1 = (get_hash s)(Next N := get_hash s (Bucket ?h), Bucket ?h := Some N)"
    by (auto simp: s1_def get_hash_def fun_eq_iff split: hash_loc.split)
  have L: "lists_at (get_page s1) PageNext First (plists A)"
    using Rf(4) view_cong(2) [OF f(3)] view_cong(2) [OF v1(1)] by (simp add: page_ok_def)
  have x: "(N, n) \<notin> set (plists A p)" for p n using Rf(1,4) by (auto simp: page_ok_def)
  obtain s2 s3 where s2: "tb_alloc_page N 0 ?p1 s1 = Some s2" and
    s3: "(if p2 \<noteq> no_page then tb_alloc_page N 1 p2 s2
        else Some (s2\<lparr>page_addr := (page_addr s2)((N, 1) := no_page)\<rparr>)) = Some s3"
    "lists_at (get_page s3) PageNext First (plists (add_block N ?h ?p1 p2 A))"
    "page_addr s3 = (page_addr s1)((N, 0) := ?p1, (N, 1) := p2)"
    "\<forall>p. page_present s1 p \<longrightarrow> page_present s3 p" "page_present s3 (pkey ?p1)"
    "p2 \<noteq> no_page \<longrightarrow> page_present s3 (pkey p2)" "hash_view s3 = hash_view s1" "jmp_view s3 = jmp_view s1"
    "block_view s3 = block_view s1" "tb_jmp_cache s3 = tb_jmp_cache s1"
    "tb_invalidated_flag s3 = tb_invalidated_flag s1" "current_tb s3 = current_tb s1"
    by (rule link_pages [OF L x]) (rule that; assumption)
  note v3 = init_jumps_views [of N s3]
  have bv: "block_view (init_jumps N s3) = block_view s" "page_addr (init_jumps N s3) = page_addr s3"
    using v3(3) s3(9) v1(3) by (simp_all add: static_view_def block_view_def)
  have gh: "get_hash (init_jumps N s3) = get_hash s1" using view_cong(1) [OF v3(1)] view_cong(1) [OF s3(7)] by simp
  have fit: "fits_pages (init_jumps N s3) N"
    using sz block_fields [OF bv(1)] by (simp add: fits_pages_def bv(2) s3(3))
  show thesis
  proof (rule that)
    have eq: "tb_link_page N phys_pc p2 s = do {
        s \<leftarrow> tb_alloc_page N 0 ?p1 s1;
        s \<leftarrow> (if p2 \<noteq> no_page then tb_alloc_page N 1 p2 s
           else Some (s\<lparr>page_addr := (page_addr s)((N, 1) := no_page)\<rparr>));
        Some (init_jumps N s) }"
      unfolding tb_link_page_def Let_def s1_def init_jumps_def by simp
    show "tb_link_page N phys_pc p2 s = Some (init_jumps N s3)"
      unfolding eq s2 bind.bind_lunit s3(1) ..
    show "refines (init_jumps N s3) (add_block N ?h ?p1 p2 A)"
      by (rule linked_refines [OF R F N phys, where h = "?h" and ?s2.0 = s3])
        (use fit gh g1 s3 bv v1 v3 view_cong(2,3) [OF v3(2)] view_cong(3) [OF v1(1)] in \<open>simp_all del: fun_upd_apply\<close>)
  qed (use gh g1 s3 bv v1 v3 in \<open>simp_all del: fun_upd_apply\<close>)
qed

end
