(* ===== verification/Code_Cache_Find.thy ===== *)
theory Code_Cache_Find
  imports Code_Cache_Link
begin

text \<open>
  Translating a block and looking a block up: the cache always comes back consistent and the lookup
  always returns a block for the guest state that was asked for.
\<close>

declare split_paired_All [simp del] split_paired_Ex [simp del]

lemma liveI: "t \<in> set (buckets A h) \<Longrightarrow> t \<in> live A"
  by (auto simp: live_def)

lemma refines_cong:
  assumes "hash_view s' = hash_view s" "page_view s' = page_view s" "jmp_view s' = jmp_view s"
    "static_view s' = static_view s" "tb_jmp_cache s' = tb_jmp_cache s"
  shows "refines s' A = refines s A"
proof -
  have "nb_tbs s' = nb_tbs s" "page_addr s' = page_addr s" "tb_pc s' = tb_pc s" "tb_size s' = tb_size s"
    using assms(4) by (simp_all add: static_view_def)
  then show ?thesis using ok_cong [of s' s A] assms by (simp add: refines_def fits_pages_def)
qed

section \<open>The code buffer\<close>

text \<open>
  The code of the blocks is laid out in the order of their indices.  There is room for one block
  above \<open>code_gen_buffer_max_size\<close>.
\<close>

definition buffer_ok :: "tbstate \<Rightarrow> bool" where
  "buffer_ok s \<longleftrightarrow> 0 < code_gen_max_blocks s \<and> 0 < code_gen_buffer_max_size s \<and>
     code_gen_buffer_max_size s \<le> code_gen_buffer_size s \<and>
     code_gen_buffer s \<le> code_gen_buffer s + code_gen_buffer_size s \<and>
     code_gen_buffer s \<le> code_gen_ptr s \<and> code_gen_ptr s - code_gen_buffer s \<le> code_gen_buffer_size s \<and>
     (\<forall>j<nb_tbs s. code_gen_buffer s \<le> tc_ptr s j \<and> tc_ptr s j < code_gen_ptr s \<and> (\<forall>i<j. tc_ptr s i < tc_ptr s j))"

text \<open>What is asked of \<open>cpu_gen_code\<close>: the code is not empty and fits in the reserve of the buffer.\<close>

definition code_fits :: "(nat \<Rightarrow> tbstate \<Rightarrow> gen_result) \<Rightarrow> tbstate \<Rightarrow> bool" where
  "code_fits gen s \<longleftrightarrow> (\<forall>t s'. code_gen_buffer_size s' = code_gen_buffer_size s \<longrightarrow>
     code_gen_buffer_max_size s' = code_gen_buffer_max_size s \<longrightarrow> 0 < gen_code_size (gen t s') \<and>
     unat (gen_code_size (gen t s')) + 15 \<le> unat (code_gen_buffer_size s) - unat (code_gen_buffer_max_size s))"

text \<open>What is asked of \<open>get_page_addr_code\<close>: the offset in the page stays.\<close>

definition page_offset_kept :: "(u32 \<Rightarrow> u64) \<Rightarrow> bool" where
  "page_offset_kept phys \<longleftrightarrow> (\<forall>a. phys a AND mask 12 = ucast (a AND mask 12))"

lemma align_up:
  fixes x :: u64
  assumes "unat x + 15 < 2 ^ 64"
  shows "x \<le> (x + 15) AND NOT (mask 4)" "(x + 15) AND NOT (mask 4) \<le> x + 15"
proof -
  have u: "unat (x + 15) = unat x + 15" using assms by (simp add: unat_word_ariths)
  have m: "unat ((x + 15) AND NOT (mask 4)) = unat (x + 15) - unat (x + 15) mod 16"
  proof -
    have "(x + 15) AND NOT (mask 4) = (x + 15) - take_bit 4 (x + 15)"
      using page_split [of "x + 15" 4] by (simp add: take_bit_eq_mask eq_diff_eq)
    moreover have t: "unat (take_bit 4 (x + 15)) = unat (x + 15) mod 16"
      by (subst unsigned_take_bit_eq) (simp add: take_bit_eq_mod)
    moreover have "take_bit 4 (x + 15) \<le> x + 15" by (simp add: word_le_nat_alt t)
    ultimately show ?thesis by (simp add: unat_sub)
  qed
  show "x \<le> (x + 15) AND NOT (mask 4)" "(x + 15) AND NOT (mask 4) \<le> x + 15"
    unfolding word_le_nat_alt m u by presburger+
qed

text \<open>The state after \<open>tb_alloc\<close>.\<close>

definition alloc_next :: "u32 \<Rightarrow> tbstate \<Rightarrow> tbstate" where
  "alloc_next pc s = s\<lparr>nb_tbs := nb_tbs s + 1, tb_pc := (tb_pc s)(nb_tbs s := pc),
     tb_cflags := (tb_cflags s)(nb_tbs s := 0)\<rparr>"

lemma alloc_cases:
  "tb_alloc pc s = (if nb_tbs s \<ge> code_gen_max_blocks s \<or> code_gen_ptr s - code_gen_buffer s \<ge> code_gen_buffer_max_size s
     then (None, s) else (Some (nb_tbs s), alloc_next pc s))"
  by (simp add: tb_alloc_def alloc_next_def Let_def)

text \<open>
  Where a block is put: in the cache as it is, or in a flushed one.  The links of the hash chains
  survive the flush, the heads do not.
\<close>

definition room_for :: "tbstate \<Rightarrow> acache \<Rightarrow> tbstate \<Rightarrow> acache \<Rightarrow> bool" where
  "room_for s A s1 A1 \<longleftrightarrow> refines s1 A1 \<and> buffer_ok s1 \<and> nb_tbs s1 < code_gen_max_blocks s1 \<and>
     code_gen_ptr s1 - code_gen_buffer s1 < code_gen_buffer_max_size s1 \<and>
     code_gen_buffer_size s1 = code_gen_buffer_size s \<and> code_gen_buffer_max_size s1 = code_gen_buffer_max_size s \<and>
     cpus s1 = cpus s \<and> current_tb s1 = current_tb s \<and> phys_hash_next s1 = phys_hash_next s \<and>
     (s1 = s \<and> A1 = A \<or> nb_tbs s1 = 0 \<and> A1 = empty_cache \<and> tb_phys_hash s1 = (\<lambda>_. None) \<and> tb_invalidated_flag s1)"

lemma alloc_retry_ok:
  assumes R: "refines s A" and B: "buffer_ok s"
  obtains s1 A1 where "tb_alloc_retry pc s = Some (nb_tbs s1, alloc_next pc s1)" "room_for s A s1 A1"
proof (cases "nb_tbs s \<ge> code_gen_max_blocks s \<or> code_gen_ptr s - code_gen_buffer s \<ge> code_gen_buffer_max_size s")
  case False
  then show thesis
    using that [of s A] R B by (auto simp: tb_alloc_retry_def alloc_cases room_for_def)
next
  case True
  have fits: "code_gen_ptr s - code_gen_buffer s \<le> code_gen_buffer_size s" using B by (simp add: buffer_ok_def)
  obtain s' where s': "tb_flush s = Some s'" "refines s' empty_cache" "nb_tbs s' = 0"
    "code_gen_ptr s' = code_gen_buffer s'" "code_gen_buffer s' = code_gen_buffer s"
    "code_gen_buffer_size s' = code_gen_buffer_size s" "code_gen_max_blocks s' = code_gen_max_blocks s"
    "code_gen_buffer_max_size s' = code_gen_buffer_max_size s" "cpus s' = cpus s"
    "phys_hash_next s' = phys_hash_next s" "tb_phys_hash s' = (\<lambda>_. None)"
    "tb_invalidated_flag s' = tb_invalidated_flag s" "current_tb s' = current_tb s"
    by (rule flush_refines [OF fits]) (rule that; assumption)
  let ?s = "s'\<lparr>tb_invalidated_flag := True\<rparr>"
  have "refines ?s empty_cache"
    using s'(2) by (subst refines_cong [of _ s']) (simp_all add: all_views)
  moreover have "buffer_ok ?s" using B by (simp add: buffer_ok_def s')
  ultimately have "room_for s A ?s empty_cache"
    using B by (simp add: room_for_def s' buffer_ok_def)
  moreover have "tb_alloc_retry pc s = Some (nb_tbs ?s, alloc_next pc ?s)"
    using True B by (simp add: tb_alloc_retry_def alloc_cases s' buffer_ok_def word_gt_0) (simp add: alloc_next_def s')
  ultimately show thesis using that by blast
qed

lemma fill_fresh: "fresh_block s1 (tb_fill gen (nb_tbs s1) base flags cflags (alloc_next pc s1))"
  by (simp add: fresh_block_def tb_fill_def alloc_next_def Let_def hash_view_def page_view_def jmp_view_def)

lemma fill_fields:
  "tb_pc (tb_fill gen t base flags cflags s) = tb_pc s"
  "tb_cs_base (tb_fill gen t base flags cflags s) = (tb_cs_base s)(t := base)"
  "tb_flags (tb_fill gen t base flags cflags s) = (tb_flags s)(t := flags)"
  "page_addr (tb_fill gen t base flags cflags s) = page_addr s"
  "tb_invalidated_flag (tb_fill gen t base flags cflags s) = tb_invalidated_flag s"
  "current_tb (tb_fill gen t base flags cflags s) = current_tb s"
  "cpus (tb_fill gen t base flags cflags s) = cpus s"
  "code_gen_buffer_size (tb_fill gen t base flags cflags s) = code_gen_buffer_size s"
  "code_gen_buffer_max_size (tb_fill gen t base flags cflags s) = code_gen_buffer_max_size s"
  by (simp_all add: tb_fill_def Let_def)

text \<open>The pointer stays in the buffer and moves past the code.\<close>

lemma next_ptr:
  fixes b ptr g sz mx :: u64
  assumes "b \<le> b + sz" "b \<le> ptr" "ptr - b < mx" "mx \<le> sz" "0 < g" "unat g + 15 \<le> unat sz - unat mx"
  defines "ptr' \<equiv> (ptr + g + 15) AND NOT (mask 4)"
  shows "b \<le> ptr'" "ptr < ptr'" "ptr' - b \<le> sz"
proof -
  have n: "unat b + unat sz < 2 ^ 64" using assms(1) by (simp add: no_olen_add_nat)
  have d: "unat (ptr - b) = unat ptr - unat b" using assms(2) by (rule unat_sub)
  have pm: "unat ptr < unat b + unat mx" "unat b \<le> unat ptr" "unat mx \<le> unat sz" "0 < unat g"
    using assms(2-5) d by (simp_all add: word_less_nat_alt word_le_nat_alt)
  then have bound: "unat ptr + unat g + 15 < unat b + unat sz" using assms(6) by linarith
  then have pg: "unat (ptr + g) = unat ptr + unat g" "unat (ptr + g + 15) = unat ptr + unat g + 15"
    using n by (simp_all add: unat_word_ariths)
  have a: "unat (ptr + g) \<le> unat ptr'" "unat ptr' \<le> unat ptr + unat g + 15"
    using align_up [of "ptr + g"] bound n pg unfolding ptr'_def word_le_nat_alt by simp_all
  then show "b \<le> ptr'" "ptr < ptr'" using pm pg(1) by (simp_all add: word_le_nat_alt word_less_nat_alt)
  then have "unat (ptr' - b) = unat ptr' - unat b" by (intro unat_sub)
  then show "ptr' - b \<le> sz" using a bound by (simp add: word_le_nat_alt)
qed

lemma fill_buffer:
  assumes room: "room_for s A s1 A1" and fits: "code_fits gen s"
  shows "buffer_ok (tb_fill gen (nb_tbs s1) base flags cflags (alloc_next pc s1))"
proof -
  let ?s = "tb_fill gen (nb_tbs s1) base flags cflags (alloc_next pc s1)"
  have B: "buffer_ok s1" and room': "code_gen_ptr s1 - code_gen_buffer s1 < code_gen_buffer_max_size s1"
    using room unfolding room_for_def by blast+
  define s2 where "s2 = (alloc_next pc s1)\<lparr>tc_ptr := (tc_ptr s1)(nb_tbs s1 := code_gen_ptr s1),
    tb_cs_base := (tb_cs_base s1)(nb_tbs s1 := base), tb_flags := (tb_flags s1)(nb_tbs s1 := flags),
    tb_cflags := (tb_cflags s1)(nb_tbs s1 := cflags)\<rparr>"
  define g where "g = gen_code_size (gen (nb_tbs s1) s2)"
  have "code_gen_buffer_size s2 = code_gen_buffer_size s \<and> code_gen_buffer_max_size s2 = code_gen_buffer_max_size s"
    using room unfolding room_for_def s2_def alloc_next_def by simp
  then have g: "0 < g" "unat g + 15 \<le> unat (code_gen_buffer_size s1) - unat (code_gen_buffer_max_size s1)"
    using fits room unfolding code_fits_def room_for_def g_def by metis+
  have ptr: "code_gen_ptr ?s = (code_gen_ptr s1 + g + 15) AND NOT (mask 4)"
    by (simp add: tb_fill_def Let_def g_def s2_def alloc_next_def)
  have fields: "tc_ptr ?s = (tc_ptr s1)(nb_tbs s1 := code_gen_ptr s1)" "nb_tbs ?s = Suc (nb_tbs s1)"
    "code_gen_buffer ?s = code_gen_buffer s1" "code_gen_buffer_size ?s = code_gen_buffer_size s1"
    "code_gen_buffer_max_size ?s = code_gen_buffer_max_size s1" "code_gen_max_blocks ?s = code_gen_max_blocks s1"
    by (simp_all add: tb_fill_def alloc_next_def Let_def)
  have p: "code_gen_buffer s1 \<le> code_gen_ptr ?s" "code_gen_ptr s1 < code_gen_ptr ?s"
    "code_gen_ptr ?s - code_gen_buffer s1 \<le> code_gen_buffer_size s1"
    using next_ptr [OF _ _ room' _ g] B unfolding ptr by (simp_all add: buffer_ok_def)
  have "code_gen_buffer s1 \<le> tc_ptr ?s j \<and> tc_ptr ?s j < code_gen_ptr ?s \<and> (\<forall>i<j. tc_ptr ?s i < tc_ptr ?s j)"
    if "j < Suc (nb_tbs s1)" for j
  proof (cases "j = nb_tbs s1")
    case True
    then show ?thesis using B p by (simp add: fields buffer_ok_def)
  next
    case False
    then have "j < nb_tbs s1" using that by simp
    then show ?thesis using B p(2) less_trans unfolding fields buffer_ok_def by (fastforce simp: fun_upd_apply)
  qed
  then show ?thesis using B p unfolding buffer_ok_def fields by blast
qed

section \<open>Translation\<close>

lemma page_of_sum:
  fixes q r :: "'a::len word"
  assumes "q AND mask n = 0" "r AND mask n = r"
  shows "(q + r) AND NOT (mask n) = q"
proof -
  have q: "\<not> bit q i" if "i < n" for i
    using that assms(1) bit_and_iff [of q "mask n" i] bit_imp_possible_bit [of q i] by (auto simp: bit_mask_iff)
  have r: "\<not> bit r i" if "n \<le> i" for i
    using that assms(2) by (metis bit_and_iff bit_mask_iff not_less)
  have "q + r = q OR r" by (rule disjunctive_add) (use q r not_le in blast)
  moreover have "q AND NOT (mask n) = q" "r AND NOT (mask n) = 0"
    using page_split [of q n] page_split [of r n] assms by simp_all
  ultimately show ?thesis by (simp add: bit.conj_disj_distrib2)
qed

lemma unat_and_mask: "unat (x AND mask n) = unat (x :: 'a::len word) mod 2 ^ n"
  by (metis take_bit_eq_mask take_bit_eq_mod unsigned_take_bit_eq)

lemma and_mask_self: "unat x < 2 ^ n \<Longrightarrow> x AND mask n = (x :: 'a::len word)"
  by (simp add: word_unat_eq_iff unat_and_mask)

lemma spans_pages:
  fixes pc sz :: u32
  assumes sz: "0 < sz" "sz \<le> 0x1000" and ne: "pc AND NOT (mask 12) \<noteq> (pc + sz - 1) AND NOT (mask 12)"
  shows "4096 < unat (pc AND mask 12) + unat sz"
proof (rule ccontr)
  let ?q = "pc AND NOT (mask 12)" and ?r = "(pc AND mask 12) + (sz - 1)"
  assume "\<not> 4096 < unat (pc AND mask 12) + unat sz"
  moreover have "unat (sz - 1) = unat sz - 1" "0 < unat sz"
    using sz by (simp_all add: word_less_nat_alt word_le_nat_alt unat_sub)
  ultimately have "unat ?r < 2 ^ 12" by (simp add: unat_word_ariths)
  moreover have "?q AND mask 12 = 0" by (simp add: and.assoc)
  ultimately have "(?q + ?r) AND NOT (mask 12) = ?q" using page_of_sum and_mask_self by blast
  moreover have "pc + sz - 1 = ?q + ?r" using page_split [of pc 12] by (simp add: algebra_simps)
  ultimately show False using ne by metis
qed

lemma second_page:
  fixes pc sz :: u32
  assumes sz: "0 < sz" "sz \<le> 0x1000" and ne: "pc AND NOT (mask 12) \<noteq> (pc + sz - 1) AND NOT (mask 12)"
  shows "(pc + sz - 1) AND NOT (mask 12) = (pc AND NOT (mask 12)) + 0x1000"
proof -
  let ?q = "pc AND NOT (mask 12)" and ?o = "pc AND mask 12"
  define r where "r = ?o + (sz - 1)"
  have pc: "pc + sz - 1 = ?q + r" using page_split [of pc 12] by (simp add: r_def algebra_simps)
  have q0: "?q AND mask 12 = 0" by (simp add: and.assoc)
  have "unat ?q mod 4096 = 0" using unat_and_mask [of ?q 12] q0 by simp
  then have "(unat ?q + 4096) mod 4294967296 mod 4096 = 0" by (subst mod_mod_cancel) simp_all
  then have q1: "(?q + 0x1000) AND mask 12 = 0"
    by (simp add: word_unat_eq_iff unat_and_mask unat_word_ariths)
  have "unat (sz - 1) = unat sz - 1" "unat sz \<le> 4096" "0 < unat sz"
    using sz by (simp_all add: word_less_nat_alt word_le_nat_alt unat_sub)
  then have r: "unat r < 8191" by (simp add: r_def unat_word_ariths unat_and_mask)
  show ?thesis
  proof (cases "unat r < 4096")
    case True
    then have "r AND mask 12 = r" by (simp add: and_mask_self)
    then show ?thesis using page_of_sum [OF q0] pc ne by simp
  next
    case False
    then have "unat (r - 0x1000) < 2 ^ 12" using r by (simp add: unat_sub word_le_nat_alt)
    then show ?thesis using page_of_sum [OF q1 and_mask_self, of "r - 0x1000"] by (simp add: pc)
  qed
qed

lemma unat_size: "unat (ucast (x :: u16) :: u32) = unat x"
  using unsigned_less [of x, where 'a = nat] by (simp add: unsigned_ucast_eq take_bit_nat_eq_self)

text \<open>A block holds some guest code and no more than a page of it.\<close>

definition size_bounded :: "(nat \<Rightarrow> tbstate \<Rightarrow> gen_result) \<Rightarrow> bool" where
  "size_bounded gen \<longleftrightarrow> (\<forall>t s. 0 < gen_tb_size (gen t s) \<and> gen_tb_size (gen t s) \<le> 0x1000)"

text \<open>What a block is the translation of.\<close>

definition block_id :: "tbstate \<Rightarrow> nat \<Rightarrow> u32 \<times> u32 \<times> u64 \<times> u64 \<times> u64" where
  "block_id s t = (tb_pc s t, tb_cs_base s t, tb_flags s t, page_addr s (t, 0), page_addr s (t, 1))"

lemma gen_code_at:
  assumes s1: "tb_alloc_retry pc s = Some (nb_tbs s1, alloc_next pc s1)" "room_for s A s1 A1"
    and fits: "code_fits gen s" "size_bounded gen" and phys: "page_offset_kept phys"
  obtains s' p2 where
    "tb_gen_code phys gen pc base flags cflags s = Some (nb_tbs s1, s')"
    "refines s' (add_block (nb_tbs s1) (tb_phys_hash_func (phys pc)) (phys pc AND NOT (mask 12)) p2 A1)"
    "buffer_ok s'" "tb_matches phys pc base flags s' (nb_tbs s1)" "tb_jmp_cache s' = tb_jmp_cache s1"
    "get_hash s' = (get_hash s1)(Next (nb_tbs s1) := get_hash s1 (Bucket (tb_phys_hash_func (phys pc))),
       Bucket (tb_phys_hash_func (phys pc)) := Some (nb_tbs s1))"
    "tb_invalidated_flag s' = tb_invalidated_flag s1" "cpus s' = cpus s1" "current_tb s' = current_tb s1"
    "\<forall>t<nb_tbs s1. block_id s' t = block_id s1 t" "code_fits gen s'" "nb_tbs s' = Suc (nb_tbs s1)"
    "page_addr s' (nb_tbs s1, 1) = p2"
    "\<exists>g. tb_size s' (nb_tbs s1) = gen_tb_size (gen (nb_tbs s1) g)"
    "pc AND NOT (mask 12) = (pc + ucast (tb_size s' (nb_tbs s1)) - 1) AND NOT (mask 12) \<longrightarrow> p2 = no_page"
proof -
  define N where "N = nb_tbs s1"
  define s2 where "s2 = tb_fill gen N base flags cflags (alloc_next pc s1)"
  have F: "fresh_block s1 s2" unfolding s2_def N_def by (rule fill_fresh)
  have f2: "tb_pc s2 = (tb_pc s1)(N := pc)" "tb_cs_base s2 N = base" "tb_flags s2 N = flags"
    "tb_invalidated_flag s2 = tb_invalidated_flag s1" "current_tb s2 = current_tb s1" "cpus s2 = cpus s1"
    by (simp_all add: s2_def N_def fill_fields alloc_next_def)
  define v2 where "v2 = (pc + ucast (tb_size s2 N) - 1) AND NOT (mask 12)"
  define p2 where "p2 = (if pc AND NOT (mask 12) \<noteq> v2 then phys v2 else no_page)"
  have R1: "refines s1 A1" using s1(2) by (simp add: room_for_def)
  have ph: "phys pc AND mask 12 = ucast (tb_pc s2 N AND mask 12)"
    using phys by (simp add: f2 page_offset_kept_def)
  have sz: "0 < tb_size s2 N" "tb_size s2 N \<le> 0x1000"
    using fits(2) by (simp_all add: size_bounded_def s2_def tb_fill_def Let_def)
  then have uz: "0 < (ucast (tb_size s2 N) :: u32)" "(ucast (tb_size s2 N) :: u32) \<le> 0x1000"
    by (simp_all add: word_less_nat_alt word_le_nat_alt unat_size)
  have span: "p2 \<noteq> no_page \<longrightarrow> 4096 < unat (tb_pc s2 N AND mask 12) + unat (tb_size s2 N)"
    using spans_pages [OF uz, of pc] by (auto simp: p2_def v2_def f2 unat_size)
  obtain s' where s': "tb_link_page N (phys pc) p2 s2 = Some s'"
    "refines s' (add_block N (tb_phys_hash_func (phys pc)) (phys pc AND NOT (mask 12)) p2 A1)"
    "block_view s' = block_view s2" "tb_jmp_cache s' = tb_jmp_cache s2"
    "get_hash s' = (get_hash s2)(Next N := get_hash s2 (Bucket (tb_phys_hash_func (phys pc))),
       Bucket (tb_phys_hash_func (phys pc)) := Some N)"
    "page_addr s' = (page_addr s2)((N, 0) := phys pc AND NOT (mask 12), (N, 1) := p2)"
    "tb_invalidated_flag s' = tb_invalidated_flag s2" "current_tb s' = current_tb s2"
    by (rule link_refines [OF R1 F N_def ph sz span]) (rule that; assumption)
  note bf = block_fields [OF s'(3)] and fd = fresh_blockD [OF F]
  have "p2 \<noteq> no_page \<longrightarrow> p2 = phys ((pc AND NOT (mask 12)) + 0x1000)"
    using second_page [OF uz, of pc] by (auto simp: p2_def v2_def)
  then have "tb_matches phys pc base flags s' N" by (simp add: tb_matches_def bf f2 s'(6))
  moreover have "buffer_ok s'"
    using fill_buffer [OF s1(2) fits(1), of base flags cflags pc] by (simp add: buffer_ok_def bf s2_def N_def)
  moreover have "tb_gen_code phys gen pc base flags cflags s = Some (N, s')"
    unfolding tb_gen_code_def Let_def s1(1) bind.bind_lunit prod.case N_def [symmetric] s2_def [symmetric]
      v2_def [symmetric] p2_def [symmetric] s'(1) ..
  moreover have "block_id s' t = block_id s1 t" if "t < N" for t
    using that by (simp add: block_id_def bf s'(6) s2_def N_def fill_fields alloc_next_def)
  moreover have "code_fits gen s'"
    using fits(1) s1(2) by (simp add: code_fits_def room_for_def bf s2_def fill_fields alloc_next_def)
  moreover have "\<exists>g. tb_size s' N = gen_tb_size (gen N g)"
    unfolding bf s2_def tb_fill_def Let_def by auto
  moreover have "pc AND NOT (mask 12) = (pc + ucast (tb_size s' N) - 1) AND NOT (mask 12) \<longrightarrow> p2 = no_page"
    by (simp add: bf p2_def v2_def)
  ultimately show thesis
    using s1(2) s' fd(1,5) f2 view_cong(1) [OF fd(2)] bf(8,9) unfolding N_def by (intro that [of s' p2]) simp_all
qed

lemma gen_code_refines:
  assumes R: "refines s A" and B: "buffer_ok s" and fits: "code_fits gen s" "size_bounded gen"
    and phys: "page_offset_kept phys"
  obtains s1 A1 s' p2 where "room_for s A s1 A1"
    "tb_gen_code phys gen pc base flags cflags s = Some (nb_tbs s1, s')"
    "refines s' (add_block (nb_tbs s1) (tb_phys_hash_func (phys pc)) (phys pc AND NOT (mask 12)) p2 A1)"
    "buffer_ok s'" "code_fits gen s'"
proof -
  obtain s1 A1 where s1: "tb_alloc_retry pc s = Some (nb_tbs s1, alloc_next pc s1)" "room_for s A s1 A1"
    using alloc_retry_ok [OF R B] by blast
  show thesis by (rule gen_code_at [OF s1 fits phys]) (rule that [OF s1(2)]; assumption)
qed

section \<open>Lookup\<close>

lemma find_loop_found:
  assumes "path (get_hash s) Next l (xs @ t # ys) e" "\<forall>u\<in>set xs. \<not> m u" "m t"
  shows "tb_find_loop m l s = Some (last_loc Next l xs, Some t)"
  using assms
proof (induction xs arbitrary: l)
  case Nil
  then show ?case by (subst tb_find_loop.simps) simp
next
  case (Cons u xs)
  then show ?case by (subst tb_find_loop.simps) simp
qed

lemma find_loop_absent:
  assumes "path (get_hash s) Next l xs None" "\<forall>u\<in>set xs. \<not> m u"
  shows "tb_find_loop m l s = Some (last_loc Next l xs, None)"
  using assms
proof (induction xs arbitrary: l)
  case Nil
  then show ?case by (subst tb_find_loop.simps) simp
next
  case (Cons u xs)
  then show ?case by (subst tb_find_loop.simps) simp
qed

definition to_front :: "nat \<Rightarrow> nat \<Rightarrow> acache \<Rightarrow> acache" where
  "to_front h t A = A\<lparr>buckets := (buckets A)(h := t # remove1 t (buckets A h))\<rparr>"

lemma live_to_front: "t \<in> set (buckets A h) \<Longrightarrow> live (to_front h t A) = live A"
proof -
  assume "t \<in> set (buckets A h)"
  then have "set (t # remove1 t (buckets A h)) = set (buckets A h)"
    using set_remove1_subset [of t "buckets A h"] by (auto intro: in_set_remove1 [THEN iffD2, rotated])
  then have "set (buckets (to_front h t A) j) = set (buckets A j)" for j by (simp add: to_front_def)
  then show ?thesis by (simp add: live_def)
qed

lemma to_front_views:
  "page_view (tb_to_front l h t s) = page_view s" "jmp_view (tb_to_front l h t s) = jmp_view s"
  "static_view (tb_to_front l h t s) = static_view s" "tb_jmp_cache (tb_to_front l h t s) = tb_jmp_cache s"
  "tb_invalidated_flag (tb_to_front l h t s) = tb_invalidated_flag s"
  "current_tb (tb_to_front l h t s) = current_tb s"
  by (simp_all add: tb_to_front_def Let_def put_hash_def all_views split: hash_loc.split)

lemma to_front_get:
  assumes "get_hash s l \<noteq> None"
  shows "get_hash (tb_to_front l h t s) = (let m = (get_hash s)(l := get_hash s (Next t))
     in m(Next t := m (Bucket h), Bucket h := Some t))"
  using assms
  by (cases l) (auto simp: tb_to_front_def Let_def get_hash_def put_hash_def fun_eq_iff split: hash_loc.split)

lemma to_front_refines:
  assumes R: "refines s A" and b: "buckets A h = xs @ t # ys"
  shows "refines (tb_to_front (last_loc Next (Bucket h) xs) h t s) (to_front h t A)"
proof -
  let ?l = "last_loc Next (Bucket h) xs" and ?A = "to_front h t A"
  let ?s = "tb_to_front ?l h t s" and ?m = "(get_hash s)(?l := get_hash s (Next t))"
  note Rf = refinesD [OF R] and v = to_front_views [of ?l h t s]
  have L: "lists_at (get_hash s) Next Bucket (buckets A)" and
    hs: "\<And>j u. u \<in> set (buckets A j) \<Longrightarrow> tb_hash s u = j"
    using Rf(3) by (simp_all add: hash_ok_def)
  then have p: "path (get_hash s) Next (Bucket h) (xs @ t # ys) None" and d: "distinct (xs @ t # ys)"
    unfolding lists_at_def b [symmetric] by blast+
  have ne: "get_hash s ?l \<noteq> None" using p by (auto simp: path_append dest: path_end)
  have "t \<notin> set (((buckets A)(h := xs @ ys)) j)" for j
    using d hs [of t j] hs [of t h] by (auto simp: b split: if_splits)
  note lists = hash_list.lists_at_push [OF hash_list.lists_at_unlink [OF L b] this, of h]
  have front: "buckets ?A = (buckets A)(h := t # xs @ ys)"
    using d by (simp add: to_front_def b remove1_append)
  then have "lists_at (get_hash ?s) Next Bucket (buckets ?A)"
    using lists unfolding to_front_get [OF ne] Let_def front by (simp only: fun_upd_upd fun_upd_same)
  moreover have "tb_hash ?s u = j" if "u \<in> set (buckets ?A j)" for u j
    using that hs [of u j] b unfolding front view_cong(6) [OF v(3)] by (auto split: if_splits)
  ultimately have "hash_ok ?s ?A" by (simp add: hash_ok_def)
  moreover have "live ?A = live A" using b by (simp add: live_to_front)
  moreover have "plists ?A = plists A" "jumpers ?A = jumpers A" by (simp_all add: to_front_def)
  moreover have "nb_tbs ?s = nb_tbs s" "page_addr ?s = page_addr s" "tb_pc ?s = tb_pc s" "tb_size ?s = tb_size s"
    using v(3) by (simp_all add: static_view_def)
  ultimately show ?thesis
    using Rf ok_cong(2) [OF v(1,3), of A] ok_cong(3) [OF v(2,3), of A] ok_cong(4) [OF v(4,3), of A]
    by (simp add: refines_def fits_pages_def page_ok_def jmp_ok_def jcache_ok_def)
qed

text \<open>After a translation the new block is already at the front.\<close>

lemma to_front_id:
  assumes "get_hash s l = None \<or> l = Bucket h \<and> get_hash s l = Some t \<and> get_hash s (Next t) = None"
  shows "tb_to_front l h t s = s"
proof (cases "get_hash s l")
  case None
  then show ?thesis by (simp add: tb_to_front_def)
next
  case (Some u)
  then have l: "l = Bucket h" "tb_phys_hash s h = Some t" "phys_hash_next s t = None"
    using assms by (auto simp: get_hash_def)
  then have "(tb_phys_hash s)(h := None, h \<mapsto> t) = tb_phys_hash s" "(phys_hash_next s)(t := None) = phys_hash_next s"
    by (auto simp: fun_eq_iff)
  then show ?thesis using l Some by (simp add: tb_to_front_def put_hash_def Let_def)
qed

lemma front_fresh:
  assumes R: "refines s A" and room: "room_for s A s1 A1"
    and g: "get_hash s' = (get_hash s1)(Next (nb_tbs s1) := get_hash s1 (Bucket h), Bucket h := Some (nb_tbs s1))"
  shows "tb_to_front (last_loc Next (Bucket h) (buckets A h)) h (nb_tbs s1) s' = s'"
proof (rule to_front_id)
  let ?xs = "buckets A h" and ?N = "nb_tbs s1"
  have p: "path (get_hash s) Next (Bucket h) ?xs None"
    using refinesD(3) [OF R] by (simp add: hash_ok_def lists_at_def)
  have flushed: "s1 = s \<or> get_hash s1 (Bucket h) = None" and nx: "\<And>t. get_hash s1 (Next t) = get_hash s (Next t)"
    using room by (auto simp: room_for_def get_hash_def)
  show "get_hash s' (last_loc Next (Bucket h) ?xs) = None \<or> last_loc Next (Bucket h) ?xs = Bucket h \<and>
      get_hash s' (last_loc Next (Bucket h) ?xs) = Some ?N \<and> get_hash s' (Next ?N) = None"
  proof (cases "?xs = []")
    case True
    then show ?thesis using p flushed by (auto simp: g)
  next
    case False
    then have "last ?xs \<in> live A" by (rule liveI [OF last_in_set])
    then have ne: "last ?xs \<noteq> nb_tbs s" using refinesD(1) [OF R] by auto
    have "get_hash s (Next (last ?xs)) = None" using path_end [OF p] False by (simp add: last_loc_cases)
    then show ?thesis using False flushed nx ne by (auto simp: g last_loc_cases)
  qed
qed

lemma cache_entry_refines:
  assumes "refines s A" "t \<in> live A" "tb_pc s t = pc"
  shows "refines (s\<lparr>tb_jmp_cache := (tb_jmp_cache s)(env := (tb_jmp_cache s env)(tb_jmp_cache_hash_func pc \<mapsto> t))\<rparr>) A"
proof -
  let ?s = "s\<lparr>tb_jmp_cache := (tb_jmp_cache s)(env := (tb_jmp_cache s env)(tb_jmp_cache_hash_func pc \<mapsto> t))\<rparr>"
  have v: "hash_view ?s = hash_view s" "page_view ?s = page_view s" "jmp_view ?s = jmp_view s"
    "static_view ?s = static_view s"
    by (simp_all add: all_views)
  have "jcache_ok ?s A" using assms unfolding refines_def fits_pages_def jcache_ok_def by auto
  then show ?thesis
    using assms(1) ok_cong(1) [OF v(1,4)] ok_cong(2) [OF v(2,4)] ok_cong(3) [OF v(3,4)] by (simp add: refines_def fits_pages_def)
qed

text \<open>The invariant of the cache together with its buffer.\<close>

definition cache_ok :: "(nat \<Rightarrow> tbstate \<Rightarrow> gen_result) \<Rightarrow> tbstate \<Rightarrow> acache \<Rightarrow> bool" where
  "cache_ok gen s A \<longleftrightarrow> refines s A \<and> buffer_ok s \<and> code_fits gen s"

lemma static_ok:
  assumes "static_view s' = static_view s"
  shows "buffer_ok s' = buffer_ok s" "code_fits gen s' = code_fits gen s" "block_id s' = block_id s"
    "tb_matches phys pc base flags s' = tb_matches phys pc base flags s"
proof -
  note f = assms [unfolded static_view_def prod.inject]
  show "buffer_ok s' = buffer_ok s" "code_fits gen s' = code_fits gen s" "block_id s' = block_id s"
    "tb_matches phys pc base flags s' = tb_matches phys pc base flags s"
    using f by (simp_all add: buffer_ok_def code_fits_def block_id_def tb_matches_def fun_eq_iff)
qed

text \<open>What a lookup does to the blocks: it keeps them, or flushes them to make room for a new one.\<close>

definition looked_up :: "nat \<Rightarrow> nat \<Rightarrow> tbstate \<Rightarrow> acache \<Rightarrow> tbstate \<Rightarrow> acache \<Rightarrow> bool" where
  "looked_up env t s A s' A' \<longleftrightarrow> t \<in> live A' \<and> cpus s' = cpus s \<and> current_tb s' = current_tb s \<and>
     (\<forall>c\<in>set (cpus s). \<forall>h u. tb_jmp_cache s' c h = Some u \<longrightarrow>
        c = env \<and> u = t \<or> tb_jmp_cache s c h = Some u \<and> block_id s' u = block_id s u) \<and>
     (if tb_invalidated_flag s' then live A' = {t}
      else live A' = insert t (live A) \<and> (\<forall>u\<in>live A. block_id s' u = block_id s u))"

definition set_entry :: "nat \<Rightarrow> u32 \<Rightarrow> nat \<Rightarrow> tbstate \<Rightarrow> tbstate" where
  "set_entry env pc t s = s\<lparr>tb_jmp_cache := (tb_jmp_cache s)(env :=
     (tb_jmp_cache s env)(tb_jmp_cache_hash_func pc \<mapsto> t))\<rparr>"

lemma find_slow_found:
  assumes C: "cache_ok gen s A" and b: "buckets A h = xs @ t # ys" "h = tb_phys_hash_func (phys pc)"
    and m: "\<forall>u\<in>set xs. \<not> tb_matches phys pc base flags s u" "tb_matches phys pc base flags s t"
  obtains s' where "tb_find_slow phys gen env pc base flags s = Some (t, s')" "cache_ok gen s' (to_front h t A)"
    "tb_matches phys pc base flags s' t" "looked_up env t s A s' (to_front h t A)"
    "tb_jmp_cache s' env (tb_jmp_cache_hash_func pc) = Some t"
proof -
  let ?l = "last_loc Next (Bucket h) xs" and ?A = "to_front h t A"
  define s0 where "s0 = s\<lparr>tb_invalidated_flag := False\<rparr>"
  define s1 where "s1 = tb_to_front ?l h t s0"
  define s' where "s' = set_entry env pc t s1"
  have v0: "hash_view s0 = hash_view s" "page_view s0 = page_view s" "jmp_view s0 = jmp_view s"
    "static_view s0 = static_view s" "tb_jmp_cache s0 = tb_jmp_cache s" "current_tb s0 = current_tb s"
    by (simp_all add: s0_def all_views)
  have R0: "refines s0 A" using refines_cong [OF v0(1-5)] C by (simp add: cache_ok_def)
  note v1 = to_front_views [of ?l h t s0, folded s1_def]
  have sv: "static_view s' = static_view s" using v1(3) v0(4) by (simp add: s'_def set_entry_def static_view_def)
  note st = static_ok [OF sv] and st1 = static_ok [OF trans [OF v1(3) v0(4)]] and st0 = static_ok [OF v0(4)]
  have t: "t \<in> live A" "live ?A = live A" using b(1) liveI [of t A h] by (simp_all add: live_to_front)
  have p: "path (get_hash s0) Next (Bucket h) (xs @ t # ys) None"
    using refinesD(3) [OF R0] unfolding hash_ok_def lists_at_def b(1) [symmetric] by blast
  have "refines s1 ?A" unfolding s1_def by (rule to_front_refines [OF R0 b(1)])
  moreover have "tb_pc s1 t = pc" using m(2) unfolding st1(4) [symmetric] by (simp add: tb_matches_def)
  ultimately have "refines s' ?A" using t unfolding s'_def set_entry_def by (intro cache_entry_refines) simp_all
  then have "cache_ok gen s' ?A" using C by (simp add: cache_ok_def st)
  moreover have "tb_find_slow phys gen env pc base flags s = Some (t, s')"
    using find_loop_found [OF p, of "tb_matches phys pc base flags s0"] m unfolding st0
    by (simp add: tb_find_slow_def Let_def b(2) [symmetric] s0_def [symmetric] s1_def [symmetric] st0 s'_def set_entry_def)
  moreover have "looked_up env t s A s' ?A"
    using t v0(5,6) v1(4-6) sv unfolding looked_up_def st
    by (auto simp: s'_def set_entry_def static_view_def s0_def split: if_splits)
  moreover have "tb_jmp_cache s' env (tb_jmp_cache_hash_func pc) = Some t" by (simp add: s'_def set_entry_def)
  ultimately show thesis using that m(2) by (simp add: st)
qed

lemma new_looked_up:
  assumes R: "refines s A" and room: "room_for s A s1 A1" and flag: "\<not> tb_invalidated_flag s"
    and s2: "tb_jmp_cache s2 = tb_jmp_cache s1" "tb_invalidated_flag s2 = tb_invalidated_flag s1" "cpus s2 = cpus s1"
      "current_tb s2 = current_tb s1" "\<forall>t<nb_tbs s1. block_id s2 t = block_id s1 t"
  shows "looked_up env (nb_tbs s1) s A (set_entry env pc (nb_tbs s1) s2) (add_block (nb_tbs s1) h p1 p2 A1)"
proof -
  let ?t = "nb_tbs s1" and ?s = "set_entry env pc (nb_tbs s1) s2"
  have R1: "refines s1 A1" and same: "cpus s1 = cpus s" "current_tb s1 = current_tb s"
    using room by (simp_all add: room_for_def)
  have old: "block_id ?s u = block_id s1 u" if "u \<in> live A1" for u
    using that refinesD(1) [OF R1] s2(5) by (simp add: set_entry_def block_id_def)
  have entry: "c = env \<and> u = ?t \<or> tb_jmp_cache s1 c j = Some u \<and> u \<in> live A1"
    if "c \<in> set (cpus s)" "tb_jmp_cache ?s c j = Some u" for c j u
    using that refinesD(6) [OF R1] by (auto simp: set_entry_def s2 jcache_ok_def same split: if_splits)
  have fields: "cpus ?s = cpus s" "current_tb ?s = current_tb s" "tb_invalidated_flag ?s = tb_invalidated_flag s1"
    by (simp_all add: set_entry_def s2 same)
  consider "s1 = s" "A1 = A" | "A1 = empty_cache" "tb_invalidated_flag s1"
    using room unfolding room_for_def by blast
  then show ?thesis
  proof cases
    case 1
    have "tb_jmp_cache s1 c j = Some u \<and> u \<in> live A1 \<Longrightarrow> tb_jmp_cache s c j = Some u \<and> block_id ?s u = block_id s u"
      for c j u using old [of u] by (simp add: 1(1))
    then have "\<forall>c\<in>set (cpus s). \<forall>j u. tb_jmp_cache ?s c j = Some u \<longrightarrow>
        c = env \<and> u = ?t \<or> tb_jmp_cache s c j = Some u \<and> block_id ?s u = block_id s u"
      using entry by blast
    moreover have "\<forall>u\<in>live A. block_id ?s u = block_id s u" using old by (simp add: 1)
    ultimately show ?thesis using flag unfolding looked_up_def fields by (simp add: 1)
  next
    case 2
    have "\<forall>c\<in>set (cpus s). \<forall>j u. tb_jmp_cache ?s c j = Some u \<longrightarrow> c = env \<and> u = ?t"
      using entry by (simp add: 2)
    then show ?thesis unfolding looked_up_def fields by (simp add: 2)
  qed
qed

lemma find_slow_at:
  assumes C: "cache_ok gen s A" and gen: "size_bounded gen" "page_offset_kept phys"
    and m: "\<forall>u\<in>set (buckets A (tb_phys_hash_func (phys pc))). \<not> tb_matches phys pc base flags s u"
    and s0: "s0 = s\<lparr>tb_invalidated_flag := False\<rparr>"
    and s1: "tb_alloc_retry pc s0 = Some (nb_tbs s1, alloc_next pc s1)" "room_for s0 A s1 A1"
  obtains s' p2 where "tb_find_slow phys gen env pc base flags s = Some (nb_tbs s1, s')"
    "cache_ok gen s' (add_block (nb_tbs s1) (tb_phys_hash_func (phys pc)) (phys pc AND NOT (mask 12)) p2 A1)"
    "tb_matches phys pc base flags s' (nb_tbs s1)"
    "looked_up env (nb_tbs s1) s A s' (add_block (nb_tbs s1) (tb_phys_hash_func (phys pc)) (phys pc AND NOT (mask 12)) p2 A1)"
    "tb_jmp_cache s' env (tb_jmp_cache_hash_func pc) = Some (nb_tbs s1)"
    "tb_invalidated_flag s' = tb_invalidated_flag s1" "nb_tbs s' = Suc (nb_tbs s1)"
    "page_addr s' (nb_tbs s1, 1) = p2"
    "\<exists>g. tb_size s' (nb_tbs s1) = gen_tb_size (gen (nb_tbs s1) g)"
    "pc AND NOT (mask 12) = (pc + ucast (tb_size s' (nb_tbs s1)) - 1) AND NOT (mask 12) \<longrightarrow> p2 = no_page"
proof -
  let ?h = "tb_phys_hash_func (phys pc)"
  let ?l = "last_loc Next (Bucket ?h) (buckets A ?h)"
  have v0: "hash_view s0 = hash_view s" "page_view s0 = page_view s" "jmp_view s0 = jmp_view s"
    "static_view s0 = static_view s" "tb_jmp_cache s0 = tb_jmp_cache s" "current_tb s0 = current_tb s" "cpus s0 = cpus s"
    by (simp_all add: s0 all_views)
  note st0 = static_ok [OF v0(4)]
  have R0: "refines s0 A" using refines_cong [OF v0(1-5)] C by (simp add: cache_ok_def)
  have C0: "code_fits gen s0" using C by (simp add: cache_ok_def st0)
  obtain s2 p2 where
    s2: "tb_gen_code phys gen pc base flags 0 s0 = Some (nb_tbs s1, s2)"
    "refines s2 (add_block (nb_tbs s1) ?h (phys pc AND NOT (mask 12)) p2 A1)"
    "buffer_ok s2" "tb_matches phys pc base flags s2 (nb_tbs s1)" "tb_jmp_cache s2 = tb_jmp_cache s1"
    "get_hash s2 = (get_hash s1)(Next (nb_tbs s1) := get_hash s1 (Bucket ?h), Bucket ?h := Some (nb_tbs s1))"
    "tb_invalidated_flag s2 = tb_invalidated_flag s1" "cpus s2 = cpus s1" "current_tb s2 = current_tb s1"
    "\<forall>t<nb_tbs s1. block_id s2 t = block_id s1 t" "code_fits gen s2" "nb_tbs s2 = Suc (nb_tbs s1)"
    "page_addr s2 (nb_tbs s1, 1) = p2"
    "\<exists>g. tb_size s2 (nb_tbs s1) = gen_tb_size (gen (nb_tbs s1) g)"
    "pc AND NOT (mask 12) = (pc + ucast (tb_size s2 (nb_tbs s1)) - 1) AND NOT (mask 12) \<longrightarrow> p2 = no_page"
    by (rule gen_code_at [OF s1 C0 gen, of base flags 0]) (rule that; assumption)
  let ?t = "nb_tbs s1" and ?A = "add_block (nb_tbs s1) ?h (phys pc AND NOT (mask 12)) p2 A1"
  define s' where "s' = set_entry env pc ?t s2"
  have sv: "static_view s' = static_view s2" by (simp add: s'_def set_entry_def static_view_def)
  note st = static_ok [OF sv]
  have p: "path (get_hash s0) Next (Bucket ?h) (buckets A ?h) None"
    using refinesD(3) [OF R0] by (simp add: hash_ok_def lists_at_def)
  have "refines s' ?A"
    using s2(4) unfolding s'_def set_entry_def by (intro cache_entry_refines s2(2)) (simp_all add: tb_matches_def)
  then have "cache_ok gen s' ?A" using s2(3,11) by (simp add: cache_ok_def st)
  moreover have "tb_find_slow phys gen env pc base flags s = Some (?t, s')"
    using find_loop_absent [OF p, of "tb_matches phys pc base flags s0"] m front_fresh [OF R0 s1(2) s2(6)]
    unfolding tb_find_slow_def Let_def s0 [symmetric] by (simp add: st0 s2(1) s'_def set_entry_def)
  moreover have "looked_up env ?t s0 A s' ?A"
    unfolding s'_def using R0 s1(2) _ s2(5,7-10) by (rule new_looked_up) (simp add: s0)
  then have "looked_up env ?t s A s' ?A" unfolding looked_up_def v0(5-7) st0(3) .
  moreover have "tb_jmp_cache s' env (tb_jmp_cache_hash_func pc) = Some ?t" by (simp add: s'_def set_entry_def)
  moreover have "tb_invalidated_flag s' = tb_invalidated_flag s1" "nb_tbs s' = Suc (nb_tbs s1)"
    using s2(7,12) by (simp_all add: s'_def set_entry_def)
  moreover have "page_addr s' = page_addr s2" "tb_size s' = tb_size s2" by (simp_all add: s'_def set_entry_def)
  ultimately show thesis using that [of s' p2] s2(4,13-15) by (simp add: st)
qed

lemma find_slow_new:
  assumes C: "cache_ok gen s A" and gen: "size_bounded gen" "page_offset_kept phys"
    and m: "\<forall>u\<in>set (buckets A (tb_phys_hash_func (phys pc))). \<not> tb_matches phys pc base flags s u"
  obtains t s' A' where "tb_find_slow phys gen env pc base flags s = Some (t, s')" "cache_ok gen s' A'"
    "tb_matches phys pc base flags s' t" "looked_up env t s A s' A'"
    "tb_jmp_cache s' env (tb_jmp_cache_hash_func pc) = Some t"
proof -
  define s0 where "s0 = s\<lparr>tb_invalidated_flag := False\<rparr>"
  have v0: "hash_view s0 = hash_view s" "page_view s0 = page_view s" "jmp_view s0 = jmp_view s"
    "static_view s0 = static_view s" "tb_jmp_cache s0 = tb_jmp_cache s"
    by (simp_all add: s0_def all_views)
  have R0: "refines s0 A" using refines_cong [OF v0] C by (simp add: cache_ok_def)
  have B0: "buffer_ok s0" using static_ok(1) [OF v0(4)] C by (simp add: cache_ok_def)
  obtain s1 A1 where s1: "tb_alloc_retry pc s0 = Some (nb_tbs s1, alloc_next pc s1)" "room_for s0 A s1 A1"
    using alloc_retry_ok [OF R0 B0] by blast
  show thesis by (rule find_slow_at [OF C gen m s0_def s1]) (rule that; assumption)
qed

lemma find_slow_ok:
  assumes C: "cache_ok gen s A" and gen: "size_bounded gen" "page_offset_kept phys"
  obtains t s' A' where "tb_find_slow phys gen env pc base flags s = Some (t, s')" "cache_ok gen s' A'"
    "tb_matches phys pc base flags s' t" "looked_up env t s A s' A'"
    "tb_jmp_cache s' env (tb_jmp_cache_hash_func pc) = Some t"
proof (cases "\<exists>u\<in>set (buckets A (tb_phys_hash_func (phys pc))). tb_matches phys pc base flags s u")
  case True
  then obtain xs t ys where b: "buckets A (tb_phys_hash_func (phys pc)) = xs @ t # ys"
    "\<forall>u\<in>set xs. \<not> tb_matches phys pc base flags s u" "tb_matches phys pc base flags s t"
    using split_list_first_prop [OF True] by blast
  show thesis by (rule find_slow_found [OF C b(1) refl b(2,3)]) (rule that; assumption)
next
  case False
  then have n: "\<forall>u\<in>set (buckets A (tb_phys_hash_func (phys pc))). \<not> tb_matches phys pc base flags s u" by blast
  show thesis by (rule find_slow_new [OF C gen n]) (rule that; assumption)
qed

text \<open>
  The entries of the jump cache are current when their blocks are translations of what the pages map
  to now.
\<close>

definition maps_to :: "(u32 \<Rightarrow> u64) \<Rightarrow> tbstate \<Rightarrow> nat \<Rightarrow> bool" where
  "maps_to phys s t \<longleftrightarrow> tb_matches phys (tb_pc s t) (tb_cs_base s t) (tb_flags s t) s t"

definition entries_current :: "(u32 \<Rightarrow> u64) \<Rightarrow> nat \<Rightarrow> tbstate \<Rightarrow> bool" where
  "entries_current phys env s \<longleftrightarrow> (\<forall>h t. tb_jmp_cache s env h = Some t \<longrightarrow> maps_to phys s t)"

lemma maps_to_id: "block_id s' t = block_id s t \<Longrightarrow> maps_to phys s' t = maps_to phys s t"
  by (simp add: maps_to_def tb_matches_def block_id_def)

lemma matches_maps_to: "tb_matches phys pc base flags s t \<longleftrightarrow>
    tb_pc s t = pc \<and> tb_cs_base s t = base \<and> tb_flags s t = flags \<and> maps_to phys s t"
  by (auto simp: maps_to_def tb_matches_def)

lemma find_fast_ok:
  assumes C: "cache_ok gen s A" and gen: "size_bounded gen" "page_offset_kept phys"
    and env: "env \<in> set (cpus s)" "entries_current phys env s"
  obtains t s' A' where "tb_find_fast phys gen env pc base flags s = Some (t, s')" "cache_ok gen s' A'"
    "tb_matches phys pc base flags s' t" "t \<in> live A'" "entries_current phys env s'" "cpus s' = cpus s"
    "tb_jmp_cache s' env (tb_jmp_cache_hash_func pc) = Some t" "current_tb s' = current_tb s"
proof (cases "\<exists>t. tb_jmp_cache s env (tb_jmp_cache_hash_func pc) = Some t \<and>
    tb_pc s t = pc \<and> tb_cs_base s t = base \<and> tb_flags s t = flags")
  case True
  then obtain t where t: "tb_jmp_cache s env (tb_jmp_cache_hash_func pc) = Some t"
    "tb_pc s t = pc" "tb_cs_base s t = base" "tb_flags s t = flags" by blast
  then have "tb_matches phys pc base flags s t" using env(2) by (auto simp: matches_maps_to entries_current_def)
  moreover have "t \<in> live A" using t(1) env(1) refinesD(6) C by (auto simp: cache_ok_def jcache_ok_def)
  ultimately show thesis using that [OF _ C] t env(2) by (simp add: tb_find_fast_def)
next
  case False
  then have "tb_find_fast phys gen env pc base flags s = tb_find_slow phys gen env pc base flags s"
    by (auto simp: tb_find_fast_def split: option.split)
  moreover obtain t s' A' where r: "tb_find_slow phys gen env pc base flags s = Some (t, s')" "cache_ok gen s' A'"
    "tb_matches phys pc base flags s' t" "looked_up env t s A s' A'"
    "tb_jmp_cache s' env (tb_jmp_cache_hash_func pc) = Some t"
    by (rule find_slow_ok [OF C gen]) (rule that; assumption)
  moreover have "maps_to phys s' u" if "tb_jmp_cache s' env h = Some u" for h u
  proof (cases "u = t")
    case True
    then show ?thesis using r(3) by (simp add: matches_maps_to)
  next
    case False
    then have "tb_jmp_cache s env h = Some u" "block_id s' u = block_id s u"
      using r(4) env(1) that unfolding looked_up_def by blast+
    then show ?thesis using env(2) maps_to_id [of s' u s phys] unfolding entries_current_def by blast
  qed
  then have "entries_current phys env s'" by (simp add: entries_current_def)
  moreover have "t \<in> live A'" "cpus s' = cpus s" "current_tb s' = current_tb s"
    using r(4) by (simp_all add: looked_up_def)
  ultimately show thesis using that r by simp
qed

end
