(* ===== verification/Code_Cache_Unchain.thy ===== *)
theory Code_Cache_Unchain
  imports Code_Cache_Find
begin

text \<open>
  Interrupting a chain of blocks: the recursion of \<open>tb_reset_jump_recursive\<close> ends although blocks may
  jump to each other in cycles, and no block that the chain leads to is left with a direct jump.
\<close>

declare split_paired_All [simp del] split_paired_Ex [simp del]

text \<open>The two loops over the circular list that holds an exit.\<close>

lemma jmp_head_path:
  "path m id l ys (Some (T, 2)) \<Longrightarrow> \<forall>y\<in>set ys. snd y < 2 \<and> jmp_next s y = m y \<Longrightarrow> tb_jmp_head (m l) s = Some T"
proof (induction ys arbitrary: l)
  case Nil
  then show ?case by (subst tb_jmp_head.simps) simp
next
  case (Cons y ys)
  then show ?case by (subst tb_jmp_head.simps) (auto split: prod.split)
qed

lemma jmp_first_unlink_path:
  "path (get_jmp s) id l (xs @ x # ys) e \<Longrightarrow> \<forall>y\<in>set xs. y \<noteq> x \<and> snd y \<noteq> 2 \<Longrightarrow>
     tb_jmp_first_unlink l x s = Some (put_jmp s (last_loc id l xs) (get_jmp s x))"
proof (induction xs arbitrary: l)
  case Nil
  then show ?case by (subst tb_jmp_first_unlink.simps) simp
next
  case (Cons y xs)
  then show ?case by (subst tb_jmp_first_unlink.simps) (simp add: id_def)
qed

definition drop_exit :: "tptr \<Rightarrow> acache \<Rightarrow> acache" where
  "drop_exit x A = A\<lparr>jumpers := (\<lambda>T. removeAll x (jumpers A T))\<rparr>"

lemma drop_exit_simps [simp]:
  "buckets (drop_exit x A) = buckets A" "plists (drop_exit x A) = plists A" "live (drop_exit x A) = live A"
  "set (jumpers (drop_exit x A) T) = set (jumpers A T) - {x}"
  by (simp_all add: drop_exit_def live_def)

text \<open>One round of the recursion takes the exit off its list and points it back to its stub.\<close>

lemma reset_exit_refines:
  assumes R: "refines s A" and T: "T < nb_tbs s" "x \<in> set (jumpers A T)"
  obtains s1 s2 where "jmp_next s x \<noteq> None" "tb_jmp_head (jmp_next s x) s = Some T"
    "tb_jmp_first_unlink (T, 2) x s = Some s1"
    "s2 = tb_reset_jump (fst x) (snd x) (s1\<lparr>jmp_next := (jmp_next s1)(x := None)\<rparr>)"
    "refines s2 (drop_exit x A)" "hash_view s2 = hash_view s" "page_view s2 = page_view s"
    "static_view s2 = static_view s" "other_view s2 = other_view s" "tb_jmp_cache s2 = tb_jmp_cache s"
    "tb_invalidated_flag s2 = tb_invalidated_flag s"
proof -
  have J: "jmp_lists s (jumpers A)" using refinesD(5) [OF R] by (simp add: jmp_ok_def)
  then have C: "circular (get_jmp s) (nb_tbs s) (jumpers A)" and
    N: "fst x < nb_tbs s \<Longrightarrow> snd x < 2 \<Longrightarrow> jmp_next s x \<noteq> None" using T unfolding jmp_lists_def by blast+
  obtain xs ys where split: "jumpers A T = xs @ x # ys" using T(2) by (auto simp: in_set_conv_decomp)
  note CT = circularD [OF C T(1)]
  have x: "fst x < nb_tbs s" "snd x < 2" using CT(3) [OF T(2)] by simp_all
  have p: "path (get_jmp s) id (T, 2) (xs @ x # ys) (Some (T, 2))" using CT(1) by (simp add: split)
  have lt: "snd y < 2 \<and> jmp_next s y = get_jmp s y" if "y \<in> set (xs @ x # ys)" for y
    using CT(3) [of y] that by (simp add: split jmp_next_get)
  have d: "x \<notin> set xs" using CT(2) by (simp add: split)
  have head: "tb_jmp_head (jmp_next s x) s = Some T"
    using jmp_head_path [of "get_jmp s" x ys T s] p lt by (cases ys) (auto simp: path_append)
  have "\<forall>y\<in>set xs. y \<noteq> x \<and> snd y \<noteq> 2" using lt d by fastforce
  note ul = jmp_first_unlink_path [OF p this]
  obtain s2 where s2: "tb_jmp_remove (fst x) (snd x) s = Some s2" "jmp_lists s2 (\<lambda>T. removeAll x (jumpers A T))"
    "hash_view s2 = hash_view s" "page_view s2 = page_view s" "static_view s2 = static_view s"
    "other_view s2 = other_view s" "tb_jmp_cache s2 = tb_jmp_cache s" "jmp_target s2 = jmp_target s"
    "\<forall>y. snd y < 2 \<longrightarrow> jmp_next s2 y = None \<longleftrightarrow> jmp_next s y = None \<or> y = x"
    "tb_invalidated_flag s2 = tb_invalidated_flag s"
    by (rule jmp_remove [OF J x]) (rule that; assumption)
  let ?s1 = "put_jmp s (last_loc id (T, 2) xs) (get_jmp s x)"
  have s2_eq: "s2 = ?s1\<lparr>jmp_next := (jmp_next ?s1)(x := None)\<rparr>"
    using s2(1) N [OF x] jmp_unlink [OF C T(1) split] by (simp add: tb_jmp_remove_def)
  let ?s = "tb_reset_jump (fst x) (snd x) s2"
  note sf = static_fields [OF s2(5)]
  have v: "hash_view ?s = hash_view s2" "page_view ?s = page_view s2" "static_view ?s = static_view s2"
    "other_view ?s = other_view s2" "tb_jmp_cache ?s = tb_jmp_cache s2" "get_jmp ?s = get_jmp s2"
    "tb_invalidated_flag ?s = tb_invalidated_flag s2" "jmp_next ?s = jmp_next s2"
    by (auto simp: tb_reset_jump_def tb_set_jmp_target_def all_views get_jmp_def fun_eq_iff)
  have tg: "jmp_target ?s = (jmp_target s)(x := stub s x)"
    by (simp add: tb_reset_jump_def tb_set_jmp_target_def s2(8) sf stub_def)
  have sv: "static_view ?s = static_view s" using v(3) s2(5) by simp
  have "jmp_lists ?s (jumpers (drop_exit x A))"
    using s2(2) static_fields(1) [OF v(3)] by (simp add: jmp_lists_def v drop_exit_def)
  then have "jmp_ok ?s (drop_exit x A)"
    using refinesD(5) [OF R] s2(9) unfolding jmp_ok_def static_fields [OF sv] v(8) tg
    by (simp add: stub_def) blast
  moreover have "hash_ok ?s (drop_exit x A)" "page_ok ?s (drop_exit x A)" "jcache_ok ?s (drop_exit x A)"
    using refinesD(3,4,6) [OF R] ok_cong(1) [of ?s s A] ok_cong(2) [of ?s s A] ok_cong(4) [of ?s s A] v s2
    by (simp_all add: hash_ok_def page_ok_def jcache_ok_def)
  ultimately have "refines ?s (drop_exit x A)"
    using R static_fields [OF sv] by (simp add: refines_def fits_pages_def)
  then show thesis using that [OF N [OF x] head ul, of ?s] v s2 by (simp add: s2_eq)
qed

text \<open>
  The measure of the recursion is the number of chained exits.  Unchaining is closed: both exits of
  a block that an unchained exit led to are unchained as well.
\<close>

definition chained_exits :: "nat \<Rightarrow> acache \<Rightarrow> nat" where
  "chained_exits n A = (\<Sum>T<n. card (set (jumpers A T)))"

definition trimmed :: "nat \<Rightarrow> acache \<Rightarrow> acache \<Rightarrow> bool" where
  "trimmed n A A' \<longleftrightarrow> buckets A' = buckets A \<and> plists A' = plists A \<and>
     (\<forall>T<n. set (jumpers A' T) \<subseteq> set (jumpers A T)) \<and>
     (\<forall>T<n. \<forall>x\<in>set (jumpers A T) - set (jumpers A' T). \<forall>m<2. \<forall>U<n. (T, m) \<notin> set (jumpers A' U))"

lemma trimmed_refl: "trimmed n A A"
  by (simp add: trimmed_def)

lemma trimmed_trans: "trimmed n A B \<Longrightarrow> trimmed n B C \<Longrightarrow> trimmed n A C"
  unfolding trimmed_def by (auto simp: subset_iff) metis+

lemma trimmed_le: "trimmed n A A' \<Longrightarrow> chained_exits n A' \<le> chained_exits n A"
  by (auto simp: trimmed_def chained_exits_def intro!: sum_mono card_mono)

lemma drop_exit_less:
  assumes "T < n" "x \<in> set (jumpers A T)"
  shows "chained_exits n (drop_exit x A) < chained_exits n A"
  unfolding chained_exits_def
proof (rule sum_strict_mono_ex1)
  show "\<forall>T\<in>{..<n}. card (set (jumpers (drop_exit x A) T)) \<le> card (set (jumpers A T))"
    by (simp add: card_mono)
  show "\<exists>T\<in>{..<n}. card (set (jumpers (drop_exit x A) T)) < card (set (jumpers A T))"
    using assms by (intro bexI [of _ T]) (simp_all add: card_Diff1_less del: card_Diff_insert)
qed simp

lemma drop_exit_trimmed:
  assumes A': "trimmed n (drop_exit x A) A'" and T: "T < n" "\<And>U. U < n \<Longrightarrow> x \<in> set (jumpers A U) \<Longrightarrow> U = T"
    and fin: "\<And>m U. m < 2 \<Longrightarrow> U < n \<Longrightarrow> (T, m) \<notin> set (jumpers A' U)"
  shows "trimmed n A A'"
  unfolding trimmed_def
proof (intro conjI allI impI ballI)
  show "(V, m) \<notin> set (jumpers A' U)" if "V < n" "y \<in> set (jumpers A V) - set (jumpers A' V)" "m < 2" "U < n" for V y m U
  proof (cases "y = x")
    case True
    then show ?thesis using T(2) [of V] that fin by blast
  next
    case False
    then have "y \<in> set (jumpers (drop_exit x A) V) - set (jumpers A' V)" using that(2) by simp
    then show ?thesis using A' that unfolding trimmed_def by blast
  qed
qed (use A' in \<open>auto simp: trimmed_def\<close>)

lemma unchained_iff:
  assumes "refines s A" "x = (t, m)" "t < nb_tbs s" "m < 2"
  shows "jmp_next s x = None \<longleftrightarrow> (\<forall>U<nb_tbs s. x \<notin> set (jumpers A U))"
proof -
  have "\<forall>x. fst x < nb_tbs s \<and> snd x < 2 \<longrightarrow> (jmp_next s x \<noteq> None \<longleftrightarrow> (\<exists>T<nb_tbs s. x \<in> set (jumpers A T)))"
    using refinesD(5) [OF assms(1)] unfolding jmp_ok_def jmp_lists_def by blast
  from spec [OF this, of x] show ?thesis using assms(2-4) by auto
qed

text \<open>What the recursion promises.\<close>

definition unchains :: "tbstate \<Rightarrow> acache \<Rightarrow> tbstate \<Rightarrow> acache \<Rightarrow> bool" where
  "unchains s A s' A' \<longleftrightarrow> refines s' A' \<and> trimmed (nb_tbs s) A A' \<and> hash_view s' = hash_view s \<and>
     page_view s' = page_view s \<and> static_view s' = static_view s \<and> other_view s' = other_view s \<and>
     tb_jmp_cache s' = tb_jmp_cache s \<and> tb_invalidated_flag s' = tb_invalidated_flag s"

lemma unchains_nb: "unchains s A s' A' \<Longrightarrow> nb_tbs s' = nb_tbs s"
  by (simp add: unchains_def static_view_def)

lemma unchains_trans: "unchains s A s1 A1 \<Longrightarrow> unchains s1 A1 s2 A2 \<Longrightarrow> unchains s A s2 A2"
  using trimmed_trans [of "nb_tbs s" A A1 A2] unchains_nb [of s A s1 A1] unfolding unchains_def by simp

lemma unchains_mono:
  assumes "unchains s A s' A'" "refines s A" "t < nb_tbs s" "m < 2" "jmp_next s (t, m) = None"
  shows "jmp_next s' (t, m) = None"
  using assms unchained_iff [OF assms(2) refl assms(3,4)] unchained_iff [of s' A' "(t, m)" t m] unchains_nb [OF assms(1)]
  unfolding unchains_def trimmed_def by auto

lemma unchains_step:
  assumes R: "refines s A" "t < nb_tbs s" "n < 2" and T: "T < nb_tbs s" "(t, n) \<in> set (jumpers A T)"
    and u: "unchains s2 (drop_exit (t, n) A) s' A'"
    and s2: "hash_view s2 = hash_view s" "page_view s2 = page_view s" "static_view s2 = static_view s"
      "other_view s2 = other_view s" "tb_jmp_cache s2 = tb_jmp_cache s" "tb_invalidated_flag s2 = tb_invalidated_flag s"
    and fin: "jmp_next s' (T, 0) = None" "jmp_next s' (T, 1) = None"
  shows "unchains s A s' A' \<and> jmp_next s' (t, n) = None"
proof -
  have nb: "nb_tbs s2 = nb_tbs s" "nb_tbs s' = nb_tbs s" using unchains_nb [OF u] s2(3) by (simp_all add: static_view_def)
  have R': "refines s' A'" and tr: "trimmed (nb_tbs s) (drop_exit (t, n) A) A'"
    using u by (simp_all add: unchains_def nb)
  have "U = T" if "U < nb_tbs s" "(t, n) \<in> set (jumpers A U)" for U
    using refinesD(5) [OF R(1)] T that unfolding jmp_ok_def jmp_lists_def circular_def by blast
  moreover have "(T, m) \<notin> set (jumpers A' U)" if "m < 2" "U < nb_tbs s" for m U
    using unchained_iff [OF R' refl, of T m] fin T(1) that nb by (auto simp: less_2_cases_iff)
  ultimately have "trimmed (nb_tbs s) A A'" by (rule drop_exit_trimmed [OF tr T(1)])
  moreover have "jmp_next s' (t, n) = None"
    using unchained_iff [OF R' refl, of t n] tr R(2,3) nb unfolding trimmed_def by auto
  ultimately show ?thesis using u s2 by (simp add: unchains_def)
qed

lemma recursive2_ok:
  "refines s A \<Longrightarrow> t < nb_tbs s \<Longrightarrow> n < 2 \<Longrightarrow>
     \<exists>s' A'. tb_reset_jump_recursive2 t n s = Some s' \<and> unchains s A s' A' \<and> jmp_next s' (t, n) = None"
proof (induction "chained_exits (nb_tbs s) A" arbitrary: s A t n rule: less_induct)
  case less
  show ?case
  proof (cases "jmp_next s (t, n) = None")
    case True
    then have "tb_reset_jump_recursive2 t n s = Some s" by (subst tb_reset_jump_recursive2.simps) simp
    then show ?thesis using True less.prems trimmed_refl by (auto simp: unchains_def)
  next
    case False
    then obtain T where T: "T < nb_tbs s" "(t, n) \<in> set (jumpers A T)"
      using unchained_iff [OF less.prems(1) refl less.prems(2,3)] by auto
    obtain s1 s2 where r: "tb_jmp_head (jmp_next s (t, n)) s = Some T" "tb_jmp_first_unlink (T, 2) (t, n) s = Some s1"
      "s2 = tb_reset_jump t n (s1\<lparr>jmp_next := (jmp_next s1)((t, n) := None)\<rparr>)" and
      s2: "refines s2 (drop_exit (t, n) A)" "hash_view s2 = hash_view s" "page_view s2 = page_view s"
      "static_view s2 = static_view s" "other_view s2 = other_view s" "tb_jmp_cache s2 = tb_jmp_cache s"
      "tb_invalidated_flag s2 = tb_invalidated_flag s"
      by (rule reset_exit_refines [OF less.prems(1) T, unfolded fst_conv snd_conv]) (rule that; assumption)
    have nb: "nb_tbs s2 = nb_tbs s" using s2(4) by (simp add: static_view_def)
    have "chained_exits (nb_tbs s2) (drop_exit (t, n) A) < chained_exits (nb_tbs s) A"
      using drop_exit_less [OF T] by (simp add: nb)
    note IH = less.hyps [OF this s2(1)]
    obtain s3 A3 where s3: "tb_reset_jump_recursive2 T 0 s2 = Some s3" "unchains s2 (drop_exit (t, n) A) s3 A3"
      "jmp_next s3 (T, 0) = None"
      using IH [of T 0] T(1) nb by auto
    have nb3: "nb_tbs s3 = nb_tbs s" using unchains_nb [OF s3(2)] nb by simp
    have "chained_exits (nb_tbs s3) A3 < chained_exits (nb_tbs s) A"
      using s3(2) drop_exit_less [OF T] trimmed_le [of "nb_tbs s" "drop_exit (t, n) A" A3] nb nb3
      unfolding unchains_def by simp
    then obtain s4 A4 where s4: "tb_reset_jump_recursive2 T 1 s3 = Some s4" "unchains s3 A3 s4 A4"
      "jmp_next s4 (T, 1) = None"
      using less.hyps [of s3 A3 T 1] s3(2) T(1) nb3 unfolding unchains_def by auto
    have u: "unchains s2 (drop_exit (t, n) A) s4 A4" using s3(2) s4(2) by (rule unchains_trans)
    have "jmp_next s4 (T, 0) = None"
      using unchains_mono [OF s4(2) _ _ _ s3(3)] s3(2) T(1) nb3 by (simp add: unchains_def)
    then have "unchains s A s4 A4 \<and> jmp_next s4 (t, n) = None"
      using s4(3) by (intro unchains_step [OF less.prems T u s2(2-7)])
    moreover have "tb_reset_jump_recursive2 t n s = Some s4"
      using False r s3(1) s4(1) by (subst tb_reset_jump_recursive2.simps) auto
    ultimately show ?thesis by blast
  qed
qed

text \<open>Direct jumps, as the host code takes them.\<close>

definition direct_jump :: "tbstate \<Rightarrow> nat \<Rightarrow> nat \<Rightarrow> bool" where
  "direct_jump s t u \<longleftrightarrow> t < nb_tbs s \<and> u < nb_tbs s \<and>
     (\<exists>n\<in>{0, 1}. jmp_next s (t, n) \<noteq> None \<and> jmp_target s (t, n) = tc_ptr s u)"

lemma direct_jump_jumper:
  assumes R: "refines s A" and B: "buffer_ok s" and j: "direct_jump s t u"
  obtains n where "n < 2" "(t, n) \<in> set (jumpers A u)"
proof -
  obtain n where "n \<in> {0, 1}" and n: "jmp_next s (t, n) \<noteq> None" "jmp_target s (t, n) = tc_ptr s u"
    and tu: "t < nb_tbs s" "u < nb_tbs s"
    using j unfolding direct_jump_def by blast
  then have n2: "n < 2" by auto
  obtain U where U: "U < nb_tbs s" "(t, n) \<in> set (jumpers A U)"
    using unchained_iff [OF R refl, of t n] n(1) tu(1) n2 by auto
  then have "tc_ptr s u = tc_ptr s U" using refinesD(5) [OF R] n(2) unfolding jmp_ok_def by auto
  moreover have "tc_ptr s i < tc_ptr s k" if "i < k" "k < nb_tbs s" for i k
    using B that unfolding buffer_ok_def by blast
  ultimately have "u = U" using U(1) tu(2) by (metis linorder_neqE_nat less_irrefl)
  then show thesis using that n2 U(2) by blast
qed

lemma recursive_ok:
  assumes R: "refines s A" and B: "buffer_ok s" and t: "t < nb_tbs s"
  obtains s' A' where "tb_reset_jump_recursive t s = Some s'" "unchains s A s' A'"
    "\<forall>u. (direct_jump s)\<^sup>*\<^sup>* t u \<longrightarrow> (\<forall>n<2. jmp_next s' (u, n) = None)"
proof -
  obtain s1 A1 where s1: "tb_reset_jump_recursive2 t 0 s = Some s1" "unchains s A s1 A1" "jmp_next s1 (t, 0) = None"
    using recursive2_ok [OF R t, of 0] by auto
  have nb: "nb_tbs s1 = nb_tbs s" using unchains_nb [OF s1(2)] .
  have R1: "refines s1 A1" using s1(2) by (simp add: unchains_def)
  obtain s2 A2 where s2: "tb_reset_jump_recursive2 t 1 s1 = Some s2" "unchains s1 A1 s2 A2" "jmp_next s2 (t, 1) = None"
    using recursive2_ok [OF R1, of t 1] t nb by auto
  have u: "unchains s A s2 A2" using s1(2) s2(2) by (rule unchains_trans)
  have R2: "refines s2 A2" and tr: "trimmed (nb_tbs s) A A2" using u by (simp_all add: unchains_def)
  have nb2: "nb_tbs s2 = nb_tbs s" using unchains_nb [OF u] .
  have "jmp_next s2 (t, 0) = None" using unchains_mono [OF s2(2) R1 _ _ s1(3)] t nb by simp
  then have start: "\<forall>n<2. jmp_next s2 (t, n) = None" using s2(3) by (auto simp: less_2_cases_iff)
  have "\<forall>n<2. jmp_next s2 (v, n) = None" if "(direct_jump s)\<^sup>*\<^sup>* t v" for v
    using that
  proof (induction rule: rtranclp_induct)
    case (step v w)
    then have vw: "v < nb_tbs s" "w < nb_tbs s" by (simp_all add: direct_jump_def)
    obtain n where n: "n < 2" "(v, n) \<in> set (jumpers A w)" by (rule direct_jump_jumper [OF R B step(2)])
    then have "(v, n) \<notin> set (jumpers A2 w)"
      using unchained_iff [OF R2 refl, of v n] step.IH vw nb2 by auto
    then have "(w, m) \<notin> set (jumpers A2 U)" if "m < 2" "U < nb_tbs s" for m U
      using tr n(2) vw(2) that unfolding trimmed_def by blast
    then show ?case using unchained_iff [OF R2 refl, of w] vw(2) nb2 by auto
  qed (rule start)
  then show thesis using that [OF _ u] s1(1) s2(1) by (simp add: tb_reset_jump_recursive_def)
qed

end
