(* ===== verification/Code_Pages.thy ===== *)
theory Code_Pages
  imports Code_Cache_Unchain
begin

text \<open>
  Self-modifying code: the bitmap of the bytes of a page that have been translated, and the
  invalidation of the blocks that a write hits.
\<close>

declare split_paired_All [simp del] split_paired_Ex [simp del]

section \<open>Bitmaps\<close>

text \<open>Masks are kept at the width of the bytes they are stored into.\<close>

function set_bits_fill :: "(nat \<Rightarrow> u8) \<Rightarrow> nat \<Rightarrow> nat \<Rightarrow> nat \<Rightarrow> (nat \<Rightarrow> u8) \<times> nat \<times> nat" where
  "set_bits_fill tab i start end1 =
     (if start < end1 then set_bits_fill (tab(i := 0xff)) (i + 1) (start + 8) end1 else (tab, i, start))"
  by pat_completeness auto

termination set_bits_fill
  by (relation "measure (\<lambda>(tab, i, start, end1). end1 - start)") auto

declare set_bits_fill.simps [simp del]

definition set_bits :: "(nat \<Rightarrow> u8) \<Rightarrow> nat \<Rightarrow> nat \<Rightarrow> nat \<Rightarrow> u8" where
  "set_bits tab start len =
     (let stop = start + len;
          i = start div 8;
          m = push_bit (start mod 8) 0xff
      in if start div 8 * 8 = stop div 8 * 8 then
           (if start < stop then tab(i := tab i OR (m AND NOT (push_bit (stop mod 8) 0xff))) else tab)
         else
           (case set_bits_fill (tab(i := tab i OR m)) (i + 1) ((start + 8) div 8 * 8) (stop div 8 * 8) of
              (tab, i, start) \<Rightarrow>
                (if start < stop then tab(i := tab i OR NOT (push_bit (stop mod 8) 0xff)) else tab)))"

definition tab_bit :: "(nat \<Rightarrow> u8) \<Rightarrow> nat \<Rightarrow> bool" where
  "tab_bit tab k = bit (tab (k div 8)) (k mod 8)"

lemma set_bits_fill_spec:
  "i * 8 = start \<Longrightarrow> 8 dvd end1 \<Longrightarrow>
     set_bits_fill tab i start end1 = ((\<lambda>j. if i \<le> j \<and> j < end1 div 8 then 0xff else tab j),
       max i (end1 div 8), max start end1)"
proof (induction tab i start end1 rule: set_bits_fill.induct)
  case (1 tab i start end1)
  show ?case
  proof (cases "start < end1")
    case True
    then have "start + 8 \<le> end1" "i < end1 div 8" using "1.prems" by (auto elim!: dvdE)
    moreover have "set_bits_fill tab i start end1 = set_bits_fill (tab(i := 0xff)) (i + 1) (start + 8) end1"
      using True by (subst set_bits_fill.simps) simp
    moreover have "(\<lambda>j. if i + 1 \<le> j \<and> j < end1 div 8 then 0xff else (tab(i := 0xff)) j) =
        (\<lambda>j. if i \<le> j \<and> j < end1 div 8 then 0xff else tab j)"
      using \<open>i < end1 div 8\<close> by (auto simp: fun_eq_iff le_Suc_eq not_less_eq_eq)
    ultimately show ?thesis using "1.IH" [OF True] "1.prems" by (simp del: fun_upd_apply add: max_def)
  next
    case False
    then have "end1 div 8 \<le> i" using "1.prems" by auto
    then show ?thesis using False by (subst set_bits_fill.simps) (auto simp: max_def fun_eq_iff)
  qed
qed

lemma bit_push_ff: "j < 8 \<Longrightarrow> bit (push_bit k (0xff :: u8)) j \<longleftrightarrow> k \<le> j"
proof -
  have ff: "(0xff :: u8) = - 1" by simp
  show "j < 8 \<Longrightarrow> bit (push_bit k (0xff :: u8)) j \<longleftrightarrow> k \<le> j" unfolding ff by (simp add: bit_simps not_less)
qed

lemma le_by_bytes: "a \<le> k \<longleftrightarrow> a div 8 < k div 8 \<or> a div 8 = k div 8 \<and> a mod 8 \<le> k mod (8 :: nat)"
proof -
  have "a = 8 * (a div 8) + a mod 8" "k = 8 * (k div 8) + k mod 8" "a mod 8 < 8" "k mod 8 < 8" by simp_all
  then show ?thesis by linarith
qed

lemma less_by_bytes: "k < a \<longleftrightarrow> k div 8 < a div 8 \<or> k div 8 = a div 8 \<and> k mod 8 < a mod (8 :: nat)"
  using le_by_bytes [of a k] by linarith

lemma set_bits_spec: "tab_bit (set_bits tab start len) k \<longleftrightarrow> tab_bit tab k \<or> start \<le> k \<and> k < start + len"
proof -
  define stop where "stop = start + len"
  define i j c m n b where "i = start div 8" and "j = stop div 8" and "c = k div 8"
    and "m = start mod 8" and "n = stop mod 8" and "b = k mod 8"
  note defs = i_def j_def c_def m_def n_def b_def
  have lt: "start \<le> k \<longleftrightarrow> i < c \<or> i = c \<and> m \<le> b" "k < stop \<longleftrightarrow> c < j \<or> c = j \<and> b < n"
    "start < stop \<longleftrightarrow> i < j \<or> i = j \<and> m < n" "j * 8 < stop \<longleftrightarrow> 0 < n"
    unfolding defs by (rule le_by_bytes, rule less_by_bytes, rule less_by_bytes)
      (simp add: less_by_bytes [of _ stop])
  have le: "i \<le> j" by (simp add: defs stop_def div_le_mono)
  have b: "b < 8" by (simp add: b_def)
  note push = bit_push_ff [OF b] and bits = bit_or_iff bit_and_iff bit_not_iff b
  have ff: "bit (0xff :: u8) b" using push [of 0] by simp
  have goal: "tab_bit t k = bit (t c) b" for t by (simp add: tab_bit_def defs)
  have "bit (set_bits tab start len c) b \<longleftrightarrow> bit (tab c) b \<or> start \<le> k \<and> k < stop"
  proof (cases "i = j")
    case True
    then have "set_bits tab start len = (if start < stop then tab(j := tab j OR
        (push_bit m 0xff AND NOT (push_bit n 0xff))) else tab)"
      by (simp add: set_bits_def Let_def defs stop_def)
    then show ?thesis using True by (auto simp: bits push lt)
  next
    case False
    with le have less: "i < j" by (rule le_neq_implies_less)
    have up: "(start + 8) div 8 = i + 1" by (simp add: i_def)
    have "set_bits_fill t (i + 1) ((start + 8) div 8 * 8) (j * 8) =
        ((\<lambda>x. if i + 1 \<le> x \<and> x < j then 0xff else t x), j, j * 8)" for t
      using less up by (subst set_bits_fill_spec) (simp_all add: max_def)
    then have "set_bits tab start len = (let t = (\<lambda>x. if i + 1 \<le> x \<and> x < j then 0xff
        else (tab(i := tab i OR push_bit m 0xff)) x)
      in if j * 8 < stop then t(j := t j OR NOT (push_bit n 0xff)) else t)"
      using False by (simp add: set_bits_def Let_def defs stop_def cong: if_cong)
    then show ?thesis using less ff by (auto simp: Let_def bits push lt)
  qed
  then show ?thesis by (simp add: goal stop_def)
qed

text \<open>The bytes of its page that a part of a block covers.\<close>

definition page_bytes :: "tbstate \<Rightarrow> tptr \<Rightarrow> nat \<times> nat" where
  "page_bytes s = (\<lambda>(tb, n).
     if n = 0 then
       (let tb_start = unat (tb_pc s tb AND mask 12);
            tb_end = tb_start + unat (tb_size s tb)
        in (tb_start, if tb_end > 4096 then 4096 else tb_end))
     else (0, unat ((tb_pc s tb + ucast (tb_size s tb)) AND mask 12)))"

partial_function (option) bitmap_loop :: "tptr option \<Rightarrow> (nat \<Rightarrow> u8) \<Rightarrow> tbstate \<Rightarrow> (nat \<Rightarrow> u8) option" where
  "bitmap_loop tb1 tab s = (case tb1 of
     None \<Rightarrow> Some tab
   | Some x \<Rightarrow> (case page_bytes s x of (tb_start, tb_end) \<Rightarrow>
       bitmap_loop (page_next s x) (set_bits tab tb_start (tb_end - tb_start)) s))"

definition build_page_bitmap :: "pd_ptr \<Rightarrow> tbstate \<Rightarrow> tbstate option" where
  "build_page_bitmap p s = do {
     tab \<leftarrow> bitmap_loop (first_tb (get_pd s p)) (\<lambda>_. 0) s;
     Some (upd_pd p (\<lambda>d. d\<lparr>code_bitmap := Some tab\<rparr>) s)
   }"

section \<open>Invalidation by address\<close>

definition cpu_interrupt :: "nat \<Rightarrow> tbstate \<Rightarrow> tbstate option" where
  "cpu_interrupt env s = cpu_unlink_tb env (s\<lparr>interrupt_request := (interrupt_request s)(env := True)\<rparr>)"

definition tb_part :: "tbstate \<Rightarrow> tptr \<Rightarrow> u64 \<times> u64" where
  "tb_part s = (\<lambda>(tb, n).
     if n = 0 then
       (let tb_start = page_addr s (tb, 0) + ucast (tb_pc s tb AND mask 12)
        in (tb_start, tb_start + ucast (tb_size s tb)))
     else
       (page_addr s (tb, 1), page_addr s (tb, 1) + ucast ((tb_pc s tb + ucast (tb_size s tb)) AND mask 12)))"

definition in_range :: "tbstate \<Rightarrow> u64 \<Rightarrow> u64 \<Rightarrow> tptr \<Rightarrow> bool" where
  "in_range s start stop x = (case tb_part s x of (tb_start, tb_end) \<Rightarrow> \<not> (tb_end \<le> start \<or> tb_start \<ge> stop))"

text \<open>
  The search for the block that is running: whether it is still to be found, the block, and the guest
  state to go on with when the block itself is hit.  \<open>cpu_single_env\<close> and its \<open>mem_io_pc\<close> are
  arguments, and so is the guest state that \<open>cpu_restore_state\<close> computes for the block.
\<close>

record smc =
  not_found :: bool
  running :: "nat option"
  resume :: "(u32 \<times> u32 \<times> u64) option"

definition tb_smc_check ::
    "nat option \<Rightarrow> u64 \<Rightarrow> (nat \<Rightarrow> u32 \<times> u32 \<times> u64) \<Rightarrow> nat \<Rightarrow> tbstate \<Rightarrow> smc \<Rightarrow> smc option" where
  "tb_smc_check env mem_io_pc restored tb s c = do {
     c \<leftarrow> (if not_found c then
             (if env = None then None
              else Some (c\<lparr>not_found := False, running := (if mem_io_pc \<noteq> 0 then tb_find_pc mem_io_pc s else None)\<rparr>))
           else Some c);
     Some (if running c = Some tb \<and> tb_cflags s tb AND 0x7fff \<noteq> 1
           then c\<lparr>resume := Some (restored tb)\<rparr> else c)
   }"

definition tb_invalidate_hit :: "nat option \<Rightarrow> nat \<Rightarrow> tbstate \<Rightarrow> tbstate option" where
  "tb_invalidate_hit env tb s = (case env of
     None \<Rightarrow> tb_phys_invalidate tb no_page s
   | Some e \<Rightarrow> do {
       let saved_tb = current_tb s e;
       let s = s\<lparr>current_tb := (current_tb s)(e := None)\<rparr>;
       s \<leftarrow> tb_phys_invalidate tb no_page s;
       let s = s\<lparr>current_tb := (current_tb s)(e := saved_tb)\<rparr>;
       if interrupt_request s e \<and> current_tb s e \<noteq> None then cpu_interrupt e s else Some s
     })"

partial_function (option) tb_invalidate_loop ::
    "nat option \<Rightarrow> u64 \<Rightarrow> (nat \<Rightarrow> u32 \<times> u32 \<times> u64) \<Rightarrow> u64 \<Rightarrow> u64 \<Rightarrow> tptr option \<Rightarrow> tbstate \<Rightarrow> smc \<Rightarrow>
      (tbstate \<times> smc) option" where
  "tb_invalidate_loop env mem_io_pc restored start stop tb1 s c = (case tb1 of
     None \<Rightarrow> Some (s, c)
   | Some x \<Rightarrow> do {
       let tb_next = page_next s x;
       (s, c) \<leftarrow> (if in_range s start stop x then do {
                     c \<leftarrow> tb_smc_check env mem_io_pc restored (fst x) s c;
                     s \<leftarrow> tb_invalidate_hit env (fst x) s;
                     Some (s, c)
                   } else Some (s, c));
       tb_invalidate_loop env mem_io_pc restored start stop tb_next s c
     })"

text \<open>The write that is counted may be the one that makes the page worth a bitmap.\<close>

definition count_write :: "pd_ptr \<Rightarrow> bool \<Rightarrow> tbstate \<Rightarrow> tbstate option" where
  "count_write p is_cpu_write_access s =
     (if code_bitmap (get_pd s p) = None then
        (let s = upd_pd p (\<lambda>d. d\<lparr>code_write_count := code_write_count d + 1\<rparr>) s
         in if code_write_count (get_pd s p) \<ge> 10 \<and> is_cpu_write_access then build_page_bitmap p s else Some s)
      else Some s)"

text \<open>A page without code needs neither its bitmap nor its write protection any more.\<close>

definition page_unprotect :: "pd_ptr \<Rightarrow> u64 \<Rightarrow> bool \<Rightarrow> tbstate \<Rightarrow> tbstate" where
  "page_unprotect p start is_cpu_write_access s =
     (if first_tb (get_pd s p) = None then
        (let s = upd_pd p invalidate_page_bitmap s
         in if is_cpu_write_access
            then s\<lparr>tlb_events := tlb_events s @ [tlb_unprotect_code_phys start]\<rparr> else s)
      else s)"

definition tb_invalidate_phys_page_range ::
    "(u32 \<Rightarrow> u64) \<Rightarrow> (nat \<Rightarrow> tbstate \<Rightarrow> gen_result) \<Rightarrow> nat option \<Rightarrow> u64 \<Rightarrow> (nat \<Rightarrow> u32 \<times> u32 \<times> u64) \<Rightarrow>
      u64 \<Rightarrow> u64 \<Rightarrow> bool \<Rightarrow> tbstate \<Rightarrow> (tbstate \<times> bool) option" where
  "tb_invalidate_phys_page_range phys gen env mem_io_pc restored start stop is_cpu_write_access s =
     (case page_find (drop_bit 12 start) s of
        None \<Rightarrow> Some (s, False)
      | Some p \<Rightarrow> do {
          s \<leftarrow> count_write p is_cpu_write_access s;
          (s, c) \<leftarrow> tb_invalidate_loop env mem_io_pc restored start stop (first_tb (get_pd s p)) s
             \<lparr>not_found = is_cpu_write_access, running = None, resume = None\<rparr>;
          let s = page_unprotect p start is_cpu_write_access s;
          (case resume c of
             None \<Rightarrow> Some (s, False)
           | Some (pc, base, flags) \<Rightarrow> (case env of
               None \<Rightarrow> None
             | Some e \<Rightarrow> do {
                 (tb, s) \<leftarrow> tb_gen_code phys gen pc base flags 1 (s\<lparr>current_tb := (current_tb s)(e := None)\<rparr>);
                 Some (s, True)
               }))
        })"

definition tb_invalidate_phys_page_fast ::
    "(u32 \<Rightarrow> u64) \<Rightarrow> (nat \<Rightarrow> tbstate \<Rightarrow> gen_result) \<Rightarrow> nat option \<Rightarrow> u64 \<Rightarrow> (nat \<Rightarrow> u32 \<times> u32 \<times> u64) \<Rightarrow>
      u64 \<Rightarrow> nat \<Rightarrow> tbstate \<Rightarrow> (tbstate \<times> bool) option" where
  "tb_invalidate_phys_page_fast phys gen env mem_io_pc restored start len s =
     (case page_find (drop_bit 12 start) s of
        None \<Rightarrow> Some (s, False)
      | Some p \<Rightarrow> (case code_bitmap (get_pd s p) of
          Some tab \<Rightarrow>
            (let offset = unat (start AND mask 12);
                 b = drop_bit (offset mod 8) (tab (offset div 8))
             in if ucast b AND (mask len :: u32) \<noteq> 0
                then tb_invalidate_phys_page_range phys gen env mem_io_pc restored start (start + of_nat len) True s
                else Some (s, False))
        | None \<Rightarrow> tb_invalidate_phys_page_range phys gen env mem_io_pc restored start (start + of_nat len) True s))"

section \<open>The bitmap is exact\<close>

lemma bitmap_loop_spec:
  "path m PageNext l xs None \<Longrightarrow> \<forall>x\<in>set xs. page_next s x = m (PageNext x) \<Longrightarrow>
     \<exists>tab'. bitmap_loop (m l) tab s = Some tab' \<and>
       (\<forall>k. tab_bit tab' k \<longleftrightarrow> tab_bit tab k \<or> (\<exists>x\<in>set xs. fst (page_bytes s x) \<le> k \<and> k < snd (page_bytes s x)))"
proof (induction xs arbitrary: l tab)
  case Nil
  then show ?case by (subst bitmap_loop.simps) simp
next
  case (Cons x xs)
  obtain a b where ab: "page_bytes s x = (a, b)" by fastforce
  let ?t = "set_bits tab a (b - a)"
  obtain tab' where tab': "bitmap_loop (m (PageNext x)) ?t s = Some tab'"
    "\<forall>k. tab_bit tab' k \<longleftrightarrow> tab_bit ?t k \<or> (\<exists>x\<in>set xs. fst (page_bytes s x) \<le> k \<and> k < snd (page_bytes s x))"
    using Cons.IH [of "PageNext x" ?t] Cons.prems by auto
  have "bitmap_loop (m l) tab s = Some tab'"
    using Cons.prems tab'(1) by (subst bitmap_loop.simps) (simp add: ab)
  moreover have "a \<le> k \<and> k < a + (b - a) \<longleftrightarrow> a \<le> k \<and> k < b" for k by auto
  ultimately show ?case using tab'(2) by (auto simp: ab set_bits_spec)
qed

lemma page_path:
  assumes "page_ok s A"
  shows "path (get_page s) PageNext (First p) (plists A p) None"
  using assms by (simp add: page_ok_def lists_at_def)

lemma build_page_bitmap_spec:
  assumes ok: "page_ok s A" and p: "page_present s p"
  obtains tab where "build_page_bitmap p s = Some (upd_pd p (\<lambda>d. d\<lparr>code_bitmap := Some tab\<rparr>) s)"
    "\<forall>k. tab_bit tab k \<longleftrightarrow> (\<exists>x\<in>set (plists A p). fst (page_bytes s x) \<le> k \<and> k < snd (page_bytes s x))"
proof -
  have n: "\<forall>x\<in>set (plists A p). page_next s x = get_page s (PageNext x)" by (simp add: get_page_def)
  show thesis
    using that bitmap_loop_spec [OF page_path [OF ok] n, of "\<lambda>_. 0"]
    by (auto simp: build_page_bitmap_def get_page_def tab_bit_def)
qed

section \<open>Invalidation by address is complete\<close>

text \<open>The indices that the CPUs run are valid.\<close>

definition running_ok :: "tbstate \<Rightarrow> bool" where
  "running_ok s \<longleftrightarrow> (\<forall>e t. current_tb s e = Some t \<longrightarrow> t < nb_tbs s)"

lemma unlink_tb_ok:
  assumes R: "refines s A" and B: "buffer_ok s" and r: "running_ok s"
  obtains s' A' where "cpu_unlink_tb e s = Some s'" "refines s' A'" "buckets A' = buckets A" "plists A' = plists A"
    "static_view s' = static_view s" "running_ok s'" "tb_invalidated_flag s' = tb_invalidated_flag s"
    "page_view s' = page_view s" "hash_view s' = hash_view s" "tb_jmp_cache s' = tb_jmp_cache s"
    "\<forall>e. current_tb s e = None \<longrightarrow> current_tb s' e = None"
proof (cases "current_tb s e")
  case None
  then show thesis using that [of s A] R r by (simp add: cpu_unlink_tb_def)
next
  case (Some t)
  let ?s = "s\<lparr>current_tb := (current_tb s)(e := None)\<rparr>"
  have v: "hash_view ?s = hash_view s" "page_view ?s = page_view s" "jmp_view ?s = jmp_view s"
    "static_view ?s = static_view s" "tb_jmp_cache ?s = tb_jmp_cache s"
    by (simp_all add: all_views)
  have R': "refines ?s A" using refines_cong [OF v] R by simp
  have B': "buffer_ok ?s" using static_ok(1) [OF v(4)] B by simp
  have t: "t < nb_tbs ?s" using r Some by (simp add: running_ok_def)
  obtain s' A' where s': "tb_reset_jump_recursive t ?s = Some s'" "unchains ?s A s' A'"
    by (rule recursive_ok [OF R' B' t])
  then have u: "refines s' A'" "trimmed (nb_tbs ?s) A A'" "hash_view s' = hash_view s" "page_view s' = page_view s"
    "static_view s' = static_view s" "other_view s' = other_view ?s" "tb_jmp_cache s' = tb_jmp_cache s"
    "tb_invalidated_flag s' = tb_invalidated_flag s"
    using v unfolding unchains_def by simp_all
  have "running_ok s'"
    using r u(6) static_fields(1) [OF u(5)] by (auto simp: running_ok_def other_view_def split: if_splits)
  then show thesis
    using that [of s' A'] Some s'(1) u by (simp add: cpu_unlink_tb_def trimmed_def other_view_def)
qed

lemma current_tb_refines: "refines (s\<lparr>current_tb := f\<rparr>) A = refines s A"
  "buffer_ok (s\<lparr>current_tb := f\<rparr>) = buffer_ok s" "static_view (s\<lparr>current_tb := f\<rparr>) = static_view s"
proof -
  show v: "static_view (s\<lparr>current_tb := f\<rparr>) = static_view s" by (simp add: static_view_def)
  show "refines (s\<lparr>current_tb := f\<rparr>) A = refines s A" by (rule refines_cong) (simp_all add: all_views)
  show "buffer_ok (s\<lparr>current_tb := f\<rparr>) = buffer_ok s" by (rule static_ok(1) [OF v])
qed

lemma interrupt_refines: "refines (s\<lparr>interrupt_request := f\<rparr>) A = refines s A"
  "buffer_ok (s\<lparr>interrupt_request := f\<rparr>) = buffer_ok s" "static_view (s\<lparr>interrupt_request := f\<rparr>) = static_view s"
proof -
  show v: "static_view (s\<lparr>interrupt_request := f\<rparr>) = static_view s" by (simp add: static_view_def)
  show "refines (s\<lparr>interrupt_request := f\<rparr>) A = refines s A" by (rule refines_cong) (simp_all add: all_views)
  show "buffer_ok (s\<lparr>interrupt_request := f\<rparr>) = buffer_ok s" by (rule static_ok(1) [OF v])
qed

lemma hit_ok:
  assumes R: "refines s A" and B: "buffer_ok s" and r: "running_ok s" and t: "t \<in> live A"
  obtains s' A' where "tb_invalidate_hit env t s = Some s'" "refines s' A'" "static_view s' = static_view s"
    "running_ok s'" "buckets A' = buckets (kill t A)" "plists A' = plists (kill t A)"
    "\<forall>e. current_tb s e = None \<longrightarrow> current_tb s' e = None"
proof (cases env)
  case None
  obtain s' where "tb_phys_invalidate t no_page s = Some s'" "refines s' (kill t A)"
    "static_view s' = static_view s" "other_view s' = other_view s"
    by (rule invalidate_refines [OF R t])
  then show thesis
    using that [of s' "kill t A"] r None
    by (simp add: tb_invalidate_hit_def running_ok_def other_view_def static_view_def)
next
  case (Some e)
  let ?s = "s\<lparr>current_tb := (current_tb s)(e := None)\<rparr>"
  have Rs: "refines ?s A" using R by (simp add: current_tb_refines)
  obtain s1 where s1: "tb_phys_invalidate t no_page ?s = Some s1" "refines s1 (kill t A)"
    "static_view s1 = static_view ?s" "other_view s1 = other_view ?s"
    by (rule invalidate_refines [OF Rs t])
  define s2 where "s2 = s1\<lparr>current_tb := (current_tb s1)(e := current_tb s e)\<rparr>"
  have sv: "static_view s2 = static_view s" using s1(3) by (simp add: s2_def current_tb_refines)
  have R2: "refines s2 (kill t A)" using s1(2) by (simp add: s2_def current_tb_refines)
  have cur: "current_tb s2 = current_tb s" using s1(4) by (simp add: s2_def other_view_def)
  then have r2: "running_ok s2" using r static_fields(1) [OF sv] by (simp add: running_ok_def)
  let ?s3 = "s2\<lparr>interrupt_request := (interrupt_request s2)(e := True)\<rparr>"
  have R3: "refines ?s3 (kill t A)" "buffer_ok ?s3" "running_ok ?s3"
    using R2 B static_ok(1) [OF sv] r2 by (simp_all add: interrupt_refines running_ok_def)
  obtain s4 A4 where s4: "cpu_unlink_tb e ?s3 = Some s4" "refines s4 A4" "buckets A4 = buckets (kill t A)"
    "plists A4 = plists (kill t A)" "static_view s4 = static_view ?s3" "running_ok s4"
    "\<forall>e. current_tb ?s3 e = None \<longrightarrow> current_tb s4 e = None"
    by (rule unlink_tb_ok [OF R3])
  have "tb_invalidate_hit env t s = (if interrupt_request s2 e \<and> current_tb s2 e \<noteq> None then Some s4 else Some s2)"
    unfolding tb_invalidate_hit_def Some option.case Let_def s1(1) bind.bind_lunit s2_def [symmetric]
      cpu_interrupt_def s4(1) ..
  then show thesis
    using that [of s4 A4] that [of s2 "kill t A"] s4 R2 r2 sv cur by (simp add: interrupt_refines split: if_splits)
qed

lemma in_range_static:
  assumes "static_view s' = static_view s"
  shows "in_range s' = in_range s"
  by (intro ext) (simp only: in_range_def tb_part_def static_fields [OF assms])

definition smc_ok :: "nat option \<Rightarrow> smc \<Rightarrow> bool" where
  "smc_ok env c \<longleftrightarrow> env = None \<longrightarrow> \<not> not_found c \<and> running c = None \<and> resume c = None"

definition smc_idle :: "smc \<Rightarrow> bool" where
  "smc_idle c \<longleftrightarrow> \<not> not_found c \<and> running c = None \<and> resume c = None"

lemma smc_check_some:
  "smc_ok env c \<Longrightarrow> \<exists>c'. tb_smc_check env mem_io_pc restored t s c = Some c' \<and> smc_ok env c' \<and>
     (smc_idle c \<longrightarrow> smc_idle c')"
  by (auto simp: tb_smc_check_def smc_ok_def smc_idle_def)

definition once_per_page :: "acache \<Rightarrow> u64 \<Rightarrow> bool" where
  "once_per_page A a \<longleftrightarrow> distinct (map fst (plists A (pkey a)))"

lemma once_per_page_kill: "once_per_page A a \<Longrightarrow> once_per_page (kill t A) a"
  by (simp add: once_per_page_def others_def distinct_map_filter)

text \<open>The loop has gone over the parts \<open>xs\<close> of the page list \<open>pre @ xs\<close>.\<close>

definition swept :: "u64 \<Rightarrow> u64 \<Rightarrow> pd_ptr \<Rightarrow> tptr list \<Rightarrow> tptr list \<Rightarrow> tbstate \<Rightarrow> acache \<Rightarrow> tbstate \<Rightarrow> acache \<Rightarrow> bool" where
  "swept start stop p pre xs s A s' A' \<longleftrightarrow> refines s' A' \<and> static_view s' = static_view s \<and> running_ok s' \<and>
     live A' = live A - fst ` {x \<in> set xs. in_range s start stop x} \<and>
     plists A' p = pre @ filter (\<lambda>x. \<not> in_range s start stop x) xs \<and>
     (\<forall>a. once_per_page A a \<longrightarrow> once_per_page A' a) \<and> (\<forall>e. current_tb s e = None \<longrightarrow> current_tb s' e = None)"

lemma swept_skip:
  "\<not> in_range s start stop x \<Longrightarrow> swept start stop p (pre @ [x]) xs s A s' A' \<Longrightarrow> swept start stop p pre (x # xs) s A s' A'"
proof -
  assume x: "\<not> in_range s start stop x" and w: "swept start stop p (pre @ [x]) xs s A s' A'"
  have "{y \<in> set (x # xs). in_range s start stop y} = {y \<in> set xs. in_range s start stop y}" using x by auto
  then show ?thesis using w x by (simp only: swept_def filter.simps) simp
qed

lemma swept_hit:
  assumes x: "in_range s start stop x" and s1: "static_view s1 = static_view s" "live A1 = live A - {fst x}"
      "plists A1 = plists (kill (fst x) A)" "\<forall>e. current_tb s e = None \<longrightarrow> current_tb s1 e = None"
    and w: "swept start stop p pre xs s1 A1 s' A'"
  shows "swept start stop p pre (x # xs) s A s' A'"
proof -
  have "{y \<in> set (x # xs). in_range s start stop y} = insert x {y \<in> set xs. in_range s start stop y}" using x by auto
  then have "live A1 - fst ` {y \<in> set xs. in_range s start stop y} = live A - fst ` {y \<in> set (x # xs). in_range s start stop y}"
    using s1(2) by auto
  moreover have "once_per_page A1 a" if "once_per_page A a" for a
    using once_per_page_kill [OF that, of "fst x"] s1(3) by (simp add: once_per_page_def)
  ultimately show ?thesis using w x s1(1,4) unfolding swept_def in_range_static [OF s1(1)] by simp
qed

lemma kill_page_list:
  assumes "plists A p = pre @ x # xs" "distinct (map fst (pre @ x # xs))"
  shows "plists (kill (fst x) A) p = pre @ xs"
proof -
  have d: "fst x \<notin> fst ` set pre" "fst x \<notin> fst ` set xs" using assms(2) by auto
  have "filter (\<lambda>y. fst y \<noteq> fst x) ys = ys" if "fst x \<notin> fst ` set ys" for ys :: "tptr list"
    using that by (intro filter_True ballI) (metis image_eqI)
  then show ?thesis using d by (simp add: assms(1) others_def)
qed

abbreviation first_of :: "'a list \<Rightarrow> 'a option" where
  "first_of xs \<equiv> (case xs of [] \<Rightarrow> None | x # _ \<Rightarrow> Some x)"

lemma page_next_of:
  assumes "page_ok s A" "plists A p = pre @ x # xs"
  shows "page_next s x = first_of xs" "fst x \<in> live A"
proof -
  show "page_next s x = first_of xs"
    using page_path [OF assms(1), of p] assms(2) by (cases xs) (auto simp: path_append get_page_def)
  have "x \<in> set (plists A p)" by (simp add: assms(2))
  then show "fst x \<in> live A" using assms(1) by (auto simp: page_ok_def)
qed

lemma sweep_loop:
  assumes "refines s A" "buffer_ok s" "running_ok s" "plists A p = pre @ xs" "distinct (map fst (pre @ xs))"
    "smc_ok env c"
  shows "\<exists>s' A' c'. tb_invalidate_loop env mem_io_pc restored start stop (first_of xs) s c = Some (s', c') \<and>
    swept start stop p pre xs s A s' A' \<and> smc_ok env c' \<and> (smc_idle c \<longrightarrow> smc_idle c')"
  using assms
proof (induction xs arbitrary: s A pre c)
  case Nil
  then show ?case by (subst tb_invalidate_loop.simps) (auto simp: swept_def)
next
  case (Cons x xs)
  note nx = page_next_of [OF refinesD(4) [OF Cons.prems(1)] Cons.prems(4)]
  show ?case
  proof (cases "in_range s start stop x")
    case False
    have "plists A p = (pre @ [x]) @ xs" "distinct (map fst ((pre @ [x]) @ xs))" using Cons.prems(4,5) by simp_all
    then obtain s' A' c' where r: "tb_invalidate_loop env mem_io_pc restored start stop (first_of xs) s c = Some (s', c')"
      "swept start stop p (pre @ [x]) xs s A s' A'" "smc_ok env c'" "smc_idle c \<longrightarrow> smc_idle c'"
      using Cons.IH [OF Cons.prems(1-3) _ _ Cons.prems(6)] by blast
    have "tb_invalidate_loop env mem_io_pc restored start stop (Some x) s c = Some (s', c')"
      using False r(1) nx(1) by (subst tb_invalidate_loop.simps) simp
    then show ?thesis using swept_skip [OF False r(2)] r(3,4) by auto
  next
    case True
    obtain c1 where c1: "tb_smc_check env mem_io_pc restored (fst x) s c = Some c1" "smc_ok env c1" "smc_idle c \<longrightarrow> smc_idle c1"
      using smc_check_some [OF Cons.prems(6)] by blast
    obtain s1 A1 where s1: "tb_invalidate_hit env (fst x) s = Some s1" "refines s1 A1" "static_view s1 = static_view s"
      "running_ok s1" "buckets A1 = buckets (kill (fst x) A)" "plists A1 = plists (kill (fst x) A)"
      "\<forall>e. current_tb s e = None \<longrightarrow> current_tb s1 e = None"
      by (rule hit_ok [OF Cons.prems(1-3) nx(2)])
    have live1: "live A1 = live A - {fst x}" using s1(5) live_kill [of "fst x" A] by (simp add: live_def)
    have pl: "plists A1 p = pre @ xs" using kill_page_list [OF Cons.prems(4,5)] s1(6) by simp
    have "buffer_ok s1" "distinct (map fst (pre @ xs))"
      using static_ok(1) [OF s1(3)] Cons.prems(2,5) by simp_all
    then obtain s' A' c' where r: "tb_invalidate_loop env mem_io_pc restored start stop (first_of xs) s1 c1 = Some (s', c')"
      "swept start stop p pre xs s1 A1 s' A'" "smc_ok env c'" "smc_idle c1 \<longrightarrow> smc_idle c'"
      using Cons.IH [OF s1(2) _ s1(4) pl _ c1(2)] by blast
    have "tb_invalidate_loop env mem_io_pc restored start stop (Some x) s c = Some (s', c')"
      using True c1(1) s1(1) r(1) nx(1) by (subst tb_invalidate_loop.simps) simp
    then show ?thesis using swept_hit [OF True s1(3) live1 s1(6,7) r(2)] r(3,4) c1(3) by auto
  qed
qed

text \<open>Counting writes, bitmaps and the page protection do not touch the lists.\<close>

lemma upd_pd_same:
  "static_view (upd_pd p f s) = static_view s" "hash_view (upd_pd p f s) = hash_view s"
  "jmp_view (upd_pd p f s) = jmp_view s" "tb_jmp_cache (upd_pd p f s) = tb_jmp_cache s"
  "other_view (upd_pd p f s) = other_view s" "page_next (upd_pd p f s) = page_next s"
  "tb_invalidated_flag (upd_pd p f s) = tb_invalidated_flag s" "page_present (upd_pd p f s) = page_present s"
proof -
  obtain a b c where p: "p = (a, b, c)" by (cases p)
  show "static_view (upd_pd p f s) = static_view s" "hash_view (upd_pd p f s) = hash_view s"
    "jmp_view (upd_pd p f s) = jmp_view s" "tb_jmp_cache (upd_pd p f s) = tb_jmp_cache s"
    "other_view (upd_pd p f s) = other_view s" "page_next (upd_pd p f s) = page_next s"
    "tb_invalidated_flag (upd_pd p f s) = tb_invalidated_flag s"
    by (simp_all add: p upd_pd_def all_views)
  have "page_present (upd_pd p f s) q = page_present s q" for q
    by (cases q) (auto simp: p upd_pd_def page_present_def split: option.split)
  then show "page_present (upd_pd p f s) = page_present s" by (rule ext)
qed

lemma upd_pd_refines:
  assumes "\<And>d. first_tb (f d) = first_tb d"
  shows "refines (upd_pd p f s) A = refines s A"
proof -
  let ?s = "upd_pd p f s"
  note v = upd_pd_same [of p f s]
  have "first_tb (get_pd ?s q) = first_tb (get_pd s q)" for q
    using assms by (cases p; cases q) (auto simp: upd_pd_def get_pd_def split: option.splits)
  then have "get_page ?s = get_page s" by (auto simp: get_page_def v(6) fun_eq_iff split: page_loc.split)
  then have "page_ok ?s A = page_ok s A"
    unfolding page_ok_def v(8) view_cong(7) [OF v(1)] by simp
  then show ?thesis
    unfolding refines_def fits_pages_def ok_cong(1) [OF v(2,1)] ok_cong(3) [OF v(3,1)] ok_cong(4) [OF v(4,1)] static_fields [OF v(1)]
    by simp
qed

lemma count_write_ok:
  assumes R: "refines s A" and p: "page_present s p"
  obtains s' where "count_write p w s = Some s'" "refines s' A" "static_view s' = static_view s"
    "other_view s' = other_view s" "page_present s' = page_present s" "tb_jmp_cache s' = tb_jmp_cache s"
proof -
  let ?s1 = "upd_pd p (\<lambda>d. d\<lparr>code_write_count := code_write_count d + 1\<rparr>) s"
  note v = upd_pd_same [of p "\<lambda>d. d\<lparr>code_write_count := code_write_count d + 1\<rparr>" s]
  have R1: "refines ?s1 A" using R by (simp add: upd_pd_refines)
  obtain tab where b: "build_page_bitmap p ?s1 = Some (upd_pd p (\<lambda>d. d\<lparr>code_bitmap := Some tab\<rparr>) ?s1)"
    by (rule build_page_bitmap_spec [OF refinesD(4) [OF R1], of p]) (simp_all add: v p)
  have R2: "refines (upd_pd p (\<lambda>d. d\<lparr>code_bitmap := Some tab\<rparr>) ?s1) A" using R1 by (simp add: upd_pd_refines)
  consider "count_write p w s = Some s" | "count_write p w s = Some ?s1"
    | "count_write p w s = Some (upd_pd p (\<lambda>d. d\<lparr>code_bitmap := Some tab\<rparr>) ?s1)"
    unfolding count_write_def Let_def b
    by (cases "code_bitmap (get_pd s p) = None"; cases "10 \<le> code_write_count (get_pd ?s1 p) \<and> w") simp_all
  then show thesis by cases (use that R R1 R2 in \<open>simp_all add: upd_pd_same\<close>)
qed

lemma page_find_key: "page_find (drop_bit 12 a) s = (if page_present s (pkey a) then Some (pkey a) else None)"
  by (auto simp: page_find_def page_find_alloc_def page_present_def pkey_def Let_def split: option.split)

text \<open>The blocks that the test of the loop selects.\<close>

definition range_blocks :: "tbstate \<Rightarrow> acache \<Rightarrow> u64 \<Rightarrow> u64 \<Rightarrow> nat set" where
  "range_blocks s A start stop = fst ` {x \<in> set (plists A (pkey start)). in_range s start stop x}"

lemma sweep_page:
  assumes C: "cache_ok gen s A" and r: "running_ok s" and w: "w \<longrightarrow> env \<noteq> None" and o: "once_per_page A start"
    and p: "page_present s (pkey start)"
  obtains s1 s2 c A2 where "count_write (pkey start) w s = Some s1"
    "tb_invalidate_loop env mem_io_pc restored start stop (first_tb (get_pd s1 (pkey start))) s1
       \<lparr>not_found = w, running = None, resume = None\<rparr> = Some (s2, c)"
    "refines s2 A2" "static_view s2 = static_view s" "running_ok s2" "smc_ok env c"
    "live A2 = live A - range_blocks s A start stop"
    "\<not> w \<longrightarrow> resume c = None" "\<forall>a. once_per_page A a \<longrightarrow> once_per_page A2 a"
    "\<forall>e. current_tb s e = None \<longrightarrow> current_tb s2 e = None"
proof -
  let ?p = "pkey start" and ?c = "\<lparr>not_found = w, running = None, resume = None\<rparr> :: smc"
  have R: "refines s A" and B: "buffer_ok s" using C by (simp_all add: cache_ok_def)
  obtain s1 where s1: "count_write ?p w s = Some s1" "refines s1 A" "static_view s1 = static_view s"
    "other_view s1 = other_view s"
    by (rule count_write_ok [OF R p])
  have B1: "buffer_ok s1" using B static_ok(1) [OF s1(3)] by simp
  have r1: "running_ok s1" using r s1(4) static_fields(1) [OF s1(3)] by (simp add: running_ok_def other_view_def)
  have f1: "first_tb (get_pd s1 ?p) = first_of (plists A ?p)"
    using page_path [OF refinesD(4) [OF s1(2)], of ?p] by (cases "plists A ?p") (auto simp: get_page_def)
  have d1: "distinct (map fst ([] @ plists A ?p))" using o by (simp add: once_per_page_def)
  have c1: "smc_ok env ?c" using w by (auto simp: smc_ok_def)
  obtain s2 A2 c where s2: "tb_invalidate_loop env mem_io_pc restored start stop (first_of (plists A ?p)) s1 ?c = Some (s2, c)"
    "swept start stop ?p [] (plists A ?p) s1 A s2 A2" "smc_ok env c" "smc_idle ?c \<longrightarrow> smc_idle c"
    using sweep_loop [OF s1(2) B1 r1 _ d1 c1, of ?p mem_io_pc restored start stop] by auto
  have "static_view s2 = static_view s" using s2(2) s1(3) unfolding swept_def by simp
  then show thesis
    using that [OF s1(1), of s2 c A2] s2 s1(4)
    unfolding f1 swept_def range_blocks_def in_range_static [OF s1(3)] by (simp add: smc_idle_def other_view_def)
qed

lemma unprotect_same:
  "refines (page_unprotect p start w s) A = refines s A" "static_view (page_unprotect p start w s) = static_view s"
  "current_tb (page_unprotect p start w s) = current_tb s"
proof -
  let ?u = "upd_pd p invalidate_page_bitmap s"
  have u: "refines ?u A = refines s A" by (rule upd_pd_refines) (simp add: invalidate_page_bitmap_def)
  moreover have "refines (?u\<lparr>tlb_events := e\<rparr>) A = refines ?u A" for e
    by (rule refines_cong) (simp_all add: all_views)
  ultimately show "refines (page_unprotect p start w s) A = refines s A" by (simp add: page_unprotect_def Let_def)
  have "static_view (?u\<lparr>tlb_events := e\<rparr>) = static_view s" for e
    using upd_pd_same(1) [of p invalidate_page_bitmap s] by (simp add: static_view_def)
  then show "static_view (page_unprotect p start w s) = static_view s"
    using upd_pd_same(1) [of p invalidate_page_bitmap s] by (simp add: page_unprotect_def Let_def)
  show "current_tb (page_unprotect p start w s) = current_tb s"
    using upd_pd_same(5) [of p invalidate_page_bitmap s] by (simp add: page_unprotect_def Let_def other_view_def)
qed

lemma range_ok:
  assumes C: "cache_ok gen s A" and gen: "size_bounded gen" "page_offset_kept phys"
    and r: "running_ok s" and w: "w \<longrightarrow> env \<noteq> None" and o: "once_per_page A start"
  obtains s' A' resumed where
    "tb_invalidate_phys_page_range phys gen env mem_io_pc restored start stop w s = Some (s', resumed)"
    "cache_ok gen s' A'"
    "if resumed then \<exists>t\<in>live A'. live A' - {t} \<subseteq> live A - range_blocks s A start stop
     else live A' = live A - range_blocks s A start stop \<and> static_view s' = static_view s \<and>
       (\<forall>a. once_per_page A a \<longrightarrow> once_per_page A' a) \<and> (\<forall>e. current_tb s e = None \<longrightarrow> current_tb s' e = None)"
    "\<not> w \<longrightarrow> \<not> resumed"
proof (cases "page_present s (pkey start)")
  case False
  then have "plists A (pkey start) = []"
    using C refinesD(4) unfolding cache_ok_def page_ok_def by blast
  then show thesis
    using that [of s False A] False C
    by (simp add: tb_invalidate_phys_page_range_def page_find_key range_blocks_def)
next
  case True
  obtain s1 s2 c A2 where s1: "count_write (pkey start) w s = Some s1"
    "tb_invalidate_loop env mem_io_pc restored start stop (first_tb (get_pd s1 (pkey start))) s1
       \<lparr>not_found = w, running = None, resume = None\<rparr> = Some (s2, c)" and
    s2: "refines s2 A2" "static_view s2 = static_view s" "running_ok s2" "smc_ok env c"
    "live A2 = live A - range_blocks s A start stop" "\<not> w \<longrightarrow> resume c = None"
    "\<forall>a. once_per_page A a \<longrightarrow> once_per_page A2 a" "\<forall>e. current_tb s e = None \<longrightarrow> current_tb s2 e = None"
    by (rule sweep_page [OF C r w o True])
  let ?s3 = "page_unprotect (pkey start) start w s2"
  have sv: "static_view ?s3 = static_view s" using s2(2) by (simp add: unprotect_same)
  have C3: "cache_ok gen ?s3 A2"
    using C s2(1) static_ok [OF sv] by (simp add: cache_ok_def unprotect_same)
  have range: "tb_invalidate_phys_page_range phys gen env mem_io_pc restored start stop w s = (case resume c of
      None \<Rightarrow> Some (?s3, False)
    | Some (pc, base, flags) \<Rightarrow> (case env of None \<Rightarrow> None
        | Some e \<Rightarrow> do {
            (tb, s) \<leftarrow> tb_gen_code phys gen pc base flags 1 (?s3\<lparr>current_tb := (current_tb ?s3)(e := None)\<rparr>);
            Some (s, True)
          }))"
    by (simp add: tb_invalidate_phys_page_range_def page_find_key True s1 Let_def)
  show thesis
  proof (cases "resume c")
    case None
    then show thesis using that [of ?s3 False A2] range C3 s2(5,7,8) sv by (simp add: unprotect_same)
  next
    case (Some st)
    obtain pc base flags where st: "st = (pc, base, flags)" by (cases st)
    obtain e where e: "env = Some e" using s2(4) Some by (cases env) (auto simp: smc_ok_def)
    let ?s4 = "?s3\<lparr>current_tb := (current_tb ?s3)(e := None)\<rparr>"
    have R4: "refines ?s4 A2" and B4: "buffer_ok ?s4" and F4: "code_fits gen ?s4"
      using C3 by (simp_all add: cache_ok_def current_tb_refines static_ok(2) [OF current_tb_refines(3)])
    obtain s5 A5 s6 p2 where s6: "room_for ?s4 A2 s5 A5" "tb_gen_code phys gen pc base flags 1 ?s4 = Some (nb_tbs s5, s6)"
      "refines s6 (add_block (nb_tbs s5) (tb_phys_hash_func (phys pc)) (phys pc AND NOT (mask 12)) p2 A5)"
      "buffer_ok s6" "code_fits gen s6"
      by (rule gen_code_refines [OF R4 B4 F4 gen, of pc base flags 1])
    have "live A5 \<subseteq> live A2" using s6(1) by (auto simp: room_for_def)
    then show thesis
      using that [of s6 True "add_block (nb_tbs s5) (tb_phys_hash_func (phys pc)) (phys pc AND NOT (mask 12)) p2 A5"]
        range s6 s2(5,6) by (auto simp: Some st e cache_ok_def)
  qed
qed

section \<open>Bytes\<close>

text \<open>The bytes of a page that the bitmap marks for a part of a block.\<close>

definition marks_byte :: "tbstate \<Rightarrow> tptr \<Rightarrow> nat \<Rightarrow> bool" where
  "marks_byte s x k \<longleftrightarrow> fst (page_bytes s x) \<le> k \<and> k < snd (page_bytes s x)"

lemma unat_ucast_u64: "unat (ucast (x :: u32) :: u64) = unat x" "unat (ucast (y :: u16) :: u64) = unat y"
  using unsigned_less [of x, where 'a = nat] unsigned_less [of y, where 'a = nat]
  by (simp_all add: unsigned_ucast_eq take_bit_nat_eq_self)

lemma marks_in_range:
  assumes x: "snd x < 2" "page_addr s x = start AND NOT (mask 12)" and b: "unat start < 2 ^ 36"
    and k: "unat (start AND mask 12) \<le> k" "k < unat (start AND mask 12) + len" "len \<le> 8" and c: "marks_byte s x k"
  shows "in_range s start (start + of_nat len) x"
proof -
  obtain t n where tn: "x = (t, n)" by (cases x)
  let ?P = "unat (start AND NOT (mask 12))" and ?o = "unat (start AND mask 12)"
  have P: "unat start = ?P + ?o"
  proof -
    have "start AND NOT (mask 12) \<le> start" by (simp add: word_and_le2)
    then have "unat (start - (start AND NOT (mask 12))) = unat start - ?P" by (rule unat_sub)
    moreover have "start - (start AND NOT (mask 12)) = start AND mask 12"
      using page_split [of start 12] by (simp add: algebra_simps)
    moreover have "?P \<le> unat start" using \<open>_ \<le> start\<close> by (simp add: word_le_nat_alt)
    ultimately show ?thesis by simp
  qed
  have stop: "unat (start + of_nat len) = unat start + len"
    using b k(3) by (simp add: unat_word_ariths unat_of_nat)
  have o: "unat (v AND mask 12) < 4096" for v :: u32 by (simp add: unat_and_mask)
  show ?thesis
  proof (cases "n = 0")
    case True
    let ?a = "unat (tb_pc s t AND mask 12)" and ?z = "unat (tb_size s t)"
    have z: "?z < 65536" using unsigned_less [of "tb_size s t", where 'a = nat] by simp
    have "unat ((start AND NOT (mask 12)) + ucast (tb_pc s t AND mask 12)) = ?P + ?a"
      using P b o [of "tb_pc s t"] by (simp add: unat_word_ariths unat_ucast_u64)
    moreover have "unat ((start AND NOT (mask 12)) + ucast (tb_pc s t AND mask 12) + ucast (tb_size s t)) = ?P + ?a + ?z"
      using P b o [of "tb_pc s t"] z by (simp add: unat_word_ariths unat_ucast_u64)
    moreover have "?a \<le> k" "k < ?a + ?z" using c by (auto simp: marks_byte_def tn page_bytes_def True Let_def split: if_splits)
    ultimately show ?thesis
      using x P stop k by (simp add: in_range_def tb_part_def tn True Let_def word_le_nat_alt)
  next
    case False
    then have n: "n = 1" using x(1) tn by simp
    let ?e = "(tb_pc s t + ucast (tb_size s t)) AND mask 12"
    have "unat ((start AND NOT (mask 12)) + ucast ?e) = ?P + unat ?e"
      using P b o [of "tb_pc s t + ucast (tb_size s t)"] by (simp add: unat_word_ariths unat_ucast_u64)
    moreover have "k < unat ?e" using c by (simp add: marks_byte_def tn page_bytes_def False)
    ultimately show ?thesis
      using x P stop k by (simp add: in_range_def tb_part_def tn n word_le_nat_alt)
  qed
qed

text \<open>The test of \<open>tb_invalidate_phys_page_fast\<close> looks at the bits of the bytes that are written.\<close>

lemma fast_bits:
  assumes z: "ucast (drop_bit (off mod 8) (tab (off div 8))) AND (mask len :: u32) = 0"
    and k: "off \<le> k" "k < off + len" "off mod 8 + len \<le> 8"
  shows "\<not> tab_bit tab k"
proof -
  have "k = off div 8 * 8 + (off mod 8 + (k - off))" using k(1) by (metis add.assoc div_mult_mod_eq le_add_diff_inverse)
  moreover have lt: "off mod 8 + (k - off) < 8" using k by linarith
  ultimately have k8: "k div 8 = off div 8" "k mod 8 = off mod 8 + (k - off)"
    by (metis add.commute div_mult_self3 div_less add_0 numeral_eq_Suc zero_less_Suc less_numeral_extra(3) mult.commute nat.simps(3),
        metis mod_mult_self3 mod_less)
  have "\<not> bit (ucast (drop_bit (off mod 8) (tab (off div 8))) AND (mask len :: u32)) (k - off)" by (simp add: z)
  then have "\<not> bit (drop_bit (off mod 8) (tab (off div 8))) (k - off)"
    using k lt by (auto simp: bit_and_iff bit_mask_iff bit_ucast_iff)
  then show ?thesis by (simp add: tab_bit_def k8 bit_drop_bit_eq add.commute)
qed

text \<open>The bitmap of a page has the bits of all its blocks.\<close>

definition marks_ok :: "tbstate \<Rightarrow> acache \<Rightarrow> pd_ptr \<Rightarrow> bool" where
  "marks_ok s A p \<longleftrightarrow> (\<forall>tab. code_bitmap (get_pd s p) = Some tab \<longrightarrow>
     (\<forall>x\<in>set (plists A p). \<forall>k. marks_byte s x k \<longrightarrow> tab_bit tab k))"

text \<open>The parts of blocks on a page have its address: page numbers fit in the 36 bits of the map.\<close>

definition same_page :: "tbstate \<Rightarrow> acache \<Rightarrow> u64 \<Rightarrow> bool" where
  "same_page s A a \<longleftrightarrow> unat a < 2 ^ 36 \<and> (\<forall>x\<in>set (plists A (pkey a)). page_addr s x = a AND NOT (mask 12))"

lemma fast_skip:
  assumes b: "marks_ok s A (pkey start)"
    and tab: "code_bitmap (get_pd s (pkey start)) = Some tab"
      "ucast (drop_bit (unat (start AND mask 12) mod 8) (tab (unat (start AND mask 12) div 8))) AND (mask len :: u32) = 0"
    and len: "unat (start AND mask 12) mod 8 + len \<le> 8"
    and x: "x \<in> set (plists A (pkey start))" and k: "unat (start AND mask 12) \<le> k" "k < unat (start AND mask 12) + len"
  shows "\<not> marks_byte s x k"
  using fast_bits [where off = "unat (start AND mask 12)" and tab = tab, OF tab(2) k len] b tab(1) x
  unfolding marks_ok_def by blast

text \<open>A surviving block has no mark among the bytes that were written.\<close>

definition unmarked :: "tbstate \<Rightarrow> acache \<Rightarrow> u64 \<Rightarrow> nat \<Rightarrow> nat \<Rightarrow> bool" where
  "unmarked s A start len t \<longleftrightarrow> (\<forall>n k. (t, n) \<in> set (plists A (pkey start)) \<longrightarrow>
     unat (start AND mask 12) \<le> k \<longrightarrow> k < unat (start AND mask 12) + len \<longrightarrow> \<not> marks_byte s (t, n) k)"

lemma unmarked_range:
  assumes R: "refines s A" and a: "same_page s A start" and len: "len \<le> 8"
    and t: "t \<notin> range_blocks s A start (start + of_nat len)"
  shows "unmarked s A start len t"
  unfolding unmarked_def
proof (intro allI impI notI)
  fix n k
  assume x: "(t, n) \<in> set (plists A (pkey start))" and k: "unat (start AND mask 12) \<le> k" "k < unat (start AND mask 12) + len"
    and c: "marks_byte s (t, n) k"
  have "snd (t, n) < 2" using refinesD(4) [OF R] x by (auto simp: page_ok_def on_page_def)
  moreover have "page_addr s (t, n) = start AND NOT (mask 12)" "unat start < 2 ^ 36"
    using a x unfolding same_page_def by blast+
  ultimately have "in_range s start (start + of_nat len) (t, n)" using marks_in_range k len c by blast
  then show False using t x unfolding range_blocks_def by force
qed

lemma fast_ok:
  assumes C: "cache_ok gen s A" and gen: "size_bounded gen" "page_offset_kept phys"
    and r: "running_ok s" and env: "env \<noteq> None" and o: "once_per_page A start"
    and b: "marks_ok s A (pkey start)" "same_page s A start" and len: "unat (start AND mask 12) mod 8 + len \<le> 8"
  obtains s' A' resumed t where
    "tb_invalidate_phys_page_fast phys gen env mem_io_pc restored start len s = Some (s', resumed)"
    "cache_ok gen s' A'" "\<forall>u\<in>live A'. u \<in> live A \<and> unmarked s A start len u \<or> resumed \<and> u = t"
proof -
  let ?range = "tb_invalidate_phys_page_range phys gen env mem_io_pc restored start (start + of_nat len) True s"
  let ?hit = "range_blocks s A start (start + of_nat len)"
  have R: "refines s A" using C by (simp add: cache_ok_def)
  have len8: "len \<le> 8" using len by simp
  have env': "True \<longrightarrow> env \<noteq> None" using env by simp
  obtain s' A' resumed where s': "?range = Some (s', resumed)" "cache_ok gen s' A'" and
    l: "if resumed then \<exists>t\<in>live A'. live A' - {t} \<subseteq> live A - ?hit
        else live A' = live A - ?hit \<and> static_view s' = static_view s \<and>
          (\<forall>a. once_per_page A a \<longrightarrow> once_per_page A' a) \<and> (\<forall>e. current_tb s e = None \<longrightarrow> current_tb s' e = None)"
    by (rule range_ok [OF C gen r env' o])
  have un: "unmarked s A start len u" if "u \<in> live A - ?hit" for u
    using unmarked_range [OF R b(2) len8] that by blast
  obtain t where t: "\<forall>u\<in>live A'. u \<in> live A - ?hit \<or> resumed \<and> u = t"
    using l by (cases resumed) auto
  then have fin: "\<forall>u\<in>live A'. u \<in> live A \<and> unmarked s A start len u \<or> resumed \<and> u = t" using un by blast
  show thesis
  proof (cases "tb_invalidate_phys_page_fast phys gen env mem_io_pc restored start len s = ?range")
    case True
    then show thesis using that [OF _ s'(2) fin] s'(1) by simp
  next
    case False
    then have skip: "tb_invalidate_phys_page_fast phys gen env mem_io_pc restored start len s = Some (s, False)"
      by (auto simp: tb_invalidate_phys_page_fast_def Let_def split: option.splits)
    have "unmarked s A start len u" for u
    proof (cases "page_present s (pkey start)")
      case np: False
      then have "plists A (pkey start) = []" using refinesD(4) [OF R] unfolding page_ok_def by blast
      then show ?thesis by (simp add: unmarked_def)
    next
      case True
      then obtain tab where "code_bitmap (get_pd s (pkey start)) = Some tab"
        "ucast (drop_bit (unat (start AND mask 12) mod 8) (tab (unat (start AND mask 12) div 8))) AND (mask len :: u32) = 0"
        using False by (auto simp: tb_invalidate_phys_page_fast_def page_find_key Let_def split: option.splits if_splits)
      then show ?thesis using fast_skip [OF b(1) _ _ len] unfolding unmarked_def by blast
    qed
    then show thesis using that [OF skip C] by blast
  qed
qed

end
