(* ===== verification/Cache_Flush.thy ===== *)
theory Cache_Flush
  imports Code_Pages Callback_Registry
begin

text \<open>
  The flushes that the callback registry asks for, as shared/DECAF_main.c carries them out on the
  code cache, and the lookup of the main loop of cpu-exec.c that they precede.
\<close>

declare split_paired_All [simp del] split_paired_Ex [simp del]

section \<open>Flushing by guest address\<close>

text \<open>The address of a block is compared with the offset of the code segment added.\<close>

definition tb_linear_pc :: "tbstate \<Rightarrow> nat \<Rightarrow> u32" where
  "tb_linear_pc s tb = tb_pc s tb + tb_cs_base s tb"

fun tb_find_buckets :: "nat list \<Rightarrow> u32 \<Rightarrow> tbstate \<Rightarrow> nat option option" where
  "tb_find_buckets [] pc s = Some None"
| "tb_find_buckets (h # hs) pc s = (case tb_find_loop (\<lambda>tb. tb_linear_pc s tb = pc) (Bucket h) s of
     None \<Rightarrow> None
   | Some (ptb1, Some tb) \<Rightarrow> Some (Some tb)
   | Some (ptb1, None) \<Rightarrow> tb_find_buckets hs pc s)"

definition DECAF_tb_find_slow :: "u32 \<Rightarrow> tbstate \<Rightarrow> (nat option \<times> tbstate) option" where
  "DECAF_tb_find_slow pc s = do {
     let s = s\<lparr>tb_invalidated_flag := False\<rparr>;
     tb \<leftarrow> tb_find_buckets [0..<32768] pc s;
     Some (tb, s)
   }"

definition DECAF_flushTranslationBlock_env :: "u32 \<Rightarrow> tbstate \<Rightarrow> tbstate option" where
  "DECAF_flushTranslationBlock_env addr s = do {
     (tb, s) \<leftarrow> DECAF_tb_find_slow addr s;
     (case tb of None \<Rightarrow> Some s | Some tb \<Rightarrow> tb_phys_invalidate tb no_page s)
   }"

text \<open>
  What the code that is called gets from its surroundings: the softmmu, the translator, the CPU that
  runs (\<open>cpu_single_env\<close>) with its \<open>mem_io_pc\<close>, and the guest state that is restored for a block.
\<close>

record cache_env =
  get_page_addr_code :: "u32 \<Rightarrow> u64"
  cpu_gen_code :: "nat \<Rightarrow> tbstate \<Rightarrow> gen_result"
  cpu_single_env :: "nat option"
  mem_io_pc :: u64
  restored_state :: "nat \<Rightarrow> u32 \<times> u32 \<times> u64"

definition DECAF_flushTranslationPage_env :: "cache_env \<Rightarrow> u32 \<Rightarrow> tbstate \<Rightarrow> tbstate option" where
  "DECAF_flushTranslationPage_env E addr s = do {
     (tb, s) \<leftarrow> DECAF_tb_find_slow addr s;
     (case tb of
        None \<Rightarrow> Some s
      | Some tb \<Rightarrow> map_option fst (tb_invalidate_phys_page_range (get_page_addr_code E) (cpu_gen_code E)
          (cpu_single_env E) (mem_io_pc E) (restored_state E)
          (page_addr s (tb, 0)) (page_addr s (tb, 0) + 0x1000) False s))
   }"

text \<open>The loops over the CPUs: the cache is shared, so every round works on the same one.\<close>

fun DECAF_flushTranslationBlock :: "nat list \<Rightarrow> u32 \<Rightarrow> tbstate \<Rightarrow> tbstate option" where
  "DECAF_flushTranslationBlock [] addr s = Some s"
| "DECAF_flushTranslationBlock (env # envs) addr s = do {
     s \<leftarrow> DECAF_flushTranslationBlock_env addr s;
     DECAF_flushTranslationBlock envs addr s
   }"

fun DECAF_flushTranslationPage :: "cache_env \<Rightarrow> nat list \<Rightarrow> u32 \<Rightarrow> tbstate \<Rightarrow> tbstate option" where
  "DECAF_flushTranslationPage E [] addr s = Some s"
| "DECAF_flushTranslationPage E (env # envs) addr s = do {
     s \<leftarrow> DECAF_flushTranslationPage_env E addr s;
     DECAF_flushTranslationPage E envs addr s
   }"

definition do_flush :: "cache_env \<Rightarrow> flush_type \<Rightarrow> u32 \<Rightarrow> tbstate \<Rightarrow> tbstate option" where
  "do_flush E type addr s = (case type of
     BLOCK_LEVEL \<Rightarrow> DECAF_flushTranslationBlock (cpus s) addr s
   | PAGE_LEVEL \<Rightarrow> DECAF_flushTranslationPage E (cpus s) addr s
   | ALL_CACHE \<Rightarrow> tb_flush s)"

fun do_flushes :: "cache_env \<Rightarrow> (flush_type \<times> u32) list \<Rightarrow> tbstate \<Rightarrow> tbstate option" where
  "do_flushes E [] s = Some s"
| "do_flushes E ((type, addr) # rest) s = do {
     s \<leftarrow> do_flush E type addr s;
     do_flushes E rest s
   }"

section \<open>The lookup of the main loop\<close>

text \<open>
  One round of the loop of \<open>cpu_exec\<close> up to the execution of the block.  \<open>next_tb\<close> is the exit that
  the last block left through.
\<close>

definition cpu_exec_lookup ::
    "cache_env \<Rightarrow> nat \<Rightarrow> u32 \<Rightarrow> u32 \<Rightarrow> u64 \<Rightarrow> tptr option \<Rightarrow> cbstate \<Rightarrow> tbstate \<Rightarrow> (nat \<times> cbstate \<times> tbstate) option" where
  "cpu_exec_lookup E env pc base flags next_tb r s = do {
     let (flushes, r) = DECAF_perform_flush r;
     s \<leftarrow> do_flushes E flushes s;
     (tb, s) \<leftarrow> tb_find_fast (get_page_addr_code E) (cpu_gen_code E) env pc base flags s;
     let (next_tb, s) = (if tb_invalidated_flag s then (None, s\<lparr>tb_invalidated_flag := False\<rparr>) else (next_tb, s));
     let s = (case next_tb of
         None \<Rightarrow> s
       | Some (t, n) \<Rightarrow> (if page_addr s (tb, 1) = no_page then tb_add_jump t n tb s else s));
     Some (tb, r, s\<lparr>current_tb := (current_tb s)(env \<mapsto> tb)\<rparr>)
   }"

section \<open>What a flush removes\<close>

lemma find_buckets_ok:
  assumes "hash_ok s A"
  shows "\<exists>r. tb_find_buckets hs pc s = Some r \<and>
    (case r of None \<Rightarrow> \<forall>h\<in>set hs. \<forall>t\<in>set (buckets A h). tb_linear_pc s t \<noteq> pc
     | Some t \<Rightarrow> t \<in> live A \<and> tb_linear_pc s t = pc)"
proof (induction hs)
  case (Cons h hs)
  let ?m = "\<lambda>tb. tb_linear_pc s tb = pc"
  have p: "path (get_hash s) Next (Bucket h) (buckets A h) None" using assms by (simp add: hash_ok_def lists_at_def)
  show ?case
  proof (cases "\<exists>t\<in>set (buckets A h). ?m t")
    case True
    then obtain xs t ys where b: "buckets A h = xs @ t # ys" "\<forall>u\<in>set xs. \<not> ?m u" "?m t"
      using split_list_first_prop [OF True] by blast
    have "tb_find_loop ?m (Bucket h) s = Some (last_loc Next (Bucket h) xs, Some t)"
      by (rule find_loop_found [of s _ xs t ys None]) (use p b in simp_all)
    moreover have "t \<in> live A" by (rule liveI [of t A h]) (simp add: b(1))
    ultimately show ?thesis using b(3) by simp
  next
    case False
    then have "tb_find_loop ?m (Bucket h) s = Some (last_loc Next (Bucket h) (buckets A h), None)"
      by (intro find_loop_absent [OF p]) blast
    then show ?thesis using Cons False by (auto split: option.splits)
  qed
qed simp

lemma hash_bound: "tb_hash s t < 32768"
  by (simp add: tb_hash_def tb_phys_hash_func_def unat_and_mask)

lemma decaf_find_ok:
  assumes R: "refines s A"
  obtains r where "DECAF_tb_find_slow pc s = Some (r, s\<lparr>tb_invalidated_flag := False\<rparr>)"
    "case r of None \<Rightarrow> \<forall>t\<in>live A. tb_linear_pc s t \<noteq> pc | Some t \<Rightarrow> t \<in> live A \<and> tb_linear_pc s t = pc"
proof -
  let ?s = "s\<lparr>tb_invalidated_flag := False\<rparr>"
  have R': "refines ?s A" using R by (subst refines_cong [of _ s]) (simp_all add: all_views)
  note h = refinesD(3) [OF R']
  obtain r where r: "tb_find_buckets [0..<32768] pc ?s = Some r"
    "case r of None \<Rightarrow> \<forall>h\<in>set [0..<32768]. \<forall>t\<in>set (buckets A h). tb_linear_pc ?s t \<noteq> pc
     | Some t \<Rightarrow> t \<in> live A \<and> tb_linear_pc ?s t = pc"
    using find_buckets_ok [OF h] by blast
  have "tb_linear_pc ?s = tb_linear_pc s" by (simp add: tb_linear_pc_def fun_eq_iff)
  moreover have "\<exists>h\<in>set [0..<32768]. t \<in> set (buckets A h)" if t: "t \<in> live A" for t
  proof -
    obtain j where j: "t \<in> set (buckets A j)" using t by (auto simp: live_def)
    then have "j = tb_hash ?s t" using h by (simp add: hash_ok_def)
    then have "j \<in> set [0..<32768]" using hash_bound [of ?s t] by simp
    then show ?thesis using j by blast
  qed
  ultimately have "case r of None \<Rightarrow> \<forall>t\<in>live A. tb_linear_pc s t \<noteq> pc | Some t \<Rightarrow> t \<in> live A \<and> tb_linear_pc s t = pc"
    using r(2) by (cases r) (simp_all del: set_upt, blast)
  then show thesis using that [of r] r(1) by (simp add: DECAF_tb_find_slow_def)
qed

text \<open>The cache between two blocks: no CPU runs translated code.\<close>

definition idle_ok :: "cache_env \<Rightarrow> tbstate \<Rightarrow> acache \<Rightarrow> bool" where
  "idle_ok E s A \<longleftrightarrow> cache_ok (cpu_gen_code E) s A \<and> (\<forall>e. current_tb s e = None) \<and> (\<forall>a. once_per_page A a)"

lemma idle_flag: "idle_ok E (s\<lparr>tb_invalidated_flag := b\<rparr>) A = idle_ok E s A"
  "static_view (s\<lparr>tb_invalidated_flag := b\<rparr>) = static_view s"
proof -
  let ?s = "s\<lparr>tb_invalidated_flag := b\<rparr>"
  show v: "static_view ?s = static_view s" by (simp add: static_view_def)
  have "refines ?s A = refines s A" by (rule refines_cong) (simp_all add: all_views)
  then show "idle_ok E ?s A = idle_ok E s A" by (simp add: idle_ok_def cache_ok_def static_ok [OF v])
qed

lemma linear_static: "static_view s' = static_view s \<Longrightarrow> tb_linear_pc s' = tb_linear_pc s"
  by (simp add: tb_linear_pc_def static_view_def fun_eq_iff)

text \<open>A round of flushing by address removes one block with that address, if there is one.\<close>

lemma flush_block_env_ok:
  assumes I: "idle_ok E s A"
  obtains s' A' where "DECAF_flushTranslationBlock_env addr s = Some s'" "idle_ok E s' A'" "static_view s' = static_view s"
    "(\<forall>t\<in>live A. tb_linear_pc s t \<noteq> addr) \<and> live A' = live A \<or>
     (\<exists>t\<in>live A. tb_linear_pc s t = addr \<and> live A' = live A - {t})"
proof -
  let ?s = "s\<lparr>tb_invalidated_flag := False\<rparr>"
  have R: "refines s A" using I by (simp add: idle_ok_def cache_ok_def)
  obtain r where r: "DECAF_tb_find_slow addr s = Some (r, ?s)"
    "case r of None \<Rightarrow> \<forall>t\<in>live A. tb_linear_pc s t \<noteq> addr | Some t \<Rightarrow> t \<in> live A \<and> tb_linear_pc s t = addr"
    by (rule decaf_find_ok [OF R])
  have I': "idle_ok E ?s A" using I by (simp add: idle_flag)
  show thesis
  proof (cases r)
    case None
    then show thesis
      using that [OF _ I'] r by (simp add: DECAF_flushTranslationBlock_env_def idle_flag)
  next
    case (Some t)
    have R': "refines ?s A" using I' by (simp add: idle_ok_def cache_ok_def)
    have t: "t \<in> live A" "tb_linear_pc s t = addr" using r(2) Some by simp_all
    obtain s' where s': "tb_phys_invalidate t no_page ?s = Some s'" "refines s' (kill t A)"
      "static_view s' = static_view ?s" "other_view s' = other_view ?s"
      by (rule invalidate_refines [OF R' t(1)])
    have sv: "static_view s' = static_view s" using s'(3) by (simp add: idle_flag)
    have "idle_ok E s' (kill t A)"
      using I s'(2,4) once_per_page_kill static_ok(1,2) [OF sv] by (simp add: idle_ok_def cache_ok_def other_view_def)
    then show thesis
      using that [of s' "kill t A"] s'(1) r(1) Some sv t by (auto simp: DECAF_flushTranslationBlock_env_def)
  qed
qed

lemma flush_block_ok:
  assumes "idle_ok E s A"
  shows "\<exists>s' A'. DECAF_flushTranslationBlock envs addr s = Some s' \<and> idle_ok E s' A' \<and> static_view s' = static_view s \<and>
    live A' \<subseteq> live A \<and> {t \<in> live A. tb_linear_pc s t \<noteq> addr} \<subseteq> live A' \<and>
    card {t \<in> live A'. tb_linear_pc s t = addr} = card {t \<in> live A. tb_linear_pc s t = addr} - length envs"
  using assms
proof (induction envs arbitrary: s A)
  case (Cons env envs)
  obtain s1 A1 where s1: "DECAF_flushTranslationBlock_env addr s = Some s1" "idle_ok E s1 A1" "static_view s1 = static_view s"
    and l: "(\<forall>t\<in>live A. tb_linear_pc s t \<noteq> addr) \<and> live A1 = live A \<or>
      (\<exists>t\<in>live A. tb_linear_pc s t = addr \<and> live A1 = live A - {t})"
    by (rule flush_block_env_ok [OF Cons.prems])
  note lp = linear_static [OF s1(3)]
  obtain s' A' where s': "DECAF_flushTranslationBlock envs addr s1 = Some s'" "idle_ok E s' A'" "static_view s' = static_view s1"
    "live A' \<subseteq> live A1" "{t \<in> live A1. tb_linear_pc s t \<noteq> addr} \<subseteq> live A'"
    "card {t \<in> live A'. tb_linear_pc s t = addr} = card {t \<in> live A1. tb_linear_pc s t = addr} - length envs"
    using Cons.IH [OF s1(2)] unfolding lp by blast
  have fin: "finite (live A)"
    using Cons.prems refinesD(1) [of s A] finite_subset [of "live A" "{..<nb_tbs s}"]
    by (auto simp: idle_ok_def cache_ok_def)
  have "card {t \<in> live A1. tb_linear_pc s t = addr} = card {t \<in> live A. tb_linear_pc s t = addr} - 1"
    "live A1 \<subseteq> live A" "{t \<in> live A. tb_linear_pc s t \<noteq> addr} \<subseteq> live A1"
  proof -
    consider "\<forall>t\<in>live A. tb_linear_pc s t \<noteq> addr" "live A1 = live A"
      | t where "t \<in> live A" "tb_linear_pc s t = addr" "live A1 = live A - {t}" using l by blast
    then show "card {t \<in> live A1. tb_linear_pc s t = addr} = card {t \<in> live A. tb_linear_pc s t = addr} - 1"
    proof cases
      case 1
      then have e: "{t \<in> live A. tb_linear_pc s t = addr} = {}" by blast
      show ?thesis unfolding 1(2) e by simp
    next
      case 2
      then have "{u \<in> live A1. tb_linear_pc s u = addr} = {u \<in> live A. tb_linear_pc s u = addr} - {t}" by auto
      then show ?thesis using 2 fin by (simp add: card_Diff_singleton)
    qed
    show "live A1 \<subseteq> live A" "{t \<in> live A. tb_linear_pc s t \<noteq> addr} \<subseteq> live A1" using l by auto
  qed
  then show ?case using s1(1,3) s' by (auto intro!: exI [of _ s'] exI [of _ A'])
qed auto

lemma flush_page_env_ok:
  assumes I: "idle_ok E s A" and E: "size_bounded (cpu_gen_code E)" "page_offset_kept (get_page_addr_code E)"
  obtains s' A' where "DECAF_flushTranslationPage_env E addr s = Some s'" "idle_ok E s' A'" "static_view s' = static_view s"
    "live A' \<subseteq> live A" "(\<forall>t\<in>live A. tb_linear_pc s t \<noteq> addr) \<longrightarrow> s' = s\<lparr>tb_invalidated_flag := False\<rparr> \<and> A' = A"
proof -
  let ?s = "s\<lparr>tb_invalidated_flag := False\<rparr>"
  have R: "refines s A" using I by (simp add: idle_ok_def cache_ok_def)
  obtain r where r: "DECAF_tb_find_slow addr s = Some (r, ?s)"
    "case r of None \<Rightarrow> \<forall>t\<in>live A. tb_linear_pc s t \<noteq> addr | Some t \<Rightarrow> t \<in> live A \<and> tb_linear_pc s t = addr"
    by (rule decaf_find_ok [OF R])
  have I': "idle_ok E ?s A" using I by (simp add: idle_flag)
  show thesis
  proof (cases r)
    case None
    then show thesis
      using that [OF _ I'] r by (simp add: DECAF_flushTranslationPage_env_def idle_flag)
  next
    case (Some t)
    let ?a = "page_addr ?s (t, 0)"
    have C: "cache_ok (cpu_gen_code E) ?s A" and run: "running_ok ?s" and o: "once_per_page A ?a"
      using I' by (simp_all add: idle_ok_def running_ok_def)
    obtain s' A' resumed where
      s': "tb_invalidate_phys_page_range (get_page_addr_code E) (cpu_gen_code E) (cpu_single_env E) (mem_io_pc E)
        (restored_state E) ?a (?a + 0x1000) False ?s = Some (s', resumed)" "cache_ok (cpu_gen_code E) s' A'"
      and l: "if resumed then \<exists>t\<in>live A'. live A' - {t} \<subseteq> live A - range_blocks ?s A ?a (?a + 0x1000)
       else live A' = live A - range_blocks ?s A ?a (?a + 0x1000) \<and> static_view s' = static_view ?s \<and>
         (\<forall>a. once_per_page A a \<longrightarrow> once_per_page A' a) \<and> (\<forall>e. current_tb ?s e = None \<longrightarrow> current_tb s' e = None)"
      and nr: "\<not> False \<longrightarrow> \<not> resumed"
      by (rule range_ok [OF C E run _ o, of False]) simp
    have l': "live A' = live A - range_blocks ?s A ?a (?a + 0x1000)" "static_view s' = static_view ?s"
      "\<forall>a. once_per_page A a \<longrightarrow> once_per_page A' a" "\<forall>e. current_tb ?s e = None \<longrightarrow> current_tb s' e = None"
      using l nr by simp_all
    have "idle_ok E s' A'" using I' s'(2) l'(3,4) by (simp add: idle_ok_def)
    moreover have "DECAF_flushTranslationPage_env E addr s = Some s'"
      using r(1) Some s'(1) by (simp add: DECAF_flushTranslationPage_env_def)
    moreover have "t \<in> live A" "tb_linear_pc s t = addr" using r(2) Some by simp_all
    ultimately show thesis using that [of s' A'] l'(1,2) by (auto simp: idle_flag)
  qed
qed

lemma flush_page_ok:
  assumes "idle_ok E s A" and E: "size_bounded (cpu_gen_code E)" "page_offset_kept (get_page_addr_code E)"
  shows "\<exists>s' A'. DECAF_flushTranslationPage E envs addr s = Some s' \<and> idle_ok E s' A' \<and> static_view s' = static_view s \<and>
    live A' \<subseteq> live A"
  using assms(1)
proof (induction envs arbitrary: s A)
  case (Cons env envs)
  obtain s1 A1 where s1: "DECAF_flushTranslationPage_env E addr s = Some s1" "idle_ok E s1 A1" "static_view s1 = static_view s"
    "live A1 \<subseteq> live A"
    by (rule flush_page_env_ok [OF Cons.prems E])
  then show ?case using Cons.IH [OF s1(2)] by auto
qed auto

lemma flush_cache_ok:
  assumes C: "cache_ok gen s A"
  obtains s' where "tb_flush s = Some s'" "cache_ok gen s' empty_cache" "cpus s' = cpus s" "nb_tbs s' = 0"
    "tb_invalidated_flag s' = tb_invalidated_flag s" "current_tb s' = current_tb s"
    "code_gen_ptr s' = code_gen_buffer s'"
proof -
  have B: "buffer_ok s" and F: "code_fits gen s" using C by (simp_all add: cache_ok_def)
  have fits: "code_gen_ptr s - code_gen_buffer s \<le> code_gen_buffer_size s" using B by (simp add: buffer_ok_def)
  obtain s' where s': "tb_flush s = Some s'" "refines s' empty_cache" "nb_tbs s' = 0"
    "code_gen_ptr s' = code_gen_buffer s'" "code_gen_buffer s' = code_gen_buffer s"
    "code_gen_buffer_size s' = code_gen_buffer_size s" "code_gen_max_blocks s' = code_gen_max_blocks s"
    "code_gen_buffer_max_size s' = code_gen_buffer_max_size s" "cpus s' = cpus s"
    "phys_hash_next s' = phys_hash_next s" "tb_phys_hash s' = (\<lambda>_. None)"
    "tb_invalidated_flag s' = tb_invalidated_flag s" "current_tb s' = current_tb s"
    by (rule flush_refines [OF fits]) (rule that; assumption)
  have "buffer_ok s'" using B by (simp add: buffer_ok_def s')
  moreover have "code_fits gen s'" using F by (simp add: code_fits_def s')
  ultimately have "cache_ok gen s' empty_cache" using s'(2) by (simp add: cache_ok_def)
  then show thesis using that s' by simp
qed

lemma flush_all_ok:
  assumes I: "idle_ok E s A"
  obtains s' where "tb_flush s = Some s'" "idle_ok E s' empty_cache" "cpus s' = cpus s" "nb_tbs s' = 0"
    "tb_invalidated_flag s' = tb_invalidated_flag s" "code_gen_ptr s' = code_gen_buffer s'"
proof -
  have C: "cache_ok (cpu_gen_code E) s A" using I by (simp add: idle_ok_def)
  obtain s' where s': "tb_flush s = Some s'" "cache_ok (cpu_gen_code E) s' empty_cache" "cpus s' = cpus s" "nb_tbs s' = 0"
    "tb_invalidated_flag s' = tb_invalidated_flag s" "current_tb s' = current_tb s"
    "code_gen_ptr s' = code_gen_buffer s'"
    by (rule flush_cache_ok [OF C])
  have "once_per_page empty_cache a" for a by (simp add: once_per_page_def empty_cache_def)
  then show thesis using that [OF s'(1)] s' I by (simp add: idle_ok_def)
qed

lemma do_flush_ok:
  assumes I: "idle_ok E s A" and E: "size_bounded (cpu_gen_code E)" "page_offset_kept (get_page_addr_code E)"
  shows "\<exists>s' A'. do_flush E type addr s = Some s' \<and> idle_ok E s' A' \<and> cpus s' = cpus s \<and> live A' \<subseteq> live A \<and>
    (type = ALL_CACHE \<longrightarrow> live A' = {})"
proof (cases type)
  case PAGE_LEVEL
  then show ?thesis using flush_page_ok [OF assms, of "cpus s" addr] by (auto simp: do_flush_def static_view_def)
next
  case BLOCK_LEVEL
  then show ?thesis using flush_block_ok [OF I, of "cpus s" addr] by (auto simp: do_flush_def static_view_def)
next
  case ALL_CACHE
  obtain s' where "tb_flush s = Some s'" "idle_ok E s' empty_cache" "cpus s' = cpus s" by (rule flush_all_ok [OF I])
  then show ?thesis using ALL_CACHE by (auto simp: do_flush_def)
qed

lemma do_flushes_ok:
  assumes "idle_ok E s A" and E: "size_bounded (cpu_gen_code E)" "page_offset_kept (get_page_addr_code E)"
  shows "\<exists>s' A'. do_flushes E l s = Some s' \<and> idle_ok E s' A' \<and> cpus s' = cpus s \<and> live A' \<subseteq> live A \<and>
    (ALL_CACHE \<in> fst ` set l \<longrightarrow> live A' = {})"
  using assms(1)
proof (induction l arbitrary: s A)
  case (Cons x l)
  obtain type addr where x: "x = (type, addr)" by (cases x)
  obtain s1 A1 where s1: "do_flush E type addr s = Some s1" "idle_ok E s1 A1" "cpus s1 = cpus s" "live A1 \<subseteq> live A"
    "type = ALL_CACHE \<longrightarrow> live A1 = {}"
    using do_flush_ok [OF Cons.prems E, of type addr] by blast
  obtain s' A' where s': "do_flushes E l s1 = Some s'" "idle_ok E s' A'" "cpus s' = cpus s1" "live A' \<subseteq> live A1"
    "ALL_CACHE \<in> fst ` set l \<longrightarrow> live A' = {}"
    using Cons.IH [OF s1(2)] by blast
  have "do_flushes E (x # l) s = Some s'" using s1(1) s'(1) by (simp add: x)
  moreover have "ALL_CACHE \<in> fst ` set (x # l) \<longrightarrow> live A' = {}" using s1(5) s'(4,5) by (auto simp: x)
  ultimately show ?case using s1(3,4) s'(2-4) by (intro exI [of _ s'] exI [of _ A']) simp
qed auto

end
