(* ===== verification/Cache_Correct.thy ===== *)
theory Cache_Correct
  imports Cache_Flush
begin

text \<open>
  The code cache as a whole: the binary search for a host address, changes of the address mapping,
  and runs of the cache from start-up.  Every step keeps the cache consistent and the jump cache
  current.
\<close>

declare split_paired_All [simp del] split_paired_Ex [simp del]

section \<open>From a host address to its block\<close>

lemma find_pc_loop_cases:
  assumes "m_min \<le> m_max" "m = (m_min + m_max) div 2"
  shows "tcs (nat m) = ptr \<Longrightarrow> tb_find_pc_loop tcs ptr m_min m_max = m"
    "ptr < tcs (nat m) \<Longrightarrow> tb_find_pc_loop tcs ptr m_min m_max = tb_find_pc_loop tcs ptr m_min (m - 1)"
    "tcs (nat m) < ptr \<Longrightarrow> tb_find_pc_loop tcs ptr m_min m_max = tb_find_pc_loop tcs ptr (m + 1) m_max"
  using assms by (subst tb_find_pc_loop.simps, auto simp: Let_def)+

text \<open>The binary search returns the last position whose code starts at or before the address.\<close>

definition split_at :: "(nat \<Rightarrow> u64) \<Rightarrow> u64 \<Rightarrow> int \<Rightarrow> int \<Rightarrow> bool" where
  "split_at tcs ptr n m \<longleftrightarrow> - 1 \<le> m \<and> m < n \<and> (\<forall>i. 0 \<le> i \<and> i \<le> m \<longrightarrow> tcs (nat i) \<le> ptr) \<and>
     (\<forall>i. m < i \<and> i < n \<longrightarrow> ptr < tcs (nat i))"

lemma find_pc_loop_spec:
  assumes srt: "\<forall>i j. 0 \<le> i \<and> i < j \<and> j < n \<longrightarrow> tcs (nat i) < tcs (nat j)"
  shows "0 \<le> m_min \<Longrightarrow> m_max < n \<Longrightarrow> m_min \<le> m_max + 1 \<Longrightarrow> \<forall>i. 0 \<le> i \<and> i < m_min \<longrightarrow> tcs (nat i) \<le> ptr \<Longrightarrow>
    \<forall>i. m_max < i \<and> i < n \<longrightarrow> ptr < tcs (nat i) \<Longrightarrow> split_at tcs ptr n (tb_find_pc_loop tcs ptr m_min m_max)"
proof (induction "nat (m_max - m_min + 1)" arbitrary: m_min m_max rule: less_induct)
  case less
  show ?case
  proof (cases "m_min \<le> m_max")
    case False
    then have "m_max = m_min - 1" using less.prems(3) by simp
    moreover have "tb_find_pc_loop tcs ptr m_min m_max = m_max" using False by (subst tb_find_pc_loop.simps) simp
    ultimately show ?thesis using less.prems unfolding split_at_def by simp
  next
    case True
    define m where "m = (m_min + m_max) div 2"
    have m: "m_min \<le> m" "m \<le> m_max" using True by (auto simp: m_def)
    note cs = find_pc_loop_cases [OF True m_def, where tcs = tcs and ptr = ptr]
    have le: "tcs (nat i) \<le> tcs (nat j)" if "0 \<le> i" "i \<le> j" "j < n" for i j
      using srt that by (cases "i = j") (auto intro: less_imp_le)
    have mn: "0 \<le> m" "m < n" using m less.prems(1,2) by simp_all
    consider "tcs (nat m) = ptr" | "ptr < tcs (nat m)" | "tcs (nat m) < ptr" by fastforce
    then show ?thesis
    proof cases
      case 1
      then have "\<forall>i. 0 \<le> i \<and> i \<le> m \<longrightarrow> tcs (nat i) \<le> ptr" "\<forall>i. m < i \<and> i < n \<longrightarrow> ptr < tcs (nat i)"
        using le mn srt by auto
      then show ?thesis using mn cs(1) [OF 1] by (simp add: split_at_def)
    next
      case 2
      have up: "\<forall>i. m - 1 < i \<and> i < n \<longrightarrow> ptr < tcs (nat i)"
      proof (intro allI impI)
        fix i assume "m - 1 < i \<and> i < n"
        then show "ptr < tcs (nat i)" using le [of m i] mn(1) 2 by simp
      qed
      show ?thesis unfolding cs(2) [OF 2]
        by (rule less.hyps) (use m less.prems(1,2,4) up in simp_all)
    next
      case 3
      have down: "\<forall>i. 0 \<le> i \<and> i < m + 1 \<longrightarrow> tcs (nat i) \<le> ptr"
      proof (intro allI impI)
        fix i assume "0 \<le> i \<and> i < m + 1"
        then show "tcs (nat i) \<le> ptr" using le [of i m] mn(2) 3 by simp
      qed
      show ?thesis unfolding cs(3) [OF 3]
        by (rule less.hyps) (use m mn less.prems(2,5) down in simp_all)
    qed
  qed
qed

lemma find_pc_ok:
  assumes B: "buffer_ok s" and n: "0 < nb_tbs s" and ptr: "tc_ptr s 0 \<le> ptr" "ptr < code_gen_ptr s"
  obtains t where "tb_find_pc ptr s = Some t" "t < nb_tbs s" "tc_ptr s t \<le> ptr"
    "\<forall>u<nb_tbs s. t < u \<longrightarrow> ptr < tc_ptr s u"
proof -
  define m where "m = tb_find_pc_loop (tc_ptr s) ptr 0 (int (nb_tbs s) - 1)"
  have srt: "\<forall>i j. 0 \<le> i \<and> i < j \<and> j < int (nb_tbs s) \<longrightarrow> tc_ptr s (nat i) < tc_ptr s (nat j)"
    using B unfolding buffer_ok_def by (auto simp: nat_less_iff)
  have "split_at (tc_ptr s) ptr (int (nb_tbs s)) m"
    unfolding m_def by (rule find_pc_loop_spec [OF srt]) auto
  then have m: "- 1 \<le> m" "m < int (nb_tbs s)" "\<forall>i. 0 \<le> i \<and> i \<le> m \<longrightarrow> tc_ptr s (nat i) \<le> ptr"
    "\<forall>i. m < i \<and> i < int (nb_tbs s) \<longrightarrow> ptr < tc_ptr s (nat i)"
    by (simp_all add: split_at_def)
  have m0: "0 \<le> m"
  proof (rule ccontr)
    assume "\<not> 0 \<le> m"
    then have "ptr < tc_ptr s 0" using m(4) n by (auto dest: spec [of _ 0])
    then show False using ptr(1) by simp
  qed
  have "code_gen_buffer s \<le> tc_ptr s 0" using B n by (simp add: buffer_ok_def)
  then have "code_gen_buffer s \<le> ptr" using ptr(1) by (rule order_trans)
  then have "tb_find_pc ptr s = Some (nat m)" using n ptr(2) by (simp add: tb_find_pc_def m_def not_less not_le)
  moreover have "ptr < tc_ptr s u" if "u < nb_tbs s" "nat m < u" for u
    using m(4) [rule_format, of "int u"] that m0 by simp
  ultimately show thesis using that [of "nat m"] m m0 by (auto simp: nat_less_iff)
qed

section \<open>Changing the mapping of a page\<close>

text \<open>The entries of the blocks of a page are the 64 that start at \<open>tb_jmp_cache_hash_page\<close>.\<close>

lemma bit_fc0: "bit (0xfc0 :: u32) n \<Longrightarrow> 6 \<le> n"
proof -
  have "(0xfc0 :: u32) = push_bit 6 0x3f" by (simp add: push_bit_eq_mult)
  then show "bit (0xfc0 :: u32) n \<Longrightarrow> 6 \<le> n" by (simp only: bit_push_bit_iff)
qed

lemma hash_page_cong:
  fixes a b :: u32
  assumes "a AND NOT (mask 12) = b AND NOT (mask 12)"
  shows "tb_jmp_cache_hash_page a = tb_jmp_cache_hash_page b"
proof -
  have bits: "bit a n = bit b n" if "12 \<le> n" for n
    using that arg_cong [OF assms, of "\<lambda>w. bit w n"] by (auto simp: bit_simps dest: bit_imp_le_length)
  have "drop_bit 6 (a XOR drop_bit 6 a) AND 0xfc0 = drop_bit 6 (b XOR drop_bit 6 b) AND (0xfc0 :: u32)"
  proof (rule bit_word_eqI)
    fix n assume "n < LENGTH(32)"
    show "bit (drop_bit 6 (a XOR drop_bit 6 a) AND 0xfc0) n = bit (drop_bit 6 (b XOR drop_bit 6 b) AND (0xfc0 :: u32)) n"
      using bit_fc0 [of n] bits [of "6 + n"] bits [of "12 + n"] by (auto simp: bit_and_iff bit_xor_iff bit_drop_bit_eq add.assoc)
  qed
  then show ?thesis by (simp add: tb_jmp_cache_hash_page_def Let_def)
qed

lemma hash_func_page:
  "tb_jmp_cache_hash_page pc \<le> tb_jmp_cache_hash_func pc \<and> tb_jmp_cache_hash_func pc < tb_jmp_cache_hash_page pc + 64"
proof -
  let ?t = "pc XOR drop_bit 6 pc"
  let ?h = "drop_bit 6 ?t AND 0xfc0" and ?l = "?t AND mask 6"
  have "(0x3f :: u32) = mask 6" by (simp add: mask_eq_exp_minus_1)
  moreover have "?h OR ?l = ?h + ?l"
  proof (rule disjunctive_add [symmetric])
    fix n show "\<not> bit ?h n \<or> \<not> bit ?l n" using bit_fc0 [of n] by (auto simp: bit_and_iff bit_mask_iff)
  qed
  moreover have l: "unat ?l < 64" by (simp add: unat_and_mask)
  moreover have "unat ?h \<le> unat (0xfc0 :: u32)" unfolding word_le_nat_alt [symmetric] by (rule word_and_le1)
  then have "unat (?h + ?l) = unat ?h + unat ?l" using l by (simp add: unat_word_ariths)
  ultimately show ?thesis by (simp add: tb_jmp_cache_hash_page_def tb_jmp_cache_hash_func_def Let_def)
qed

definition same_but :: "u32 \<Rightarrow> (u32 \<Rightarrow> u64) \<Rightarrow> (u32 \<Rightarrow> u64) \<Rightarrow> bool" where
  "same_but page phys phys' \<longleftrightarrow> (\<forall>a. a AND NOT (mask 12) \<noteq> page AND NOT (mask 12) \<longrightarrow> phys' a = phys a)"

lemma flush_jmp_cache_entry:
  assumes "tb_jmp_cache (tlb_flush_jmp_cache env addr s) env h = Some t"
  shows "tb_jmp_cache s env h = Some t"
    "\<not> (tb_jmp_cache_hash_page addr \<le> h \<and> h < tb_jmp_cache_hash_page addr + 64)"
    "\<not> (tb_jmp_cache_hash_page (addr - 0x1000) \<le> h \<and> h < tb_jmp_cache_hash_page (addr - 0x1000) + 64)"
  using assms by (auto simp: tlb_flush_jmp_cache_def Let_def split: if_splits)

lemma flush_jmp_cache_views:
  "hash_view (tlb_flush_jmp_cache env addr s) = hash_view s" "page_view (tlb_flush_jmp_cache env addr s) = page_view s"
  "jmp_view (tlb_flush_jmp_cache env addr s) = jmp_view s" "static_view (tlb_flush_jmp_cache env addr s) = static_view s"
  "current_tb (tlb_flush_jmp_cache env addr s) = current_tb s"
  "tb_jmp_cache (tlb_flush_jmp_cache env addr s) c = (if c = env then tb_jmp_cache (tlb_flush_jmp_cache env addr s) env else tb_jmp_cache s c)"
  by (simp_all add: tlb_flush_jmp_cache_def Let_def all_views)

lemma flush_jmp_cache_refines:
  assumes "refines s A"
  shows "refines (tlb_flush_jmp_cache env addr s) A"
proof -
  let ?s = "tlb_flush_jmp_cache env addr s"
  note v = flush_jmp_cache_views [of env addr s]
  have "tb_jmp_cache s c h = Some t" if "tb_jmp_cache ?s c h = Some t" for c h t
    using that v(6) [of c] flush_jmp_cache_entry(1) [of env addr s h t] by (cases "c = env") auto
  then have "jcache_ok ?s A"
    using refinesD(6) [OF assms] unfolding jcache_ok_def static_fields [OF v(4)] by blast
  then show ?thesis
    using assms unfolding refines_def fits_pages_def ok_cong(1) [OF v(1,4)] ok_cong(2) [OF v(2,4)] ok_cong(3) [OF v(3,4)] static_fields [OF v(4)]
    by blast
qed

lemma page_plus: "((a AND NOT (mask 12)) + 0x1000) AND NOT (mask 12) = (a AND NOT (mask 12)) + (0x1000 :: u32)"
proof -
  let ?q = "a AND NOT (mask 12)"
  have "unat ?q mod 4096 = 0" using unat_and_mask [of ?q 12] by (simp add: and.assoc)
  then have "(unat ?q + 4096) mod 4294967296 mod 4096 = 0" by (subst mod_mod_cancel) simp_all
  then have "(?q + 0x1000) AND mask 12 = 0" by (simp add: word_unat_eq_iff unat_and_mask unat_word_ariths)
  then show ?thesis using page_split [of "?q + 0x1000" 12] by simp
qed

lemma page_minus:
  assumes "(a AND NOT (mask 12)) + 0x1000 = addr AND NOT (mask 12)"
  shows "a AND NOT (mask 12) = (addr - (0x1000 :: u32)) AND NOT (mask 12)"
proof -
  have "addr - 0x1000 = (a AND NOT (mask 12)) + (addr AND mask 12)"
    using assms page_split [of addr 12] by (simp add: algebra_simps)
  then show ?thesis
    using page_of_sum [of "a AND NOT (mask 12)" 12 "addr AND mask 12"] by (simp add: and.assoc)
qed

lemma entries_current_flush:
  assumes R: "refines s A" and env: "env \<in> set (cpus s)" and cur: "entries_current phys env s" and p: "same_but addr phys phys'"
  shows "entries_current phys' env (tlb_flush_jmp_cache env addr s)"
  unfolding entries_current_def
proof (intro allI impI)
  let ?s = "tlb_flush_jmp_cache env addr s"
  fix h t assume h: "tb_jmp_cache ?s env h = Some t"
  note e = flush_jmp_cache_entry [OF h] and sf = static_fields [OF flush_jmp_cache_views(4)]
  let ?q = "tb_pc s t AND NOT (mask 12)"
  have hf: "h = tb_jmp_cache_hash_func (tb_pc s t)" using refinesD(6) [OF R] env e(1) by (auto simp: jcache_ok_def)
  have n1: "?q \<noteq> addr AND NOT (mask 12)"
    using e(2) hash_func_page [of "tb_pc s t"] hash_page_cong [of "tb_pc s t" addr] hf by auto
  have "?q \<noteq> (addr - 0x1000) AND NOT (mask 12)"
    using e(3) hash_func_page [of "tb_pc s t"] hash_page_cong [of "tb_pc s t" "addr - 0x1000"] hf by auto
  then have n2: "(?q + 0x1000) AND NOT (mask 12) \<noteq> addr AND NOT (mask 12)" using page_minus page_plus by metis
  have "maps_to phys s t" using cur e(1) by (auto simp: entries_current_def)
  then show "maps_to phys' ?s t"
    using p n1 n2 unfolding maps_to_def tb_matches_def same_but_def sf by auto
qed

section \<open>Runs\<close>

text \<open>
  The cache after start-up: the arrays are zero, the buffer is the one that \<open>code_gen_alloc\<close> got.
\<close>

definition cache_init :: "u64 \<Rightarrow> u64 \<Rightarrow> u64 \<Rightarrow> nat \<Rightarrow> nat list \<Rightarrow> tbstate" where
  "cache_init buffer sz max_sz max_blocks envs =
     \<lparr>tb_pc = (\<lambda>_. 0), tb_cs_base = (\<lambda>_. 0), tb_flags = (\<lambda>_. 0), tb_size = (\<lambda>_. 0), tb_cflags = (\<lambda>_. 0),
      tc_ptr = (\<lambda>_. 0), phys_hash_next = (\<lambda>_. None), page_next = (\<lambda>_. None), page_addr = (\<lambda>_. 0),
      tb_next_offset = (\<lambda>_. 0), jmp_next = (\<lambda>_. None), jmp_first = (\<lambda>_. None), jmp_target = (\<lambda>_. 0),
      tb_phys_hash = (\<lambda>_. None), l1_map = (\<lambda>_. None), nb_tbs = 0, code_gen_max_blocks = max_blocks,
      code_gen_buffer = buffer, code_gen_buffer_size = sz, code_gen_buffer_max_size = max_sz, code_gen_ptr = buffer,
      cpus = envs, tb_jmp_cache = (\<lambda>_ _. None), current_tb = (\<lambda>_. None), interrupt_request = (\<lambda>_. False),
      tb_invalidated_flag = False, tb_flush_count = 0, tb_phys_invalidate_count = 0, tlb_events = []\<rparr>"

text \<open>
  What happens to the cache: lookups, patching of the exit of one block to another, invalidation of a
  block of the hash table, flushes, changes of the mapping of a page, interruption of a chain.
\<close>

inductive cache_step :: "(nat \<Rightarrow> tbstate \<Rightarrow> gen_result) \<Rightarrow> nat \<Rightarrow> (u32 \<Rightarrow> u64) \<times> tbstate \<Rightarrow> (u32 \<Rightarrow> u64) \<times> tbstate \<Rightarrow> bool"
  for gen env where
  lookup: "tb_find_fast phys gen env pc base flags s = Some (t, s') \<Longrightarrow> cache_step gen env (phys, s) (phys, s')"
| patch: "t < nb_tbs s \<Longrightarrow> n < 2 \<Longrightarrow> T < nb_tbs s \<Longrightarrow> cache_step gen env (phys, s) (phys, tb_add_jump t n T s)"
| invalidate: "tb_find_loop (\<lambda>u. u = t) (Bucket h) s = Some (l, Some t) \<Longrightarrow> tb_phys_invalidate t no_page s = Some s' \<Longrightarrow>
    cache_step gen env (phys, s) (phys, s')"
| flush: "tb_flush s = Some s' \<Longrightarrow> cache_step gen env (phys, s) (phys, s')"
| remap: "same_but addr phys phys' \<Longrightarrow> page_offset_kept phys' \<Longrightarrow>
    cache_step gen env (phys, s) (phys', tlb_flush_jmp_cache env addr s)"
| unlink: "t < nb_tbs s \<Longrightarrow> tb_reset_jump_recursive t s = Some s' \<Longrightarrow> cache_step gen env (phys, s) (phys, s')"

inductive_cases cache_stepE: "cache_step gen env x y"

definition cache_inv :: "(nat \<Rightarrow> tbstate \<Rightarrow> gen_result) \<Rightarrow> nat \<Rightarrow> (u32 \<Rightarrow> u64) \<times> tbstate \<Rightarrow> bool" where
  "cache_inv gen env = (\<lambda>(phys, s). (\<exists>A. cache_ok gen s A) \<and> page_offset_kept phys \<and> env \<in> set (cpus s) \<and>
     entries_current phys env s)"

lemma entries_static:
  assumes "static_view s' = static_view s" "\<forall>c h u. tb_jmp_cache s' c h = Some u \<longrightarrow> tb_jmp_cache s c h = Some u"
    "entries_current phys env s"
  shows "entries_current phys env s'"
  using assms(2,3) maps_to_id [of s' _ s phys] static_ok(3) [OF assms(1)] unfolding entries_current_def by metis

lemma cache_inv_static:
  assumes "cache_inv gen env (phys, s)" "refines s' A" "static_view s' = static_view s"
    "\<forall>c h u. tb_jmp_cache s' c h = Some u \<longrightarrow> tb_jmp_cache s c h = Some u"
  shows "cache_inv gen env (phys, s')"
proof -
  have "entries_current phys env s'" using entries_static [OF assms(3,4)] assms(1) by (simp add: cache_inv_def)
  moreover have "cache_ok gen s' A" using assms(1,2) static_ok(1,2) [OF assms(3)] by (auto simp: cache_inv_def cache_ok_def)
  ultimately show ?thesis using assms(1) static_fields(6) [OF assms(3)] by (auto simp: cache_inv_def)
qed

text \<open>What a search of a bucket finds is in the cache.\<close>

lemma found_in_cache:
  assumes R: "refines s A" and f: "tb_find_loop m (Bucket h) s = Some (l, Some t)"
  shows "t \<in> live A"
proof -
  have p: "path (get_hash s) Next (Bucket h) (buckets A h) None"
    using refinesD(3) [OF R] by (simp add: hash_ok_def lists_at_def)
  show ?thesis
  proof (cases "\<exists>u\<in>set (buckets A h). m u")
    case True
    then obtain xs u ys where b: "buckets A h = xs @ u # ys" "\<forall>v\<in>set xs. \<not> m v" "m u"
      using split_list_first_prop [OF True] by blast
    have "tb_find_loop m (Bucket h) s = Some (last_loc Next (Bucket h) xs, Some u)"
      by (rule find_loop_found [of s _ xs u ys None]) (use p b in simp_all)
    then show ?thesis using f liveI [of u A h] by (simp add: b(1))
  next
    case False
    then show ?thesis using find_loop_absent [OF p, of m] f by auto
  qed
qed

lemma init_refines: "refines (cache_init buffer sz max_sz max_blocks envs) empty_cache"
  by (simp add: refines_def fits_pages_def hash_ok_def page_ok_def jmp_ok_def jcache_ok_def jmp_lists_def circular_def lists_at_def
      cache_init_def empty_cache_def get_hash_def get_page_def get_pd_def zero_page_desc_def live_def)

lemma cache_step_inv:
  assumes "cache_step gen env x y" "cache_inv gen env x" "size_bounded gen"
  shows "cache_inv gen env y"
  using assms
proof (induction rule: cache_step.induct)
  case (lookup phys pc base flags s t s')
  obtain A where A: "cache_ok gen s A" "page_offset_kept phys" "env \<in> set (cpus s)" "entries_current phys env s"
    using lookup by (auto simp: cache_inv_def)
  obtain t' s2 A' where "tb_find_fast phys gen env pc base flags s = Some (t', s2)" "cache_ok gen s2 A'"
    "tb_matches phys pc base flags s2 t'" "t' \<in> live A'" "entries_current phys env s2" "cpus s2 = cpus s"
    by (rule find_fast_ok [OF A(1) lookup(3) A(2-4)])
  then show ?case using lookup(1) A by (auto simp: cache_inv_def)
next
  case (patch t s n T phys)
  obtain A where A: "refines s A" using patch by (auto simp: cache_inv_def cache_ok_def)
  note r = add_jump_refines [OF A patch(1-3)]
  have "tb_jmp_cache (tb_add_jump t n T s) = tb_jmp_cache s"
    by (simp add: tb_add_jump_def tb_set_jmp_target_def Let_def)
  then show ?case using cache_inv_static [OF patch(4) r] by simp
next
  case (invalidate t h s l s' phys)
  obtain A where A: "refines s A" using invalidate by (auto simp: cache_inv_def cache_ok_def)
  obtain s2 where s2: "tb_phys_invalidate t no_page s = Some s2" "refines s2 (kill t A)"
    "static_view s2 = static_view s" "other_view s2 = other_view s" "tb_invalidated_flag s2"
    "\<forall>x. jmp_target s2 x = (if x \<in> set (others t (jumpers A t)) then stub s x else jmp_target s x)"
    "\<forall>c h u. tb_jmp_cache s2 c h = Some u \<longrightarrow> tb_jmp_cache s c h = Some u"
    by (rule invalidate_refines [OF A found_in_cache [OF A invalidate(1)]])
  have "s' = s2" using invalidate(2) s2(1) by simp
  then show ?case using cache_inv_static [OF invalidate(3) s2(2,3,7)] by simp
next
  case (flush s s' phys)
  obtain A where A: "cache_ok gen s A" "page_offset_kept phys" "env \<in> set (cpus s)"
    using flush by (auto simp: cache_inv_def)
  obtain s2 where s2: "tb_flush s = Some s2" "cache_ok gen s2 empty_cache" "cpus s2 = cpus s"
    by (rule flush_cache_ok [OF A(1)])
  have "jcache_ok s2 empty_cache" using s2(2) refinesD(6) by (simp add: cache_ok_def)
  then have "entries_current phys env s2" using A(3) s2(3) by (auto simp: entries_current_def jcache_ok_def)
  then show ?case using flush(1) s2 A by (auto simp: cache_inv_def)
next
  case (remap addr phys phys' s)
  let ?s = "tlb_flush_jmp_cache env addr s"
  obtain A where A: "cache_ok gen s A" "env \<in> set (cpus s)" "entries_current phys env s"
    using remap by (auto simp: cache_inv_def)
  have R: "refines s A" using A(1) by (simp add: cache_ok_def)
  note sv = flush_jmp_cache_views(4) [of env addr s]
  have "cache_ok gen ?s A"
    using A(1) flush_jmp_cache_refines [OF R] static_ok(1,2) [OF sv] by (simp add: cache_ok_def)
  moreover have "entries_current phys' env ?s" by (rule entries_current_flush [OF R A(2,3) remap(1)])
  ultimately show ?case using remap(2) A(2) static_fields(6) [OF sv] by (auto simp: cache_inv_def)
next
  case (unlink t s s' phys)
  obtain A where A: "refines s A" "buffer_ok s" using unlink by (auto simp: cache_inv_def cache_ok_def)
  obtain s2 A2 where "tb_reset_jump_recursive t s = Some s2" "unchains s A s2 A2"
    by (rule recursive_ok [OF A unlink(1)])
  then have "refines s' A2" "static_view s' = static_view s" "tb_jmp_cache s' = tb_jmp_cache s"
    using unlink(2) by (simp_all add: unchains_def)
  then show ?case using cache_inv_static [OF unlink(3)] by simp
qed

lemma run_inv:
  "(cache_step gen env)\<^sup>*\<^sup>* x y \<Longrightarrow> cache_inv gen env x \<Longrightarrow> size_bounded gen \<Longrightarrow> cache_inv gen env y"
  by (induction rule: rtranclp_induct) (auto intro: cache_step_inv)

lemma init_inv:
  assumes "code_fits gen (cache_init buffer sz max_sz max_blocks [env])" "page_offset_kept phys"
    "0 < max_blocks" "0 < max_sz" "max_sz \<le> sz" "buffer \<le> buffer + sz"
  shows "cache_inv gen env (phys, cache_init buffer sz max_sz max_blocks [env])"
proof -
  let ?s = "cache_init buffer sz max_sz max_blocks [env]"
  have "buffer_ok ?s" using assms(3-6) by (simp add: buffer_ok_def cache_init_def)
  then have "cache_ok gen ?s empty_cache" using assms(1) init_refines by (simp add: cache_ok_def)
  moreover have "entries_current phys env ?s" "env \<in> set (cpus ?s)" by (simp_all add: entries_current_def cache_init_def)
  ultimately show ?thesis using assms(2) by (auto simp: cache_inv_def)
qed

end
