(* ===== verification/Code_Bytes.thy ===== *)
theory Code_Bytes
  imports Code_Pages
begin

text \<open>
  What the bitmaps and ranges of Code_Pages mean: the bytes of guest code that a block was translated
  from, without reference to how exec.c computes them.
\<close>

declare split_paired_All [simp del] split_paired_Ex [simp del]

section \<open>The bytes of a block\<close>

text \<open>Byte \<open>i\<close> of a block lies \<open>i\<close> bytes after its start; the first page ends after 4096 bytes.\<close>

definition covers_byte :: "tbstate \<Rightarrow> tptr \<Rightarrow> nat \<Rightarrow> bool" where
  "covers_byte s = (\<lambda>(t, n) k. k < 4096 \<and> (\<exists>i<unat (tb_size s t). unat (tb_pc s t AND mask 12) + i = n * 4096 + k))"

definition bitmap_ok :: "tbstate \<Rightarrow> acache \<Rightarrow> pd_ptr \<Rightarrow> bool" where
  "bitmap_ok s A p \<longleftrightarrow> (\<forall>tab. code_bitmap (get_pd s p) = Some tab \<longrightarrow>
     (\<forall>x\<in>set (plists A p). \<forall>k. covers_byte s x k \<longrightarrow> tab_bit tab k))"

definition untouched :: "tbstate \<Rightarrow> acache \<Rightarrow> u64 \<Rightarrow> nat \<Rightarrow> nat \<Rightarrow> bool" where
  "untouched s A start len t \<longleftrightarrow> (\<forall>n k. (t, n) \<in> set (plists A (pkey start)) \<longrightarrow>
     unat (start AND mask 12) \<le> k \<longrightarrow> k < unat (start AND mask 12) + len \<longrightarrow> \<not> covers_byte s (t, n) k)"

definition hit_blocks :: "tbstate \<Rightarrow> acache \<Rightarrow> u64 \<Rightarrow> u64 \<Rightarrow> nat set" where
  "hit_blocks s A start stop = {t. \<exists>n k. (t, n) \<in> set (plists A (pkey start)) \<and> covers_byte s (t, n) k \<and>
     unat start \<le> unat (page_addr s (t, n)) + k \<and> unat (page_addr s (t, n)) + k < unat stop}"

text \<open>A part of a block that is on a list of the cache.\<close>

lemma on_list:
  assumes R: "refines s A" and x: "(t, n) \<in> set (plists A p)"
  shows "t \<in> live A" "n = 0 \<or> n = 1 \<and> page_addr s (t, 1) \<noteq> no_page" "0 < unat (tb_size s t)" "unat (tb_size s t) \<le> 4096"
    "n = 1 \<Longrightarrow> 4096 < unat (tb_pc s t AND mask 12) + unat (tb_size s t)"
proof -
  show l: "t \<in> live A" and n: "n = 0 \<or> n = 1 \<and> page_addr s (t, 1) \<noteq> no_page"
    using refinesD(4) [OF R] x by (auto simp: page_ok_def on_page_def)
  then have f: "fits_pages s t" using refinesD(7) [OF R] by blast
  then show "0 < unat (tb_size s t)" "unat (tb_size s t) \<le> 4096"
    by (simp_all add: fits_pages_def word_less_nat_alt word_le_nat_alt)
  show "4096 < unat (tb_pc s t AND mask 12) + unat (tb_size s t)" if "n = 1"
    using f n that by (simp add: fits_pages_def)
qed

lemma second_part:
  fixes pc :: u32 and z :: u16
  assumes "4096 < unat (pc AND mask 12) + unat z" "unat z \<le> 4096"
  shows "unat ((pc + ucast z) AND mask 12) = unat (pc AND mask 12) + unat z - 4096"
proof -
  have m: "unat (v AND mask 12) = unat v mod 4096" for v :: u32 by (simp add: unat_and_mask)
  have "unat (pc + ucast z) mod 4096 = (unat pc + unat z) mod 4096"
    by (simp add: unat_word_ariths unat_size mod_mod_cancel)
  also have "\<dots> = (unat pc mod 4096 + unat z) mod 4096" by (simp add: mod_add_left_eq)
  also have "\<dots> = unat pc mod 4096 + unat z - 4096"
  proof -
    have "unat pc mod 4096 + unat z - 4096 < 4096" using assms(2) by simp
    then have "(unat pc mod 4096 + unat z - 4096) mod 4096 = unat pc mod 4096 + unat z - 4096" by (rule mod_less)
    then show ?thesis using assms(1) by (simp add: m le_mod_geq)
  qed
  finally show ?thesis by (simp add: m)
qed

lemma marks_covers:
  assumes R: "refines s A" and x: "x \<in> set (plists A p)"
  shows "marks_byte s x k \<longleftrightarrow> covers_byte s x k"
proof -
  obtain t n where tn: "x = (t, n)" by (cases x)
  note o = on_list [OF R x [unfolded tn]]
  let ?a = "unat (tb_pc s t AND mask 12)" and ?z = "unat (tb_size s t)"
  have a: "?a < 4096" by (simp add: unat_and_mask)
  show ?thesis
  proof (cases "n = 0")
    case True
    have "(\<exists>i<?z. ?a + i = k) \<longleftrightarrow> ?a \<le> k \<and> k < ?a + ?z" by presburger
    then show ?thesis by (auto simp: tn True marks_byte_def covers_byte_def page_bytes_def Let_def)
  next
    case False
    then have n: "n = 1" using o(2) by simp
    have "(\<exists>i<?z. ?a + i = 4096 + k) \<longleftrightarrow> k < ?a + ?z - 4096" using a o(5) [OF n] by presburger
    then show ?thesis using second_part [OF o(5) [OF n] o(4)] a o(4)
      by (auto simp: tn n marks_byte_def covers_byte_def page_bytes_def)
  qed
qed

lemma marks_ok_iff: "refines s A \<Longrightarrow> marks_ok s A p \<longleftrightarrow> bitmap_ok s A p"
  by (simp add: marks_ok_def bitmap_ok_def marks_covers)

lemma unmarked_iff: "refines s A \<Longrightarrow> unmarked s A start len t \<longleftrightarrow> untouched s A start len t"
  unfolding unmarked_def untouched_def using marks_covers by blast

section \<open>The blocks of a range\<close>

lemma page_base:
  fixes start :: u64
  shows "unat start = unat (start AND NOT (mask 12)) + unat (start AND mask 12)"
proof -
  have le: "start AND NOT (mask 12) \<le> start" by (simp add: word_and_le2)
  then have "unat (start - (start AND NOT (mask 12))) = unat start - unat (start AND NOT (mask 12))" by (rule unat_sub)
  moreover have "start - (start AND NOT (mask 12)) = start AND mask 12"
    using page_split [of start 12] by (simp add: algebra_simps)
  moreover have "unat (start AND NOT (mask 12)) \<le> unat start" using le by (simp add: word_le_nat_alt)
  ultimately show ?thesis by simp
qed

lemma part_bounds:
  assumes R: "refines s A" and x: "(t, n) \<in> set (plists A p)" and b: "unat (page_addr s (t, n)) < 2 ^ 36"
  defines "a \<equiv> unat (tb_pc s t AND mask 12)" and "z \<equiv> unat (tb_size s t)" and "P \<equiv> unat (page_addr s (t, n))"
  shows "unat (fst (tb_part s (t, n))) = (if n = 0 then P + a else P)"
    "unat (snd (tb_part s (t, n))) = (if n = 0 then P + a + z else P + (a + z - 4096))"
proof -
  note o = on_list [OF R x]
  have a: "a < 4096" by (simp add: a_def unat_and_mask)
  have "unat (page_addr s (t, 0) + ucast (tb_pc s t AND mask 12)) = P + a"
    "unat (page_addr s (t, 0) + ucast (tb_pc s t AND mask 12) + ucast (tb_size s t)) = P + a + z" if "n = 0"
    using b a o(4) that by (simp_all add: unat_word_ariths unat_ucast_u64 a_def z_def P_def)
  moreover have "unat (page_addr s (t, 1) + ucast ((tb_pc s t + ucast (tb_size s t)) AND mask 12)) = P + (a + z - 4096)" if "n = 1"
    using b a o(4) second_part [OF o(5) [OF that] o(4)] that
    by (simp add: unat_word_ariths unat_ucast_u64 a_def z_def P_def)
  ultimately show "unat (fst (tb_part s (t, n))) = (if n = 0 then P + a else P)"
    "unat (snd (tb_part s (t, n))) = (if n = 0 then P + a + z else P + (a + z - 4096))"
    using o(2) by (auto simp: tb_part_def Let_def P_def)
qed

lemma range_covers:
  assumes R: "refines s A" and x: "(t, n) \<in> set (plists A (pkey start))" and sp: "same_page s A start"
    and range: "unat start < unat stop" "unat stop \<le> unat (start AND NOT (mask 12)) + 4096"
  shows "in_range s start stop (t, n) \<longleftrightarrow> (\<exists>k. covers_byte s (t, n) k \<and>
    unat start \<le> unat (page_addr s (t, n)) + k \<and> unat (page_addr s (t, n)) + k < unat stop)"
proof -
  define P a z where "P = unat (page_addr s (t, n))" and "a = unat (tb_pc s t AND mask 12)" and "z = unat (tb_size s t)"
  note o = on_list [OF R x, folded a_def z_def]
  have pg: "page_addr s (t, n) = start AND NOT (mask 12)" "unat start < 2 ^ 36" using sp x unfolding same_page_def by blast+
  have P: "P \<le> unat start" "unat stop \<le> P + 4096" using page_base [of start] range(2) by (simp_all add: P_def pg(1))
  have "unat (page_addr s (t, n)) < 2 ^ 36" using P(1) pg(2) by (simp add: P_def)
  note b = part_bounds [OF R x this, folded P_def a_def z_def]
  have a: "a < 4096" by (simp add: a_def unat_and_mask)
  have i: "in_range s start stop (t, n) \<longleftrightarrow> unat start < unat (snd (tb_part s (t, n))) \<and> unat (fst (tb_part s (t, n))) < unat stop"
    by (simp add: in_range_def case_prod_beta word_le_nat_alt not_le)
  have c: "covers_byte s (t, n) k \<longleftrightarrow> k < 4096 \<and> a \<le> n * 4096 + k \<and> n * 4096 + k < a + z" for k
    unfolding covers_byte_def prod.case a_def [symmetric] z_def [symmetric] by presburger
  define S T where "S = unat start" and "T = unat stop"
  note defs = P_def [symmetric] S_def [symmetric] T_def [symmetric]
  have r: "P \<le> S" "S < T" "T \<le> P + 4096" using P range by (simp_all add: S_def T_def)
  have "(S < P + a + z \<and> P + a < T) = (\<exists>k. (k < 4096 \<and> a \<le> 0 * 4096 + k \<and> 0 * 4096 + k < a + z) \<and> S \<le> P + k \<and> P + k < T)"
    using r o(3) by presburger
  moreover have "(S < P + (a + z - 4096) \<and> P < T) =
      (\<exists>k. (k < 4096 \<and> a \<le> 1 * 4096 + k \<and> 1 * 4096 + k < a + z) \<and> S \<le> P + k \<and> P + k < T)" if "n = 1"
    using r a o(4) o(5) [OF that] by presburger
  ultimately show ?thesis using o(2) unfolding i b defs c by (cases "n = 0") auto
qed

lemma range_blocks_hit:
  assumes R: "refines s A" and sp: "same_page s A start"
    and range: "unat start < unat stop" "unat stop \<le> unat (start AND NOT (mask 12)) + 4096"
  shows "range_blocks s A start stop = hit_blocks s A start stop"
proof -
  have r: "(t, n) \<in> set (plists A (pkey start)) \<and> in_range s start stop (t, n) \<longleftrightarrow> (t, n) \<in> set (plists A (pkey start)) \<and>
      (\<exists>k. covers_byte s (t, n) k \<and> unat start \<le> unat (page_addr s (t, n)) + k \<and> unat (page_addr s (t, n)) + k < unat stop)"
    for t n using range_covers [OF R _ sp range] by blast
  show ?thesis unfolding range_blocks_def hit_blocks_def
  proof (rule set_eqI)
    fix t
    have "t \<in> fst ` {x \<in> set (plists A (pkey start)). in_range s start stop x} \<longleftrightarrow>
        (\<exists>n. (t, n) \<in> set (plists A (pkey start)) \<and> in_range s start stop (t, n))" by force
    then show "t \<in> fst ` {x \<in> set (plists A (pkey start)). in_range s start stop x} \<longleftrightarrow>
        t \<in> {t. \<exists>n k. (t, n) \<in> set (plists A (pkey start)) \<and> covers_byte s (t, n) k \<and>
          unat start \<le> unat (page_addr s (t, n)) + k \<and> unat (page_addr s (t, n)) + k < unat stop}"
      unfolding r by blast
  qed
qed

section \<open>Writes to code\<close>

lemma bytes_built:
  assumes R: "refines s A" and p: "page_present s p"
  obtains tab where "build_page_bitmap p s = Some (upd_pd p (\<lambda>d. d\<lparr>code_bitmap := Some tab\<rparr>) s)"
    "\<forall>k. tab_bit tab k \<longleftrightarrow> (\<exists>x\<in>set (plists A p). covers_byte s x k)"
proof -
  obtain tab where t: "build_page_bitmap p s = Some (upd_pd p (\<lambda>d. d\<lparr>code_bitmap := Some tab\<rparr>) s)"
    "\<forall>k. tab_bit tab k \<longleftrightarrow> (\<exists>x\<in>set (plists A p). fst (page_bytes s x) \<le> k \<and> k < snd (page_bytes s x))"
    by (rule build_page_bitmap_spec [OF refinesD(4) [OF R] p])
  then show thesis using that marks_covers [OF R] unfolding marks_byte_def by blast
qed

lemma write_ok:
  assumes C: "cache_ok gen s A" and gen: "size_bounded gen" "page_offset_kept phys"
    and r: "running_ok s" and env: "env \<noteq> None" and o: "once_per_page A start"
    and b: "bitmap_ok s A (pkey start)" "same_page s A start" and len: "unat (start AND mask 12) mod 8 + len \<le> 8"
  obtains s' A' resumed t where
    "tb_invalidate_phys_page_fast phys gen env mem_io_pc restored start len s = Some (s', resumed)"
    "cache_ok gen s' A'" "\<forall>u\<in>live A'. u \<in> live A \<and> untouched s A start len u \<or> resumed \<and> u = t"
proof -
  have R: "refines s A" using C by (simp add: cache_ok_def)
  note m = marks_ok_iff [OF R, THEN iffD2, OF b(1)]
  show thesis
    by (rule fast_ok [OF C gen r env o m b(2) len], unfold unmarked_iff [OF R]) (rule that; assumption)
qed

end
