(* ===== verification/Cache_Properties.thy ===== *)
theory Cache_Properties
  imports Cache_Correct Code_Bytes
begin

text \<open>
  The properties of the code cache, each with an instance on a cache that holds a block.
\<close>

declare split_paired_All [simp del] split_paired_Ex [simp del]

section \<open>An example\<close>

text \<open>A translator that emits 32 bytes for blocks of four, an identity mapping, a buffer of 64 kB.\<close>

definition tiny_gen :: "nat \<Rightarrow> tbstate \<Rightarrow> gen_result" where
  "tiny_gen tb s = \<lparr>gen_code_size = 32, gen_tb_size = 4, gen_next_offset = (\<lambda>_. 16)\<rparr>"

definition example_phys :: "u32 \<Rightarrow> u64" where
  "example_phys a = ucast a"

definition example_init :: tbstate where
  "example_init = cache_init 0x10000 0x10000 0x8000 16 [0]"

definition example_cache :: tbstate where
  "example_cache = snd (the (tb_find_fast example_phys tiny_gen 0 0x1010 0 0 example_init))"

lemma example_ok:
  "size_bounded tiny_gen" "page_offset_kept example_phys" "code_fits tiny_gen (cache_init b 0x10000 0x8000 m l)"
proof -
  show "size_bounded tiny_gen" by (simp add: size_bounded_def tiny_gen_def)
  have "ucast a AND mask 12 = (ucast (a AND mask 12) :: u64)" for a :: u32
    by (simp add: word_unat_eq_iff unat_and_mask unat_ucast_u64)
  then show "page_offset_kept example_phys" by (simp add: page_offset_kept_def example_phys_def)
  show "code_fits tiny_gen (cache_init b 0x10000 0x8000 m l)" by (simp add: code_fits_def tiny_gen_def cache_init_def)
qed

lemma example_init_inv: "cache_inv tiny_gen 0 (example_phys, example_init)"
  unfolding example_init_def by (rule init_inv) (simp_all add: example_ok)

definition example_acache :: acache where
  "example_acache = add_block 0 (tb_phys_hash_func 0x1010) 0x1000 no_page empty_cache"

lemma example_acache_simps [simp]:
  "live example_acache = {0}" "plists example_acache p = (if p = pkey 0x1000 then [(0, 0)] else [])"
  "jumpers example_acache T = []"
  by (simp_all add: example_acache_def) (simp_all add: add_block_def empty_cache_def Let_def)

lemma example_init_ok:
  "cache_ok tiny_gen example_init empty_cache" "nb_tbs example_init = 0"
  "room_for (example_init\<lparr>tb_invalidated_flag := False\<rparr>) empty_cache example_init empty_cache"
  "tb_alloc_retry pc (example_init\<lparr>tb_invalidated_flag := False\<rparr>) = Some (nb_tbs example_init, alloc_next pc example_init)"
proof -
  have e0: "example_init\<lparr>tb_invalidated_flag := False\<rparr> = example_init" by (simp add: example_init_def cache_init_def)
  show C: "cache_ok tiny_gen example_init empty_cache"
    unfolding example_init_def cache_ok_def
    using init_refines example_ok(3) by (simp add: buffer_ok_def) (simp add: cache_init_def)
  show "nb_tbs example_init = 0" by (simp add: example_init_def cache_init_def)
  show "room_for (example_init\<lparr>tb_invalidated_flag := False\<rparr>) empty_cache example_init empty_cache"
    using C unfolding e0 room_for_def cache_ok_def by (simp add: example_init_def cache_init_def)
  show "tb_alloc_retry pc (example_init\<lparr>tb_invalidated_flag := False\<rparr>) = Some (nb_tbs example_init, alloc_next pc example_init)"
    unfolding e0 by (simp add: tb_alloc_retry_def alloc_cases example_init_def cache_init_def)
qed

lemma example_cache_ok:
  "cache_ok tiny_gen example_cache example_acache" "refines example_cache example_acache" "nb_tbs example_cache = 1"
  "cpus example_cache = [0]" "current_tb example_cache = (\<lambda>_. None)"
  "tb_find_fast example_phys tiny_gen 0 0x1010 0 0 example_init = Some (0, example_cache)"
  "entries_current example_phys 0 example_cache" "tb_matches example_phys 0x1010 0 0 example_cache 0"
  "tb_size example_cache 0 = 4" "page_addr example_cache (0, 1) = no_page"
proof -
  have n: "\<forall>u\<in>set (buckets empty_cache (tb_phys_hash_func (example_phys 0x1010))). \<not> tb_matches example_phys 0x1010 0 0 example_init u"
    by (simp add: empty_cache_def)
  let ?A = "\<lambda>p2. add_block 0 (tb_phys_hash_func (example_phys 0x1010)) (example_phys 0x1010 AND NOT (mask 12)) p2 empty_cache"
  obtain s' p2 where s': "tb_find_slow example_phys tiny_gen 0 0x1010 0 0 example_init = Some (0, s')"
    "cache_ok tiny_gen s' (?A p2)" "tb_matches example_phys 0x1010 0 0 s' 0"
    "looked_up 0 0 example_init empty_cache s' (?A p2)" "tb_jmp_cache s' 0 (tb_jmp_cache_hash_func 0x1010) = Some 0"
    "tb_invalidated_flag s' = tb_invalidated_flag example_init" "nb_tbs s' = Suc 0" "page_addr s' (0, 1) = p2"
    "\<exists>g. tb_size s' 0 = gen_tb_size (tiny_gen 0 g)"
    "0x1010 AND NOT (mask 12) = (0x1010 + ucast (tb_size s' 0) - 1 :: u32) AND NOT (mask 12) \<longrightarrow> p2 = no_page"
    by (rule find_slow_at [OF example_init_ok(1) example_ok(1,2) n refl example_init_ok(4,3), unfolded example_init_ok(2)])
      (rule that; assumption)
  have sz: "tb_size s' 0 = 4" using s'(9) by (auto simp: tiny_gen_def)
  have p2: "p2 = no_page" using s'(10) by (simp add: sz mask_eq_exp_minus_1)
  have A: "?A p2 = example_acache" by (simp add: example_acache_def p2 example_phys_def mask_eq_exp_minus_1)
  have f: "tb_find_fast example_phys tiny_gen 0 0x1010 0 0 example_init = Some (0, s')"
    using s'(1) by (simp add: tb_find_fast_def example_init_def cache_init_def)
  then have e: "example_cache = s'" by (simp add: example_cache_def)
  show "cache_ok tiny_gen example_cache example_acache" using s'(2) by (simp add: e A)
  then show "refines example_cache example_acache" by (simp add: cache_ok_def)
  show cp: "cpus example_cache = [0]" "current_tb example_cache = (\<lambda>_. None)"
    using s'(4) by (simp_all add: e looked_up_def example_init_def cache_init_def)
  have "maps_to example_phys s' u" if "tb_jmp_cache s' 0 h = Some u" for h u
  proof -
    have "u = 0" using s'(4) that unfolding looked_up_def by (auto simp: example_init_def cache_init_def)
    then show ?thesis using s'(3) by (simp add: matches_maps_to)
  qed
  then show "entries_current example_phys 0 example_cache" by (simp add: e entries_current_def)
  show "nb_tbs example_cache = 1" "tb_find_fast example_phys tiny_gen 0 0x1010 0 0 example_init = Some (0, example_cache)"
    "tb_matches example_phys 0x1010 0 0 example_cache 0" "tb_size example_cache 0 = 4" "page_addr example_cache (0, 1) = no_page"
    using s'(3,7,8) f sz p2 by (simp_all add: e)
qed

section \<open>Lookup\<close>

text \<open>
  C2. In every state that is reached from start-up by lookups, patching, invalidation, flushes, changes
  of the mapping and interruptions, a lookup returns, and the block it returns is the translation of
  the guest code that is mapped at the program counter, with the segment base and flags asked for.
\<close>

theorem lookup_always_right:
  assumes "(cache_step gen env)\<^sup>*\<^sup>* (phys0, cache_init buffer sz max_sz max_blocks [env]) (phys, s)"
    and "code_fits gen (cache_init buffer sz max_sz max_blocks [env])" "size_bounded gen" "page_offset_kept phys0"
    and "0 < max_blocks" "0 < max_sz" "max_sz \<le> sz" "buffer \<le> buffer + sz"
  shows "\<exists>t s'. tb_find_fast phys gen env pc base flags s = Some (t, s') \<and> tb_matches phys pc base flags s' t"
proof -
  have "cache_inv gen env (phys, s)" by (rule run_inv [OF assms(1) init_inv [OF assms(2,4-8)] assms(3)])
  then obtain A where A: "cache_ok gen s A" "page_offset_kept phys" "env \<in> set (cpus s)" "entries_current phys env s"
    by (auto simp: cache_inv_def)
  obtain t s' where "tb_find_fast phys gen env pc base flags s = Some (t, s')" "tb_matches phys pc base flags s' t"
    by (rule find_fast_ok [OF A(1) assms(3) A(2-4)])
  then show ?thesis by blast
qed

theorem lookup_always_right_witness:
  "(cache_step tiny_gen 0)\<^sup>*\<^sup>* (example_phys, cache_init 0x10000 0x10000 0x8000 16 [0]) (example_phys, example_cache) \<and>
     nb_tbs example_cache = 1 \<and>
     (\<exists>t s'. tb_find_fast example_phys tiny_gen 0 0x1010 0 0 example_cache = Some (t, s') \<and>
        tb_matches example_phys 0x1010 0 0 s' t)"
proof -
  have run: "(cache_step tiny_gen 0)\<^sup>*\<^sup>* (example_phys, cache_init 0x10000 0x10000 0x8000 16 [0]) (example_phys, example_cache)"
    using cache_step.lookup [OF example_cache_ok(6)] unfolding example_init_def by (rule r_into_rtranclp)
  have "\<exists>t s'. tb_find_fast example_phys tiny_gen 0 0x1010 0 0 example_cache = Some (t, s') \<and>
      tb_matches example_phys 0x1010 0 0 s' t"
    by (rule lookup_always_right [OF run example_ok(3,1,2)]) simp_all
  then show ?thesis using run example_cache_ok(3) by blast
qed

text \<open>
  C16. Changing the mapping of a page and flushing its entries from the jump cache leaves only entries
  of blocks that are still translations of what is mapped: also blocks that start on the page before
  and reach into the page are dropped.
\<close>

theorem remap_keeps_jump_cache_right:
  assumes "refines s A" "env \<in> set (cpus s)" "entries_current phys env s" "same_but addr phys phys'"
  shows "entries_current phys' env (tlb_flush_jmp_cache env addr s) \<and> refines (tlb_flush_jmp_cache env addr s) A"
  using entries_current_flush [OF assms] flush_jmp_cache_refines [OF assms(1)] by blast

theorem remap_keeps_jump_cache_right_witness:
  "same_but 0x5000 example_phys (example_phys(0x5000 := 0x9000)) \<and> entries_current example_phys 0 example_cache \<and>
     entries_current (example_phys(0x5000 := 0x9000)) 0 (tlb_flush_jmp_cache 0 0x5000 example_cache)"
proof -
  have sb: "same_but 0x5000 example_phys (example_phys(0x5000 := 0x9000))" by (auto simp: same_but_def)
  have c: "0 \<in> set (cpus example_cache)" by (simp add: example_cache_ok)
  show ?thesis
    using sb example_cache_ok(7) remap_keeps_jump_cache_right [OF example_cache_ok(2) c example_cache_ok(7) sb] by blast
qed

section \<open>Invalidation\<close>

text \<open>
  C6. Invalidating a block of the cache returns and keeps the cache consistent without the block: no
  bucket, no jump cache and no direct jump leads to it any more.
\<close>

theorem invalidation_removes_block:
  assumes "cache_ok gen s A" "t \<in> live A"
  shows "\<exists>s'. tb_phys_invalidate t no_page s = Some s' \<and> cache_ok gen s' (kill t A) \<and> live (kill t A) = live A - {t} \<and>
    (\<forall>m h l. tb_find_loop m (Bucket h) s' \<noteq> Some (l, Some t)) \<and>
    (\<forall>c\<in>set (cpus s'). \<forall>h. tb_jmp_cache s' c h \<noteq> Some t) \<and> (\<forall>u. \<not> direct_jump s' u t)"
proof -
  have R: "refines s A" using assms(1) by (simp add: cache_ok_def)
  obtain s' where s': "tb_phys_invalidate t no_page s = Some s'" "refines s' (kill t A)" "static_view s' = static_view s"
    by (rule invalidate_refines [OF R assms(2)])
  have C: "cache_ok gen s' (kill t A)" using assms(1) s'(2) static_ok(1,2) [OF s'(3)] by (simp add: cache_ok_def)
  have "tb_find_loop m (Bucket h) s' \<noteq> Some (l, Some t)" for m h l
    using found_in_cache [OF s'(2), of m h l t] by auto
  moreover have "\<forall>c\<in>set (cpus s'). \<forall>h. tb_jmp_cache s' c h \<noteq> Some t"
    using refinesD(6) [OF s'(2)] by (auto simp: jcache_ok_def)
  moreover have "\<not> direct_jump s' u t" for u
  proof
    assume j: "direct_jump s' u t"
    have B: "buffer_ok s'" using C by (simp add: cache_ok_def)
    obtain n where "n < 2" "(u, n) \<in> set (jumpers (kill t A) t)" by (rule direct_jump_jumper [OF s'(2) B j])
    then show False by simp
  qed
  ultimately show ?thesis using s'(1) C by auto
qed

theorem invalidation_removes_block_witness:
  "\<exists>s'. tb_phys_invalidate 0 no_page example_cache = Some s' \<and> cache_ok tiny_gen s' (kill 0 example_acache) \<and>
     live (kill 0 example_acache) = {}"
  using invalidation_removes_block [OF example_cache_ok(1), of 0] by auto

section \<open>Unchaining\<close>

lemma patched_jump:
  assumes R: "refines s A" and t: "t < nb_tbs s" "T < nb_tbs s" "n < 2" and n: "jmp_next s (t, n) = None"
  shows "direct_jump (tb_add_jump t n T s) t T"
proof -
  have "circular (get_jmp s) (nb_tbs s) (jumpers A)" using refinesD(5) [OF R] by (simp add: jmp_ok_def jmp_lists_def)
  from circularD(1) [OF this t(2)] have "jmp_first s T \<noteq> None" by (cases "jumpers A T") (auto simp: get_jmp_def)
  then show ?thesis
    using n t by (auto simp: direct_jump_def tb_add_jump_def tb_set_jmp_target_def Let_def less_2_cases_iff)
qed

text \<open>
  C10. The recursion of \<open>tb_reset_jump_recursive\<close> ends, although blocks may jump to themselves and to
  each other in cycles, and unchains both exits of every block that direct jumps lead to; the blocks
  of the cache stay.
\<close>

theorem unchaining_ends:
  assumes "cache_ok gen s A" "t < nb_tbs s"
  shows "\<exists>s' A'. tb_reset_jump_recursive t s = Some s' \<and> cache_ok gen s' A' \<and> live A' = live A \<and>
    (\<forall>u. (direct_jump s)\<^sup>*\<^sup>* t u \<longrightarrow> (\<forall>n<2. jmp_next s' (u, n) = None)) \<and>
    (\<forall>u v. (direct_jump s)\<^sup>*\<^sup>* t u \<longrightarrow> \<not> direct_jump s' u v)"
proof -
  have R: "refines s A" "buffer_ok s" using assms(1) by (simp_all add: cache_ok_def)
  obtain s' A' where s': "tb_reset_jump_recursive t s = Some s'" "unchains s A s' A'"
    "\<forall>u. (direct_jump s)\<^sup>*\<^sup>* t u \<longrightarrow> (\<forall>n<2. jmp_next s' (u, n) = None)"
    by (rule recursive_ok [OF R assms(2)])
  have sv: "static_view s' = static_view s" and l: "live A' = live A" and "refines s' A'"
    using s'(2) by (simp_all add: unchains_def trimmed_def live_def)
  then have "cache_ok gen s' A'" using assms(1) static_ok(1,2) [OF sv] by (simp add: cache_ok_def)
  moreover have "\<not> direct_jump s' u v" if "(direct_jump s)\<^sup>*\<^sup>* t u" for u v
    using s'(3) that by (auto simp: direct_jump_def)
  ultimately show ?thesis using s'(1,3) l by blast
qed

theorem unchaining_ends_witness:
  "direct_jump (tb_add_jump 0 0 0 example_cache) 0 0 \<and>
     (\<exists>s'. tb_reset_jump_recursive 0 (tb_add_jump 0 0 0 example_cache) = Some s' \<and> \<not> direct_jump s' 0 0)"
proof -
  let ?s = "tb_add_jump 0 0 0 example_cache"
  note R = example_cache_ok(2)
  have lt: "0 < nb_tbs example_cache" by (simp add: example_cache_ok)
  obtain A' where r: "refines ?s A'" "static_view ?s = static_view example_cache"
    using add_jump_refines [OF R lt _ lt, of 0] by auto
  have C: "cache_ok tiny_gen ?s A'"
    using example_cache_ok(1) r(1) static_ok(1,2) [OF r(2)] by (simp add: cache_ok_def)
  have nb: "nb_tbs ?s = 1" using static_fields(1) [OF r(2)] by (simp add: example_cache_ok)
  have "jmp_next example_cache (0, 0) = None" using unchained_iff [OF R refl, of 0 0] lt by simp
  then have j: "direct_jump ?s 0 0" by (intro patched_jump [OF R lt lt]) simp_all
  obtain s' where "tb_reset_jump_recursive 0 ?s = Some s'" "\<forall>u v. (direct_jump ?s)\<^sup>*\<^sup>* 0 u \<longrightarrow> \<not> direct_jump s' u v"
    using unchaining_ends [OF C, of 0] nb by auto
  then show ?thesis using j by blast
qed

section \<open>From a host address to its block\<close>

text \<open>
  C24. For a host address in the code of the cache, the binary search of \<open>tb_find_pc\<close> returns the last
  block whose code starts at or before the address, the one that a linear search would return.
\<close>

theorem find_pc_is_last_start:
  assumes "cache_ok gen s A" "0 < nb_tbs s" "tc_ptr s 0 \<le> ptr" "ptr < code_gen_ptr s"
  shows "tb_find_pc ptr s = Some (last (filter (\<lambda>t. tc_ptr s t \<le> ptr) [0..<nb_tbs s]))"
proof -
  have B: "buffer_ok s" using assms(1) by (simp add: cache_ok_def)
  obtain t where t: "tb_find_pc ptr s = Some t" "t < nb_tbs s" "tc_ptr s t \<le> ptr"
    "\<forall>u<nb_tbs s. t < u \<longrightarrow> ptr < tc_ptr s u"
    by (rule find_pc_ok [OF B assms(2-4)])
  have "[0..<nb_tbs s] = [0..<t] @ t # [Suc t..<nb_tbs s]"
    using t(2) by (metis less_imp_le upt_add_eq_append upt_conv_Cons le0 le_add_diff_inverse)
  moreover have "filter (\<lambda>t. tc_ptr s t \<le> ptr) [Suc t..<nb_tbs s] = []"
    using t(4) by (auto simp: filter_empty_conv not_le)
  ultimately show ?thesis using t(1,3) by simp
qed

theorem find_pc_is_last_start_witness:
  "tb_find_pc (tc_ptr example_cache 0) example_cache = Some 0"
proof -
  have "tc_ptr example_cache 0 < code_gen_ptr example_cache"
    using example_cache_ok(1,3) by (simp add: cache_ok_def buffer_ok_def)
  then show ?thesis
    using find_pc_is_last_start [OF example_cache_ok(1), of "tc_ptr example_cache 0"] by (simp add: example_cache_ok)
qed

section \<open>Self-modifying code\<close>

lemma bitmap_built:
  assumes "refines s A" "page_present s p"
  obtains tab where "build_page_bitmap p s = Some (upd_pd p (\<lambda>d. d\<lparr>code_bitmap := Some tab\<rparr>) s)"
    "code_bitmap (get_pd (upd_pd p (\<lambda>d. d\<lparr>code_bitmap := Some tab\<rparr>) s) p) = Some tab"
    "refines (upd_pd p (\<lambda>d. d\<lparr>code_bitmap := Some tab\<rparr>) s) A"
    "\<forall>k. tab_bit tab k \<longleftrightarrow> (\<exists>x\<in>set (plists A p). covers_byte s x k)"
proof -
  obtain tab where t: "build_page_bitmap p s = Some (upd_pd p (\<lambda>d. d\<lparr>code_bitmap := Some tab\<rparr>) s)"
    "\<forall>k. tab_bit tab k \<longleftrightarrow> (\<exists>x\<in>set (plists A p). covers_byte s x k)"
    by (rule bytes_built [OF assms])
  moreover have "refines (upd_pd p (\<lambda>d. d\<lparr>code_bitmap := Some tab\<rparr>) s) A" using assms(1) by (simp add: upd_pd_refines)
  moreover have "code_bitmap (get_pd (upd_pd p (\<lambda>d. d\<lparr>code_bitmap := Some tab\<rparr>) s) p) = Some tab"
    using get_pd_upd_present [OF assms(2), of "\<lambda>d. d\<lparr>code_bitmap := Some tab\<rparr>" p] by simp
  ultimately show thesis using that by blast
qed

text \<open>
  C25. The bitmap that \<open>build_page_bitmap\<close> attaches to a page has exactly the bytes that the blocks on
  the page cover, and nothing beyond the 512 bytes that are allocated for it.
\<close>

theorem page_bitmap_exact:
  assumes "refines s A" "page_present s p"
  shows "\<exists>s' tab. build_page_bitmap p s = Some s' \<and> code_bitmap (get_pd s' p) = Some tab \<and> refines s' A \<and>
    (\<forall>k. tab_bit tab k \<longleftrightarrow> (\<exists>x\<in>set (plists A p). covers_byte s x k)) \<and> (\<forall>i\<ge>512. tab i = 0)"
proof -
  obtain tab where t: "build_page_bitmap p s = Some (upd_pd p (\<lambda>d. d\<lparr>code_bitmap := Some tab\<rparr>) s)"
    "code_bitmap (get_pd (upd_pd p (\<lambda>d. d\<lparr>code_bitmap := Some tab\<rparr>) s) p) = Some tab"
    "refines (upd_pd p (\<lambda>d. d\<lparr>code_bitmap := Some tab\<rparr>) s) A"
    "\<forall>k. tab_bit tab k \<longleftrightarrow> (\<exists>x\<in>set (plists A p). covers_byte s x k)"
    by (rule bitmap_built [OF assms])
  have "tab i = 0" if "512 \<le> i" for i
  proof (rule bit_word_eqI)
    fix n assume "n < LENGTH(8)"
    then have "(i * 8 + n) div 8 = i" "(i * 8 + n) mod 8 = n" by auto
    moreover have "\<not> tab_bit tab (i * 8 + n)" using t(4) that by (auto simp: covers_byte_def)
    ultimately show "bit (tab i) n = bit 0 n" by (simp add: tab_bit_def)
  qed
  then show ?thesis using t by blast
qed

lemma example_page: "page_present example_cache (pkey 0x1000)" "page_addr example_cache (0, 0) = 0x1000" "pkey 0x1012 = pkey 0x1000"
proof -
  have "plists example_acache (pkey 0x1000) \<noteq> []" by simp
  then show "page_present example_cache (pkey 0x1000)" using refinesD(4) [OF example_cache_ok(2)] unfolding page_ok_def by blast
  show "page_addr example_cache (0, 0) = 0x1000"
    using example_cache_ok(8) by (simp add: tb_matches_def example_phys_def mask_eq_exp_minus_1)
  show "pkey 0x1012 = pkey 0x1000" by (simp add: pkey_def Let_def drop_bit_eq_div)
qed

lemma example_bytes: "covers_byte example_cache (0, 0) k \<longleftrightarrow> 0x10 \<le> k \<and> k < 0x14"
proof -
  have "tb_pc example_cache 0 AND mask 12 = 0x10" using example_cache_ok(8) by (simp add: tb_matches_def mask_eq_exp_minus_1)
  then have "covers_byte example_cache (0, 0) k \<longleftrightarrow> k < 4096 \<and> (\<exists>i<4. 16 + i = k)"
    using example_cache_ok(9) by (simp add: covers_byte_def)
  also have "\<dots> \<longleftrightarrow> 0x10 \<le> k \<and> k < 0x14" by presburger
  finally show ?thesis .
qed

theorem page_bitmap_exact_witness:
  "\<exists>s' tab. build_page_bitmap (pkey 0x1000) example_cache = Some s' \<and> code_bitmap (get_pd s' (pkey 0x1000)) = Some tab \<and>
     tab_bit tab 0x13 \<and> \<not> tab_bit tab 0x14"
proof -
  have "covers_byte example_cache (0, 0) 0x13" "\<not> covers_byte example_cache (0, 0) 0x14" by (simp_all add: example_bytes)
  then show ?thesis using page_bitmap_exact [OF example_cache_ok(2) example_page(1)] by auto
qed

text \<open>
  C13. \<open>tb_invalidate_phys_page_range\<close> removes exactly the blocks with a byte of code in a range of
  one physical page.  (A block on two virtual pages that are mapped to one physical page would be on
  the list of the page twice.)
\<close>

theorem range_invalidation_exact:
  assumes "cache_ok gen s A" "size_bounded gen" "page_offset_kept phys" "running_ok s" "once_per_page A start"
    "same_page s A start" "unat start < unat stop" "unat stop \<le> unat (start AND NOT (mask 12)) + 4096"
  shows "\<exists>s' A'. tb_invalidate_phys_page_range phys gen env io_pc restored start stop False s = Some (s', False) \<and>
    cache_ok gen s' A' \<and> live A' = live A - hit_blocks s A start stop"
proof -
  have w: "False \<longrightarrow> env \<noteq> None" by simp
  have R: "refines s A" using assms(1) by (simp add: cache_ok_def)
  obtain s' A' resumed where r:
    "tb_invalidate_phys_page_range phys gen env io_pc restored start stop False s = Some (s', resumed)"
    "cache_ok gen s' A'"
    "if resumed then \<exists>t\<in>live A'. live A' - {t} \<subseteq> live A - range_blocks s A start stop
     else live A' = live A - range_blocks s A start stop \<and> static_view s' = static_view s \<and>
       (\<forall>a. once_per_page A a \<longrightarrow> once_per_page A' a) \<and> (\<forall>e. current_tb s e = None \<longrightarrow> current_tb s' e = None)"
    "\<not> False \<longrightarrow> \<not> resumed"
    by (rule range_ok [OF assms(1-4) w assms(5)]) (rule that; assumption)
  then show ?thesis unfolding range_blocks_hit [OF R assms(6-8), symmetric] by auto
qed

theorem range_invalidation_exact_witness:
  "\<exists>s' A'. tb_invalidate_phys_page_range example_phys tiny_gen None 0 (\<lambda>_. (0, 0, 0)) 0x1000 0x1012 False example_cache =
       Some (s', False) \<and> cache_ok tiny_gen s' A' \<and> live A' = {}"
proof -
  have run: "running_ok example_cache" by (simp add: running_ok_def example_cache_ok)
  have o: "once_per_page example_acache 0x1000" by (simp add: once_per_page_def)
  have sp: "same_page example_cache example_acache 0x1000" by (simp add: same_page_def example_page mask_eq_exp_minus_1)
  have r: "unat (0x1000 :: u64) < unat (0x1012 :: u64)" "unat (0x1012 :: u64) \<le> unat (0x1000 AND NOT (mask 12) :: u64) + 4096"
    by (simp_all add: mask_eq_exp_minus_1)
  have "0 \<in> hit_blocks example_cache example_acache 0x1000 0x1012"
    unfolding hit_blocks_def by (intro CollectI exI [of _ 0] exI [of _ "0x10"]) (simp add: example_bytes example_page)
  then show ?thesis
    using range_invalidation_exact [OF example_cache_ok(1) example_ok(1,2) run o sp r, of None 0 "\<lambda>_. (0, 0, 0)"] by auto
qed



end
