(* ===== verification/Flush_Properties.thy ===== *)
theory Flush_Properties
  imports Cache_Properties Callback_Runs
begin

text \<open>
  The flushes of the callback registry on the code cache: what they remove and what they miss.
\<close>

declare split_paired_All [simp del] split_paired_Ex [simp del]

definition example_env :: cache_env where
  "example_env = \<lparr>get_page_addr_code = example_phys, cpu_gen_code = tiny_gen, cpu_single_env = Some 0,
     mem_io_pc = 0, restored_state = (\<lambda>_. (0, 0, 0))\<rparr>"

lemma example_env_simps [simp]:
  "get_page_addr_code example_env = example_phys" "cpu_gen_code example_env = tiny_gen"
  by (simp_all add: example_env_def)

lemma example_idle: "idle_ok example_env example_cache example_acache"
  by (simp add: idle_ok_def example_cache_ok once_per_page_def)

lemma example_linear: "tb_linear_pc example_cache 0 = 0x1010"
  using example_cache_ok(8) by (simp add: tb_linear_pc_def tb_matches_def)

section \<open>What flushes remove\<close>



text \<open>
  C29. A flush by address searches the whole hash table once for every CPU and removes one block with
  that address each time: it removes the block when it is the only one, and with one CPU it leaves
  all but one of the blocks with that address, such as the ones for other CPU flags.
\<close>

theorem block_flush_removes_one_per_cpu:
  assumes "idle_ok E s A"
  shows "\<exists>s' A'. DECAF_flushTranslationBlock (cpus s) addr s = Some s' \<and> idle_ok E s' A' \<and> live A' \<subseteq> live A \<and>
    {t \<in> live A. tb_linear_pc s t \<noteq> addr} \<subseteq> live A' \<and>
    card {t \<in> live A'. tb_linear_pc s t = addr} = card {t \<in> live A. tb_linear_pc s t = addr} - length (cpus s)"
  using flush_block_ok [OF assms, of "cpus s" addr] by blast

theorem block_flush_removes_one_per_cpu_witness:
  "\<exists>s' A'. DECAF_flushTranslationBlock (cpus example_cache) 0x1010 example_cache = Some s' \<and> idle_ok example_env s' A' \<and> live A' = {}"
proof -
  obtain s' A' where s': "DECAF_flushTranslationBlock (cpus example_cache) 0x1010 example_cache = Some s'" "idle_ok example_env s' A'"
    "live A' \<subseteq> live example_acache" "card {t \<in> live A'. tb_linear_pc example_cache t = 0x1010} =
      card {t \<in> live example_acache. tb_linear_pc example_cache t = 0x1010} - length (cpus example_cache)"
    using block_flush_removes_one_per_cpu [OF example_idle, of "0x1010"] by blast
  have "{t \<in> live A'. tb_linear_pc example_cache t = 0x1010} = live A'"
    "{t \<in> live example_acache. tb_linear_pc example_cache t = 0x1010} = {0}"
    using s'(3) example_linear by auto
  then have "card (live A') = 0" using s'(4) by (simp add: example_cache_ok)
  moreover have "finite (live A')" using s'(3) finite_subset by fastforce
  ultimately show ?thesis using s'(1,2) by auto
qed

text \<open>
  C30. A flush of a page looks for a block that starts at the address of the page.  When none does, the
  flush removes nothing, although the page may be full of translated code.
\<close>

theorem page_flush_misses:
  assumes "idle_ok E s A" "size_bounded (cpu_gen_code E)" "page_offset_kept (get_page_addr_code E)" "cpus s \<noteq> []"
    "\<forall>t\<in>live A. tb_linear_pc s t \<noteq> addr"
  shows "DECAF_flushTranslationPage E (cpus s) addr s = Some (s\<lparr>tb_invalidated_flag := False\<rparr>)"
proof -
  have step: "DECAF_flushTranslationPage_env E addr u = Some (u\<lparr>tb_invalidated_flag := False\<rparr>)"
    if "idle_ok E u A" "\<forall>t\<in>live A. tb_linear_pc u t \<noteq> addr" for u
    by (rule flush_page_env_ok [OF that(1) assms(2,3), of addr]) (use that(2) in simp)
  let ?s = "s\<lparr>tb_invalidated_flag := False\<rparr>"
  have s: "idle_ok E ?s A" "\<forall>t\<in>live A. tb_linear_pc ?s t \<noteq> addr"
    using assms(1,5) by (simp_all add: idle_flag tb_linear_pc_def)
  have "DECAF_flushTranslationPage E l addr ?s = Some ?s" for l
    by (induction l) (simp_all add: step [OF s])
  then show ?thesis using assms(4) step [OF assms(1,5)] by (cases "cpus s") simp_all
qed

theorem page_flush_misses_witness:
  "page_addr example_cache (0, 0) = 0x1000 \<and> 0 \<in> live example_acache \<and>
     DECAF_flushTranslationPage example_env (cpus example_cache) 0x1000 example_cache =
       Some (example_cache\<lparr>tb_invalidated_flag := False\<rparr>)"
proof -
  have "\<forall>t\<in>live example_acache. tb_linear_pc example_cache t \<noteq> 0x1000" by (simp add: example_linear)
  then have "DECAF_flushTranslationPage example_env (cpus example_cache) 0x1000 example_cache =
      Some (example_cache\<lparr>tb_invalidated_flag := False\<rparr>)"
    by (intro page_flush_misses [OF example_idle]) (simp_all add: example_ok example_cache_ok)
  then show ?thesis by (simp add: example_page)
qed

section \<open>The stale exit\<close>

lemma lookup_in_empty:
  assumes C: "cache_ok gen s empty_cache" and gen: "size_bounded gen" "page_offset_kept phys" and env: "env \<in> set (cpus s)"
    and nb: "nb_tbs s = 0" "code_gen_ptr s = code_gen_buffer s"
    and page: "\<forall>t g. (pc + ucast (gen_tb_size (gen t g)) - 1) AND NOT (mask 12) = pc AND NOT (mask 12)"
  obtains s' A' where "tb_find_fast phys gen env pc base flags s = Some (0, s')" "cache_ok gen s' A'"
    "tb_matches phys pc base flags s' 0" "\<not> tb_invalidated_flag s'" "nb_tbs s' = 1" "page_addr s' (0, 1) = no_page"
    "\<forall>n<2. jmp_next s' (0, n) = None" "current_tb s' = current_tb s"
proof -
  let ?s0 = "s\<lparr>tb_invalidated_flag := False\<rparr>" and ?h = "tb_phys_hash_func (phys pc)"
  have v: "static_view ?s0 = static_view s" by (simp add: static_view_def)
  have "refines ?s0 empty_cache = refines s empty_cache" by (rule refines_cong) (simp_all add: all_views)
  then have room: "room_for ?s0 empty_cache ?s0 empty_cache"
    using C nb static_ok(1) [OF v] by (simp add: room_for_def cache_ok_def) (simp add: buffer_ok_def)
  have al: "tb_alloc_retry pc ?s0 = Some (nb_tbs ?s0, alloc_next pc ?s0)"
    using C nb by (simp add: tb_alloc_retry_def alloc_cases cache_ok_def buffer_ok_def word_gt_0)
  have n: "\<forall>u\<in>set (buckets empty_cache ?h). \<not> tb_matches phys pc base flags s u" by (simp add: empty_cache_def)
  have nb0: "nb_tbs ?s0 = 0" using nb by simp
  let ?A = "\<lambda>p2. add_block 0 ?h (phys pc AND NOT (mask 12)) p2 empty_cache"
  obtain s' p2 where s': "tb_find_slow phys gen env pc base flags s = Some (0, s')" "cache_ok gen s' (?A p2)"
    "tb_matches phys pc base flags s' 0" "looked_up env 0 s empty_cache s' (?A p2)"
    "tb_jmp_cache s' env (tb_jmp_cache_hash_func pc) = Some 0" "tb_invalidated_flag s' = tb_invalidated_flag ?s0" "nb_tbs s' = Suc 0"
    "page_addr s' (0, 1) = p2" "\<exists>g. tb_size s' 0 = gen_tb_size (gen 0 g)"
    "pc AND NOT (mask 12) = (pc + ucast (tb_size s' 0) - 1) AND NOT (mask 12) \<longrightarrow> p2 = no_page"
    by (rule find_slow_at [OF C gen n refl al room, unfolded nb0]) (rule that; assumption)
  have "refines s empty_cache" using C by (simp add: cache_ok_def)
  then have "jcache_ok s empty_cache" by (rule refinesD(6))
  then have "tb_jmp_cache s env h = None" for h
    using env by (cases "tb_jmp_cache s env h") (auto simp: jcache_ok_def live_def empty_cache_def)
  then have f: "tb_find_fast phys gen env pc base flags s = Some (0, s')" using s'(1) by (simp add: tb_find_fast_def)
  have p2: "page_addr s' (0, 1) = no_page" using s'(8-10) page by auto
  have R: "refines s' (?A p2)" using s'(2) by (simp add: cache_ok_def)
  have "jmp_next s' (0, m) = None" if "m < 2" for m
    using unchained_iff [OF R refl, of 0 m] that s'(7) by (simp add: add_block_def empty_cache_def Let_def)
  then show thesis using that [OF f s'(2,3)] s'(6,7) p2 s'(4) by (simp add: looked_up_def)
qed

text \<open>
  C31. The exit that the last block left through survives a flush of the whole cache, because only a
  flush inside \<open>tb_gen_code\<close> sets \<open>tb_invalidated_flag\<close>.  When that block was the first of the cache,
  the block that is translated next takes its place, and its exit is patched to jump to its own start.
\<close>

theorem stale_exit_jumps_to_itself:
  assumes "idle_ok E s A" "size_bounded (cpu_gen_code E)" "page_offset_kept (get_page_addr_code E)" "env \<in> set (cpus s)"
    "fst (DECAF_perform_flush r) = [(ALL_CACHE, 0)]" "n < 2"
    "\<forall>t g. (pc + ucast (gen_tb_size (cpu_gen_code E t g)) - 1) AND NOT (mask 12) = pc AND NOT (mask 12)"
  shows "\<exists>s' r'. cpu_exec_lookup E env pc base flags (Some (0, n)) r s = Some (0, r', s') \<and> tb_pc s' 0 = pc \<and>
    direct_jump s' 0 0 \<and> jmp_target s' (0, n) = tc_ptr s' 0"
proof -
  obtain s1 where s1: "tb_flush s = Some s1" "idle_ok E s1 empty_cache" "cpus s1 = cpus s" "nb_tbs s1 = 0"
    "tb_invalidated_flag s1 = tb_invalidated_flag s" "code_gen_ptr s1 = code_gen_buffer s1"
    by (rule flush_all_ok [OF assms(1)])
  have C1: "cache_ok (cpu_gen_code E) s1 empty_cache" and env: "env \<in> set (cpus s1)"
    using s1(2,3) assms(4) by (simp_all add: idle_ok_def)
  obtain s2 A2 where s2: "tb_find_fast (get_page_addr_code E) (cpu_gen_code E) env pc base flags s1 = Some (0, s2)"
    "cache_ok (cpu_gen_code E) s2 A2" "tb_matches (get_page_addr_code E) pc base flags s2 0" "\<not> tb_invalidated_flag s2"
    "nb_tbs s2 = 1" "page_addr s2 (0, 1) = no_page" "\<forall>n<2. jmp_next s2 (0, n) = None"
    by (rule lookup_in_empty [OF C1 assms(2,3) env s1(4,6) assms(7)])
  obtain r' where r: "DECAF_perform_flush r = ([(ALL_CACHE, 0)], r')" using assms(5) by (cases "DECAF_perform_flush r") simp
  let ?s3 = "tb_add_jump 0 n 0 s2"
  let ?s = "?s3\<lparr>current_tb := (current_tb ?s3)(env \<mapsto> 0)\<rparr>"
  have "cpu_exec_lookup E env pc base flags (Some (0, n)) r s = Some (0, r', ?s)"
    using s2(4,6) by (simp add: cpu_exec_lookup_def r do_flush_def s1(1) s2(1) Let_def)
  moreover have R2: "refines s2 A2" using s2(2) by (simp add: cache_ok_def)
  have "direct_jump ?s3 0 0" using s2(5,7) assms(6) by (intro patched_jump [OF R2]) simp_all
  then have "direct_jump ?s 0 0" by (simp add: direct_jump_def)
  moreover have "tb_pc ?s 0 = pc" using s2(3) by (simp add: tb_matches_def tb_add_jump_def tb_set_jmp_target_def Let_def)
  moreover have "jmp_target ?s (0, n) = tc_ptr ?s 0"
    using s2(7) assms(6) by (simp add: tb_add_jump_def tb_set_jmp_target_def Let_def)
  ultimately show ?thesis by blast
qed

theorem stale_exit_jumps_to_itself_witness:
  "\<exists>s' r'. cpu_exec_lookup example_env 0 0x2000 0 0 (Some (0, 1)) (DECAF_flushTranslationCache ALL_CACHE 0 boot) example_cache =
       Some (0, r', s') \<and> tb_pc example_cache 0 = 0x1010 \<and> tb_pc s' 0 = 0x2000 \<and> direct_jump s' 0 0"
proof -
  have r: "fst (DECAF_perform_flush (DECAF_flushTranslationCache ALL_CACHE 0 boot)) = [(ALL_CACHE, 0)]"
    by (simp add: DECAF_perform_flush_def DECAF_flushTranslationCache_def flush_list_insert_def boot_def
        DECAF_callback_init_def static_zero_def)
  have p: "\<forall>t g. (0x2000 + ucast (gen_tb_size (cpu_gen_code example_env t g)) - 1 :: u32) AND NOT (mask 12) = 0x2000 AND NOT (mask 12)"
    by (simp add: tiny_gen_def mask_eq_exp_minus_1)
  have "tb_pc example_cache 0 = 0x1010" using example_cache_ok(8) by (simp add: tb_matches_def)
  moreover have "\<exists>s' r'. cpu_exec_lookup example_env 0 0x2000 0 0 (Some (0, 1)) (DECAF_flushTranslationCache ALL_CACHE 0 boot) example_cache =
       Some (0, r', s') \<and> tb_pc s' 0 = 0x2000 \<and> direct_jump s' 0 0 \<and> jmp_target s' (0, 1) = tc_ptr s' 0"
    by (rule stale_exit_jumps_to_itself [OF example_idle _ _ _ r _ p]) (simp_all add: example_ok example_cache_ok)
  ultimately show ?thesis by blast
qed

end
