(* ===== verification/Uncached_Run.thy ===== *)
theory Uncached_Run
  imports Cache_Properties
begin

text \<open>
  A block that is executed once and not kept: \<open>cpu_exec_nocache\<close> of cpu-exec.c translates it, runs it,
  and takes it out of the cache again.
\<close>

declare split_paired_All [simp del] split_paired_Ex [simp del]











end
