(* ===== verification/Spec2Isabelle.thy ===== *)
theory Spec2Isabelle
  imports Shadow_Access Taint_Block Callback_Runs Flush_Properties Uncached_Run
begin

text \<open>
  A verification development for DECAF, a dynamic analysis platform on top of QEMU.  The files named
  below are under src/decaf.

  \<^bold>\<open>The program.\<close>  The translator turns blocks of guest code into operations of an intermediate
  representation and then into host code.  Four parts of DECAF meet there.  The taint instrumentation
  rewrites the operations of a block so that every temporary has a shadow that says which of its bits
  depend on tainted input.  The shadow memory holds the taint of every byte of guest memory, and the
  instrumented code reads and writes it through helpers.  The callback registry tells the translator
  which blocks need a call to user code, makes the calls at run time, and asks for a flush of the
  translated code whenever its answers change.  The code cache holds the translated blocks, links them
  by direct jumps, drops them when the guest overwrites their code, and carries out the flushes.

  \<^bold>\<open>Configuration.\<close>  64-bit x86 host, 32-bit x86 guest, system emulation with CONFIG_TCG_TAINT, pages
  of 4096 bytes, 36 bits of physical addresses.  CONFIG_2nd_CCACHE, CONFIG_TCG_IR_LOG and instruction
  counting are off.

  \<^bold>\<open>Shadow memory\<close> (shared/tainting/taint_memory.c).
  \<^item> \<open>Shadow_Memory\<close>: the page table, the pools of nodes and the allocation of nodes.  The state
    \<open>tstate\<close> has explicit heaps of nodes; \<open>None\<close> is undefined behaviour of the C code.  The invariant
    \<open>smem_inv\<close> says that no node is shared, freed while in use, or in a pool while in use; \<open>taint_at\<close>
    is the abstract byte map.
  \<^item> \<open>Shadow_Collect\<close>: garbage collection and release of the table.
  \<^item> \<open>Shadow_Access\<close>: the load and store helpers, \<open>taint_mem\<close> and \<open>taint_mem_check\<close>, the commands of
    the console.  Each access implements an access to the byte map; collection changes no byte;
    release frees each node once.  The shadow memory interprets the locale \<open>byte_store\<close> of
    \<open>Byte_Store\<close>, from which the round trip of the bulk operations follows.  Two theorems exhibit
    stores that misbehave.

  \<^bold>\<open>Taint instrumentation\<close> (shared/tainting/tcg_taint.c, shared/tainting/helper_i386_check.h).
  \<^item> \<open>Tcg_Ir\<close>: the intermediate representation of tcg/tcg-opc.h and tcg/tcg.h, the temporaries of
    tcg/tcg.c and the emitters of tcg/tcg-op.h, as computations of a state monad on \<open>gen_state\<close>.
  \<^item> \<open>Tci_Exec\<close>: the meaning of the register operations, from the interpreter tci.c.
  \<^item> \<open>Taint_Rules\<close>: \<open>gen_taintcheck_insn\<close> with one emitter for each case of its switch.
  \<^item> \<open>Taint_Algebra\<close>: the taint functions that the rules intend, and their soundness on words.
  \<^item> \<open>Gen_Logic\<close>, \<open>Taint_Sound\<close>, \<open>Taint_Block\<close>: reasoning about emitters, soundness of each rule, and
    its composition along a block.  The instrumented block computes what the block computes; two runs
    that differ in tainted bits only end in states that differ in tainted bits only.  The operations
    for which this holds are the ones that \<open>sound_block\<close> admits; the theorems named unsound show
    operations for which the rules fail.
  \<^item> \<open>I386_Globals\<close>: \<open>optimize_flags_init\<close> of target-i386/translate.c and the start of
    \<open>cpu_gen_code\<close> of translate-all.c establish the invariant of the generator state.

  \<^bold>\<open>Callback registry\<close> (shared/DECAF_callback.c, shared/utils/HashtableWrapper.cpp).
  \<^item> \<open>Counting_Table\<close>: the hash containers.  The locale \<open>counting_table\<close> relates a table to the
    multiset of registrations; it is interpreted for the table and for the two-level map.
  \<^item> \<open>Callbacks\<close>: registration, removal, the questions of the translator, the dispatch helpers, and
    the list of pending flushes of shared/DECAF_main.c.  A helper returns the calls it makes.
  \<^item> \<open>Callback_Registry\<close>, \<open>Callback_Runs\<close>: the invariants of the tables, for every run of
    registrations and removals (\<open>registry_step\<close>).  The translator is told to instrument exactly the
    blocks where something is called, and every change of an answer comes with a flush.  Three
    theorems exhibit removals and filters that misbehave.

  \<^bold>\<open>Code cache\<close> (exec.c, exec-all.h, cpu-exec.c).
  \<^item> \<open>Pointer_Lists\<close>: linked lists in memory, with locales for the loops that unlink a node.
  \<^item> \<open>Code_Cache\<close>: the blocks and the structures that lead to them, with every field of
    \<open>struct TranslationBlock\<close> as a function of the index of the block; allocation, linking, direct
    jumps, invalidation, lookup and unchaining.
  \<^item> \<open>Code_Cache_Inv\<close>: the abstract cache, three families of lists, and the refinement relation
    \<open>refines\<close> to the pointers.  The lists of the buckets, pages and jumps interpret the locales.
  \<^item> \<open>Code_Cache_Ops\<close>, \<open>Code_Cache_Link\<close>, \<open>Code_Cache_Find\<close>, \<open>Code_Cache_Unchain\<close>: each operation
    returns and implements an operation on the abstract cache.
  \<^item> \<open>Code_Pages\<close>, \<open>Code_Bytes\<close>: the bitmap of a page and invalidation by address, and what both mean
    for the bytes that blocks were translated from.
  \<^item> \<open>Cache_Flush\<close>: the flushes of shared/DECAF_main.c and the lookup of the main loop.
  \<^item> \<open>Cache_Correct\<close>, \<open>Cache_Properties\<close>, \<open>Uncached_Run\<close>, \<open>Flush_Properties\<close>: runs from start-up
    (\<open>cache_step\<close>) and the properties.  In every reachable state a lookup returns a translation of
    the code that is mapped; an invalidated block is not reached any more; a write to code removes
    the blocks with a byte that was written; the recursion that unchains blocks ends on cyclic jumps.
    Three theorems show what the flushes of DECAF miss.

  \<^bold>\<open>Loops and bounds.\<close>  There is no fuel.  Loops over linked structures are partial functions into
  \<open>option\<close>, where \<open>None\<close> is a null dereference or a loop that does not end, and the lemmas show that
  they return \<open>Some\<close>.  The other loops are total functions with a measure or recursions over lists.
  Machine integers keep their width; the counters of blocks are natural numbers below
  \<open>code_gen_max_blocks\<close>, and the statistics counters are unbounded.

  \<^bold>\<open>Parameters.\<close>  \<open>get_page_addr_code\<close> keeps the offset in the page (\<open>page_offset_kept\<close>).
  \<open>cpu_gen_code\<close> reports between 1 and 4096 bytes of guest code (\<open>size_bounded\<close>) and emits code that
  fits in the reserve of the buffer (\<open>code_fits\<close>).  \<open>cpu_restore_state\<close>, \<open>tcg_optimize\<close>,
  \<open>qemu_ram_addr_from_host_nofail\<close> and the execution of a block are parameters as well.  Protecting and
  unprotecting code pages in the TLB is recorded as a list of events.  Some properties of writes to
  code ask that no block is on the list of a page twice (\<open>once_per_page\<close>): a block on two virtual pages
  that are mapped to one physical page is, and is then invalidated twice.

  \<^bold>\<open>Not modelled.\<close>
  \<^item> The instruction decoders, the optimiser, the register allocator and the code generators: the
    development starts from the operations that the decoder emitted, or from what \<open>cpu_gen_code\<close>
    reports.
  \<^item> Branches, memory accesses and helper calls in the execution of instrumented code: the rules for
    them are modelled in \<open>Taint_Rules\<close>, their soundness is not proved.
  \<^item> The second code cache with \<open>gen_taintcheck_insn_ld\<close>, and user-mode emulation: other builds.
  \<^item> Taint sources (shared/tainting/taintcheck_opt.c), guest introspection, API hooks, plugins and
    console input and output: they depend on device models, guest kernels or the host.
  \<^item> The softmmu and the TLB, device models, block layer, network and user interface of QEMU, and the
    third-party libraries in the tree.
  \<^item> Callbacks that change the registry while it is dispatching, and concurrent CPUs: the code holds
    \<open>tb_lock\<close> around the cache and runs one CPU at a time.
\<close>

end
